theory Spec2Isabelle
  imports Main "HOL-Library.AList"
begin

section \<open>Configuration values\<close>

text \<open>
  The configuration document is a tree of parsed YAML/JSON values, typed
  \<^verbatim>\<open>Record<string, unknown>\<close> in the source. A value is \<^verbatim>\<open>undefined\<close>,
  \<^verbatim>\<open>null\<close>, a boolean, a number, a string, an array or an object. An object is
  the list of its own enumerable properties in enumeration order (the order of
  \<^verbatim>\<open>Object.keys\<close> and \<^verbatim>\<open>Object.entries\<close>); a JavaScript object never holds a key
  twice, which the predicate \<open>wf\<close> below records.

  Numbers are integers here: fractions and the non-finite doubles are not
  represented. Strings are lists of code units below 256. \<open>getProp\<close> below
  reads an own property; the read \<^verbatim>\<open>v[k]\<close> with a key the program does not choose
  itself also finds what the value inherits, and is \<open>getMember\<close> further down.
\<close>

datatype jv =
    JUndefined
  | JNull
  | JBool bool
  | JNum int
  | JStr string
  | JArr "jv list"
  | JObj "(string \<times> jv) list"

datatype js_type = TUndefined | TObject | TBoolean | TNumber | TString | TFunction

text \<open>\<^verbatim>\<open>typeof v\<close>: \<^verbatim>\<open>null\<close> and arrays answer \<^verbatim>\<open>"object"\<close>.\<close>

fun typeof :: "jv \<Rightarrow> js_type" where
  "typeof JUndefined = TUndefined"
| "typeof JNull = TObject"
| "typeof (JBool _) = TBoolean"
| "typeof (JNum _) = TNumber"
| "typeof (JStr _) = TString"
| "typeof (JArr _) = TObject"
| "typeof (JObj _) = TObject"

text \<open>\<^verbatim>\<open>Array.isArray(v)\<close>.\<close>

fun isArray :: "jv \<Rightarrow> bool" where
  "isArray (JArr _) = True"
| "isArray _ = False"

text \<open>The decimal name of an array index (\<^verbatim>\<open>String(i)\<close>).\<close>

fun index_string :: "nat \<Rightarrow> string" where
  "index_string n =
     (if n < 10 then [''0123456789'' ! n]
      else index_string (n div 10) @ [''0123456789'' ! (n mod 10)])"

declare index_string.simps [simp del]

text \<open>
  The elements of an array; \<^verbatim>\<open>Object.keys(v)\<close> of an object or array; and the
  value of the own property \<open>k\<close> of an object or array, \<^verbatim>\<open>undefined\<close> when it has
  none (an array owns its indices and \<^verbatim>\<open>length\<close>). \<open>getProp v k\<close> is the read
  \<^verbatim>\<open>v[k]\<close> whenever \<open>k\<close> is an own property of \<open>v\<close>, and whenever \<open>k\<close> is not a
  name that \<open>v\<close> inherits from its prototype.
\<close>

fun elems :: "jv \<Rightarrow> jv list" where
  "elems (JArr xs) = xs"
| "elems _ = []"

fun keys :: "jv \<Rightarrow> string list" where
  "keys (JObj kvs) = map fst kvs"
| "keys (JArr xs) = map index_string [0..<length xs]"
| "keys _ = []"

fun getProp :: "jv \<Rightarrow> string \<Rightarrow> jv" where
  "getProp (JObj kvs) k = (case map_of kvs k of Some v \<Rightarrow> v | None \<Rightarrow> JUndefined)"
| "getProp (JArr xs) k =
     (if k = ''length'' then JNum (int (length xs))
      else case List.find (\<lambda>i. index_string i = k) [0..<length xs] of
             Some i \<Rightarrow> xs ! i
           | None \<Rightarrow> JUndefined)"
| "getProp _ k = JUndefined"

text \<open>
  \<^verbatim>\<open>a === b\<close> on document values. Primitives compare by value. Arrays and
  objects compare by reference; at every call site of \<open>deepEqual\<close> the two
  arguments come from two separately parsed documents (the live configuration
  and the shipped default), so two arrays or objects of the documents are never
  the same reference and the comparison continues structurally.
\<close>

fun strict_eq :: "jv \<Rightarrow> jv \<Rightarrow> bool" where
  "strict_eq JUndefined JUndefined = True"
| "strict_eq JNull JNull = True"
| "strict_eq (JBool a) (JBool b) = (a = b)"
| "strict_eq (JNum a) (JNum b) = (a = b)"
| "strict_eq (JStr a) (JStr b) = (a = b)"
| "strict_eq _ _ = False"

text \<open>Well-formed values: no object holds a key twice.\<close>

fun wf :: "jv \<Rightarrow> bool" where
  "wf (JArr xs) = list_all wf xs"
| "wf (JObj kvs) = (distinct (map fst kvs) \<and> list_all (\<lambda>kv. wf (snd kv)) kvs)"
| "wf _ = True"

subsection \<open>Property reads through the prototype chain\<close>

text \<open>
  The objects of a parsed document are ordinary objects and its arrays ordinary
  arrays: they inherit from \<^verbatim>\<open>Object.prototype\<close> and \<^verbatim>\<open>Array.prototype\<close>. A read
  \<^verbatim>\<open>v[k]\<close> that finds no own property \<open>k\<close> goes on along that chain, so what it
  yields (typed \<^verbatim>\<open>unknown\<close> in the source) is a value of the document or one of
  the built-in objects: a built-in function, \<^verbatim>\<open>Object.prototype\<close> or
  \<^verbatim>\<open>Array.prototype\<close>.

  \<open>object_prototype_keys\<close> are the property names of \<^verbatim>\<open>Object.prototype\<close>;
  \<^verbatim>\<open>__proto__\<close> among them is an accessor that yields the prototype of the value
  it is read from, the others are functions. \<open>array_prototype_keys\<close> are the
  function-valued property names of \<^verbatim>\<open>Array.prototype\<close> (ECMAScript 2023);
  \<^verbatim>\<open>Array.prototype\<close> is itself an array, of length 0.
\<close>

datatype unknown = Data jv | BuiltinFunction string | ObjectPrototype | ArrayPrototype

definition object_prototype_keys :: "string list" where
  "object_prototype_keys =
     [''constructor'', ''__defineGetter__'', ''__defineSetter__'', ''hasOwnProperty'',
      ''__lookupGetter__'', ''__lookupSetter__'', ''isPrototypeOf'', ''propertyIsEnumerable'',
      ''toString'', ''valueOf'', ''__proto__'', ''toLocaleString'']"

definition array_prototype_keys :: "string list" where
  "array_prototype_keys =
     [''constructor'', ''at'', ''concat'', ''copyWithin'', ''fill'', ''find'', ''findIndex'',
      ''findLast'', ''findLastIndex'', ''lastIndexOf'', ''pop'', ''push'', ''reverse'',
      ''shift'', ''unshift'', ''slice'', ''sort'', ''splice'', ''includes'', ''indexOf'',
      ''join'', ''keys'', ''entries'', ''values'', ''forEach'', ''filter'', ''flat'',
      ''flatMap'', ''map'', ''every'', ''some'', ''reduce'', ''reduceRight'',
      ''toLocaleString'', ''toString'', ''toReversed'', ''toSorted'', ''toSpliced'', ''with'']"

text \<open>
  What a read of \<open>k\<close> finds on \<^verbatim>\<open>Object.prototype\<close> and on \<^verbatim>\<open>Array.prototype\<close>,
  for a value whose prototype is \<open>proto\<close>.
\<close>

definition fromObjectPrototype :: "unknown \<Rightarrow> string \<Rightarrow> unknown" where
  "fromObjectPrototype proto k =
     (if k = ''__proto__'' then proto
      else if k \<in> set object_prototype_keys then BuiltinFunction (''Object.prototype.'' @ k)
      else Data JUndefined)"

definition fromArrayPrototype :: "unknown \<Rightarrow> string \<Rightarrow> unknown" where
  "fromArrayPrototype proto k =
     (if k \<in> set array_prototype_keys then BuiltinFunction (''Array.prototype.'' @ k)
      else fromObjectPrototype proto k)"

text \<open>
  The read \<^verbatim>\<open>v[k]\<close>. The prototype of \<^verbatim>\<open>Object.prototype\<close> is \<^verbatim>\<open>null\<close>, that of
  \<^verbatim>\<open>Array.prototype\<close> is \<^verbatim>\<open>Object.prototype\<close>. The source reads members of
  objects and arrays only, after a test of \<^verbatim>\<open>typeof\<close>.
\<close>

fun getMember :: "unknown \<Rightarrow> string \<Rightarrow> unknown" where
  "getMember (Data (JObj kvs)) k =
     (case map_of kvs k of
        Some v \<Rightarrow> Data v
      | None \<Rightarrow> fromObjectPrototype ObjectPrototype k)"
| "getMember (Data (JArr xs)) k =
     (if k = ''length'' then Data (JNum (int (length xs)))
      else case List.find (\<lambda>i. index_string i = k) [0..<length xs] of
             Some i \<Rightarrow> Data (xs ! i)
           | None \<Rightarrow> fromArrayPrototype ArrayPrototype k)"
| "getMember ObjectPrototype k = fromObjectPrototype (Data JNull) k"
| "getMember ArrayPrototype k =
     (if k = ''length'' then Data (JNum 0) else fromArrayPrototype ObjectPrototype k)"
| "getMember _ k = Data JUndefined"

text \<open>
  \<^verbatim>\<open>typeof\<close>, \<^verbatim>\<open>Array.isArray\<close>, \<^verbatim>\<open>Object.keys\<close>, \<^verbatim>\<open>a.length\<close> and the read
  \<^verbatim>\<open>a[i]\<close> at a number, of whatever a read has yielded; neither prototype has an
  enumerable property. \<^verbatim>\<open>a === b\<close>: a built-in object is identical to itself
  only.
\<close>

fun typeOf :: "unknown \<Rightarrow> js_type" where
  "typeOf (Data v) = typeof v"
| "typeOf (BuiltinFunction _) = TFunction"
| "typeOf ObjectPrototype = TObject"
| "typeOf ArrayPrototype = TObject"

fun isArrayOf :: "unknown \<Rightarrow> bool" where
  "isArrayOf (Data v) = isArray v"
| "isArrayOf ArrayPrototype = True"
| "isArrayOf _ = False"

fun objectKeys :: "unknown \<Rightarrow> string list" where
  "objectKeys (Data v) = keys v"
| "objectKeys _ = []"

fun arrayLength :: "unknown \<Rightarrow> nat" where
  "arrayLength (Data v) = length (elems v)"
| "arrayLength _ = 0"

fun element :: "unknown \<Rightarrow> nat \<Rightarrow> unknown" where
  "element (Data v) i = (if i < length (elems v) then Data (elems v ! i) else Data JUndefined)"
| "element _ i = Data JUndefined"

fun strictEquals :: "unknown \<Rightarrow> unknown \<Rightarrow> bool" where
  "strictEquals (Data a) (Data b) = strict_eq a b"
| "strictEquals (BuiltinFunction f) (BuiltinFunction g) = (f = g)"
| "strictEquals ObjectPrototype ObjectPrototype = True"
| "strictEquals ArrayPrototype ArrayPrototype = True"
| "strictEquals _ _ = False"

subsection \<open>Deep equality (\<^verbatim>\<open>deepEqual\<close>, Settings panel)\<close>

fun weight :: "unknown \<Rightarrow> nat" where
  "weight (Data v) = size v"
| "weight _ = 0"

lemma size_nth: "i < length xs \<Longrightarrow> f (xs ! i) \<le> size_list f xs"
  by (induction xs arbitrary: i) (auto simp: nth_Cons split: nat.splits intro: le_SucI trans_le_add2)

lemma size_elems: "i < length (elems a) \<Longrightarrow> size (elems a ! i) < size a"
  by (cases a) (auto simp: less_Suc_eq_le size_nth)

lemma size_map_of:
  "map_of kvs k = Some v \<Longrightarrow> size v < Suc (size_list (size_prod (\<lambda>_. 0) size) kvs)"
  by (induction kvs) (auto split: if_splits)

lemma weight_element: "i < arrayLength a \<Longrightarrow> weight (element a i) < weight a"
  by (cases a) (simp_all add: size_elems)

lemma weight_getMember: "key \<in> set (objectKeys a) \<Longrightarrow> weight (getMember a key) < weight a"
proof (cases a)
  case (Data v)
  assume k: "key \<in> set (objectKeys a)"
  show ?thesis
  proof (cases v)
    case (JObj kvs)
    with Data k have "map_of kvs key \<noteq> None"
      by (simp add: map_of_eq_None_iff)
    then obtain w where "map_of kvs key = Some w" by blast
    with Data JObj show ?thesis by (auto dest: size_map_of)
  next
    case (JArr xs)
    with Data k obtain i where i: "i < length xs" "key = index_string i" by auto
    then have "List.find (\<lambda>j. index_string j = key) [0..<length xs] \<noteq> None"
      by (auto simp: find_None_iff)
    then obtain j where j: "List.find (\<lambda>j. index_string j = key) [0..<length xs] = Some j"
      by blast
    then have "j < length xs" by (auto simp: find_Some_iff)
    with Data JArr j show ?thesis
      by (auto simp: less_Suc_eq_le size_nth)
  qed (use Data k in simp_all)
qed simp_all

text \<open>
  \<^verbatim>\<open>
  function deepEqual(a, b) {
    if (a === b) return true;
    if (a === null || b === null) return false;
    if (typeof a !== typeof b) return false;
    if (typeof a !== "object") return false;
    if (Array.isArray(a) !== Array.isArray(b)) return false;
    if (Array.isArray(a) && Array.isArray(b)) {
      if (a.length !== b.length) return false;
      return a.every((val, i) => deepEqual(val, b[i]));
    }
    const keysA = Object.keys(a); const keysB = Object.keys(b);
    if (keysA.length !== keysB.length) return false;
    return keysA.every((key) => deepEqual(a[key], b[key]));
  }
  \<close>
  The keys of \<open>a\<close> are counted against the keys of \<open>b\<close>, but each is then read
  from \<open>b\<close> with \<^verbatim>\<open>b[key]\<close>, whether \<open>b\<close> owns it or inherits it.
\<close>

function deepEqual :: "unknown \<Rightarrow> unknown \<Rightarrow> bool" where
  "deepEqual a b =
    (if strictEquals a b then True
     else if a = Data JNull \<or> b = Data JNull then False
     else if typeOf a \<noteq> typeOf b then False
     else if typeOf a \<noteq> TObject then False
     else if isArrayOf a \<noteq> isArrayOf b then False
     else if isArrayOf a \<and> isArrayOf b then
       (if arrayLength a \<noteq> arrayLength b then False
        else list_all (\<lambda>i. deepEqual (element a i) (element b i)) [0..<arrayLength a])
     else
       (let keysA = objectKeys a; keysB = objectKeys b in
        if length keysA \<noteq> length keysB then False
        else list_all (\<lambda>key. deepEqual (getMember a key) (getMember b key)) keysA))"
  by pat_completeness auto
termination
  by (relation "measure (\<lambda>(a, b). weight a)") (auto simp: weight_element weight_getMember)

declare deepEqual.simps [simp del]

text \<open>
  Where the comparison is structural. A current value that is not an object or
  array equals exactly itself, so no value of a parsed document equals an
  \<^verbatim>\<open>undefined\<close> default; arrays are equal exactly when they have equal length and
  equal elements; an array never equals an object; and objects are equal exactly
  when their key sets are equal and the values under every key are equal,
  provided no property of the current object holds \<^verbatim>\<open>undefined\<close> and none is named
  \<^verbatim>\<open>__proto__\<close>.
\<close>

lemma deepEqual_builtin: "\<not> deepEqual (Data v) (BuiltinFunction f)"
  by (cases v) (simp_all add: deepEqual.simps)

lemma deepEqual_undefined_right: "deepEqual (Data v) (Data JUndefined) = (v = JUndefined)"
  by (cases v) (simp_all add: deepEqual.simps)

lemma deepEqual_primitive:
  "typeof a \<noteq> TObject \<or> a = JNull \<Longrightarrow> deepEqual (Data a) (Data b) = (a = b)"
  by (cases a; cases b) (auto simp: deepEqual.simps)

lemma deepEqual_arr:
  "deepEqual (Data (JArr xs)) (Data (JArr ys)) =
     (length xs = length ys \<and> (\<forall>i<length xs. deepEqual (Data (xs ! i)) (Data (ys ! i))))"
  by (subst deepEqual.simps) (auto simp: list_all_iff)

lemma deepEqual_arr_obj:
  "\<not> deepEqual (Data (JArr xs)) (Data (JObj b))" "\<not> deepEqual (Data (JObj a)) (Data (JArr ys))"
  by (simp_all add: deepEqual.simps)

lemma deepEqual_obj:
  "deepEqual (Data (JObj a)) (Data (JObj b)) =
     (length a = length b \<and>
      (\<forall>k\<in>set (map fst a). deepEqual (getMember (Data (JObj a)) k) (getMember (Data (JObj b)) k)))"
  by (subst deepEqual.simps) (auto simp: list_all_iff Let_def)

lemma getMember_own:
  "k \<in> set (map fst a) \<Longrightarrow> getMember (Data (JObj a)) k = Data (getProp (JObj a) k)"
  by (auto simp: map_of_eq_None_iff split: option.splits)

lemma deepEqual_not_inherited:
  assumes "k \<noteq> ''__proto__''" and "v \<noteq> JUndefined"
  shows "\<not> deepEqual (Data v) (fromObjectPrototype ObjectPrototype k)"
  using assms by (simp add: fromObjectPrototype_def deepEqual_builtin deepEqual_undefined_right)

lemma deepEqual_obj_keys:
  assumes da: "distinct (map fst a)" and db: "distinct (map fst b)"
    and nu: "JUndefined \<notin> snd ` set a" and np: "''__proto__'' \<notin> set (map fst a)"
  shows "deepEqual (Data (JObj a)) (Data (JObj b)) \<longleftrightarrow>
     set (map fst a) = set (map fst b) \<and>
     (\<forall>k\<in>set (map fst a). deepEqual (Data (getProp (JObj a) k)) (Data (getProp (JObj b) k)))"
proof
  assume eq: "deepEqual (Data (JObj a)) (Data (JObj b))"
  then have "length a = length b \<and> (\<forall>k\<in>set (map fst a).
       deepEqual (getMember (Data (JObj a)) k) (getMember (Data (JObj b)) k))"
    unfolding deepEqual_obj .
  then have len: "length a = length b"
    and all: "\<forall>k\<in>set (map fst a).
       deepEqual (getMember (Data (JObj a)) k) (getMember (Data (JObj b)) k)"
    by blast+
  have sub: "set (map fst a) \<subseteq> set (map fst b)"
  proof
    fix k assume k: "k \<in> set (map fst a)"
    then obtain v where kv: "(k, v) \<in> set a" by auto
    with da have pa: "getProp (JObj a) k = v" by simp
    from kv nu have v: "v \<noteq> JUndefined" by force
    from k np have kp: "k \<noteq> ''__proto__''" by blast
    from all k have "deepEqual (getMember (Data (JObj a)) k) (getMember (Data (JObj b)) k)"
      by blast
    then have d: "deepEqual (Data v) (getMember (Data (JObj b)) k)"
      unfolding getMember_own [OF k] pa .
    show "k \<in> set (map fst b)"
    proof (rule ccontr)
      assume "k \<notin> set (map fst b)"
      then have "map_of b k = None" by (simp add: map_of_eq_None_iff)
      then have "getMember (Data (JObj b)) k = fromObjectPrototype ObjectPrototype k"
        by simp
      with d deepEqual_not_inherited [OF kp v] show False by (simp only:)
    qed
  qed
  have "card (set (map fst a)) = card (set (map fst b))"
    using distinct_card [OF da] distinct_card [OF db] len by simp
  with sub have keq: "set (map fst a) = set (map fst b)"
    by (simp add: card_subset_eq)
  have "\<forall>k\<in>set (map fst a).
      deepEqual (Data (getProp (JObj a) k)) (Data (getProp (JObj b) k))"
  proof
    fix k assume k: "k \<in> set (map fst a)"
    with keq have k': "k \<in> set (map fst b)" by blast
    from all k have "deepEqual (getMember (Data (JObj a)) k) (getMember (Data (JObj b)) k)"
      by blast
    then show "deepEqual (Data (getProp (JObj a) k)) (Data (getProp (JObj b) k))"
      unfolding getMember_own [OF k] getMember_own [OF k'] .
  qed
  with keq show "set (map fst a) = set (map fst b) \<and>
     (\<forall>k\<in>set (map fst a). deepEqual (Data (getProp (JObj a) k)) (Data (getProp (JObj b) k)))"
    by (rule conjI)
next
  assume r: "set (map fst a) = set (map fst b) \<and>
     (\<forall>k\<in>set (map fst a). deepEqual (Data (getProp (JObj a) k)) (Data (getProp (JObj b) k)))"
  then have keq: "set (map fst a) = set (map fst b)"
    and all: "\<forall>k\<in>set (map fst a).
       deepEqual (Data (getProp (JObj a) k)) (Data (getProp (JObj b) k))"
    by blast+
  from keq have "card (set (map fst a)) = card (set (map fst b))" by simp
  with distinct_card [OF da] distinct_card [OF db] have len: "length a = length b" by simp
  have "\<forall>k\<in>set (map fst a).
      deepEqual (getMember (Data (JObj a)) k) (getMember (Data (JObj b)) k)"
  proof
    fix k assume k: "k \<in> set (map fst a)"
    with keq have k': "k \<in> set (map fst b)" by blast
    from all k have "deepEqual (Data (getProp (JObj a) k)) (Data (getProp (JObj b) k))"
      by blast
    then show "deepEqual (getMember (Data (JObj a)) k) (getMember (Data (JObj b)) k)"
      unfolding getMember_own [OF k] getMember_own [OF k'] .
  qed
  with len show "deepEqual (Data (JObj a)) (Data (JObj b))"
    unfolding deepEqual_obj by (rule conjI)
qed

text \<open>A value of the document equals a copy of itself.\<close>

lemma deepEqual_same: "deepEqual (Data v) (Data v)"
proof (induction v)
  case (JArr xs)
  then show ?case by (simp add: deepEqual_arr)
next
  case (JObj kvs)
  have "\<forall>k\<in>set (map fst kvs).
      deepEqual (getMember (Data (JObj kvs)) k) (getMember (Data (JObj kvs)) k)"
  proof
    fix k assume k: "k \<in> set (map fst kvs)"
    then obtain w where w: "map_of kvs k = Some w"
      by (cases "map_of kvs k") (auto simp: map_of_eq_None_iff)
    then have "(k, w) \<in> set kvs" by (rule map_of_SomeD)
    with JObj have "deepEqual (Data w) (Data w)" by (auto simp: snds.simps)
    with w show "deepEqual (getMember (Data (JObj kvs)) k) (getMember (Data (JObj kvs)) k)"
      by simp
  qed
  then show ?case unfolding deepEqual_obj by simp
qed (simp_all add: deepEqual.simps)

text \<open>
  Claim C5: the default-diff comparison is deep structural equality: for all
  pairs of values, arrays compare equal only element-wise with equal length,
  objects only with equal key sets and recursively equal values, and an
  undefined default value never compares equal to any current value.

  Evaluated on the current value \<^verbatim>\<open>{"__proto__": {}}\<close> and the default
  \<^verbatim>\<open>{y: 1}\<close>: both have one key; \<^verbatim>\<open>b["__proto__"]\<close> is not an own property of the
  default, the read yields \<^verbatim>\<open>Object.prototype\<close>, an object without enumerable
  keys, and that compares equal to the empty object. The two objects compare
  equal although their key sets differ.
\<close>

theorem C5_inherited_key_compares_equal:
  "deepEqual (Data (JObj [(''__proto__'', JObj [])])) (Data (JObj [(''y'', JNum 1)])) \<and>
   set (keys (JObj [(''__proto__'', JObj [])])) \<noteq> set (keys (JObj [(''y'', JNum 1)]))"
  by code_simp

section \<open>Reading and writing at a key path\<close>

text \<open>
  What a JavaScript exception is in the model. \<open>TypeError\<close> is the engine's
  exception for a property access on \<^verbatim>\<open>null\<close> or a call of something that is not
  a function. \<open>Unsupported\<close> marks the places where the embedding does not
  follow the source: a write of a named property into an array object, a write
  that reaches \<^verbatim>\<open>Object.prototype\<close> or goes to the setter of \<^verbatim>\<open>__proto__\<close>, and
  a write of a built-in object into the document.
\<close>

datatype error = TypeError | Unsupported

text \<open>
  \<^verbatim>\<open>
  function setNestedValue(obj, keyPath, value) {
    let current = obj;
    for (let i = 0; i < keyPath.length - 1; i++) {
      if (!(keyPath[i] in current) || typeof current[keyPath[i]] !== "object") {
        current[keyPath[i]] = {};
      }
      current = current[keyPath[i]];
    }
    current[keyPath[keyPath.length - 1]] = value;
  }
  \<close>
  The source mutates \<open>obj\<close> in place; the model returns the new object.
  \<open>hasProperty\<close> is \<^verbatim>\<open>k in current\<close> on an object of the document, which also
  holds for the names it inherits. The assignment \<^verbatim>\<open>current[k] = v\<close> replaces the
  value of an own key where it stands and appends a new key at the end
  (\<open>AList.update\<close>), also when \<open>k\<close> names an inherited function; for
  \<^verbatim>\<open>__proto__\<close>, unless the object owns such a key, it goes to the inherited
  setter. With an empty path the loop does not run and the key of the final
  assignment is \<^verbatim>\<open>keyPath[-1]\<close>, that is \<^verbatim>\<open>undefined\<close>, which names the property
  \<^verbatim>\<open>"undefined"\<close>. When the value found at an inner segment is \<^verbatim>\<open>null\<close>, its
  \<^verbatim>\<open>typeof\<close> is \<^verbatim>\<open>"object"\<close>, it is kept, and the next access to it throws.
\<close>

definition hasProperty :: "(string \<times> jv) list \<Rightarrow> string \<Rightarrow> bool" where
  "hasProperty obj k \<longleftrightarrow> k \<in> set (map fst obj) \<or> k \<in> set object_prototype_keys"

fun setNestedValue ::
  "(string \<times> jv) list \<Rightarrow> string list \<Rightarrow> jv \<Rightarrow> error + (string \<times> jv) list" where
  "setNestedValue current [] v = Inr (AList.update ''undefined'' v current)"
| "setNestedValue current [k] v =
    (if k = ''__proto__'' \<and> k \<notin> set (map fst current) then Inl Unsupported
     else Inr (AList.update k v current))"
| "setNestedValue current (k # k' # ks) v =
    (let found = getMember (Data (JObj current)) k;
         child = (if \<not> hasProperty current k \<or> typeOf found \<noteq> TObject
                  then Data (JObj []) else found)
     in case child of
          Data (JObj kvs) \<Rightarrow>
            (case setNestedValue kvs (k' # ks) v of
               Inl e \<Rightarrow> Inl e
             | Inr kvs' \<Rightarrow> Inr (AList.update k (JObj kvs') current))
        | Data (JArr xs) \<Rightarrow> Inl Unsupported
        | Data _ \<Rightarrow> Inl TypeError
        | _ \<Rightarrow> Inl Unsupported)"

text \<open>
  \<^verbatim>\<open>
  function getDefaultSettingValue(defaultConfig, keyPath) {
    if (!defaultConfig) return undefined;
    let current = defaultConfig;
    for (const key of keyPath) {
      if (current === null || current === undefined || typeof current !== "object")
        return undefined;
      current = current[key];
    }
    return current;
  }
  \<close>
  \<open>walk\<close> is the loop. The read \<^verbatim>\<open>current[key]\<close> follows the prototype chain.
\<close>

fun walk :: "unknown \<Rightarrow> string list \<Rightarrow> unknown" where
  "walk current [] = current"
| "walk current (key # ks) =
    (if current = Data JNull \<or> current = Data JUndefined \<or> typeOf current \<noteq> TObject
     then Data JUndefined
     else walk (getMember current key) ks)"

definition getDefaultSettingValue ::
  "(string \<times> jv) list option \<Rightarrow> string list \<Rightarrow> unknown" where
  "getDefaultSettingValue defaultConfig keyPath =
     (case defaultConfig of None \<Rightarrow> Data JUndefined | Some d \<Rightarrow> walk (Data (JObj d)) keyPath)"

lemma getProp_update: "getProp (JObj (AList.update k v kvs)) k = v"
  by (simp add: update_conv')

lemma getMember_update: "getMember (Data (JObj (AList.update k v kvs))) k = Data v"
  by (simp add: update_conv')

text \<open>
  Whenever the write returns, reading the same non-empty path in the written
  document gives back the value written.
\<close>

lemma setNestedValue_roundtrip:
  "setNestedValue doc P V = Inr doc' \<Longrightarrow> P \<noteq> [] \<Longrightarrow>
   getDefaultSettingValue (Some doc') P = Data V"
proof (induction doc P V arbitrary: doc' rule: setNestedValue.induct)
  case (1 current v)
  then show ?case by simp
next
  case (2 current k v)
  then show ?case by (auto simp: update_conv' getDefaultSettingValue_def split: if_splits)
next
  case (3 current k k' ks v)
  then show ?case
    by (auto simp: Let_def update_conv' getDefaultSettingValue_def
             split: if_splits jv.splits sum.splits unknown.splits)
qed

text \<open>
  A segment that is missing, or holds a boolean, number, string or \<^verbatim>\<open>undefined\<close>,
  or names an inherited function, is replaced by a fresh object that receives
  the rest of the path.
\<close>

lemma setNestedValue_creates:
  "\<not> hasProperty doc k \<or> typeOf (getMember (Data (JObj doc)) k) \<noteq> TObject \<Longrightarrow>
   k' \<noteq> ''__proto__'' \<Longrightarrow>
   setNestedValue doc [k, k'] V = Inr (AList.update k (JObj [(k', V)]) doc)"
  by (auto simp: Let_def)

text \<open>
  Claim C2: setting \<open>V\<close> at \<open>P\<close> and then reading \<open>P\<close> yields \<open>V\<close>, and when
  the existing value at an intermediate segment is not itself an object the set
  operation creates an object there instead of failing.

  Evaluated on the document \<^verbatim>\<open>{a: null}\<close> with the path \<^verbatim>\<open>["a", "b"]\<close>: the
  test \<^verbatim>\<open>typeof current["a"] !== "object"\<close> is false for \<^verbatim>\<open>null\<close>, no object is
  created, and the final assignment \<^verbatim>\<open>null["b"] = value\<close> throws. The readers
  \<open>getDefaultSettingValue\<close> and \<open>flattenConfig\<close> in the same file test for
  \<^verbatim>\<open>null\<close> before they test \<^verbatim>\<open>typeof\<close>.
\<close>

theorem C2_null_segment_throws:
  "setNestedValue [(''a'', JNull)] [''a'', ''b''] (JBool True) = Inl TypeError"
  by (simp add: hasProperty_def)

section \<open>Color values (Settings panel)\<close>

text \<open>
  \<^verbatim>\<open>String.prototype.trim\<close> removes white space and line terminators from both
  ends; below code unit 256 these are tab, line feed, vertical tab, form feed,
  carriage return, space and no-break space.
\<close>

definition isWhiteSpace :: "char \<Rightarrow> bool" where
  "isWhiteSpace c \<longleftrightarrow> c \<in> set [CHR 0x09, CHR 0x0A, CHR 0x0B, CHR 0x0C, CHR 0x0D, CHR 0x20, CHR 0xA0]"

definition trim :: "string \<Rightarrow> string" where
  "trim s = rev (dropWhile isWhiteSpace (rev (dropWhile isWhiteSpace s)))"

text \<open>
  Case folding of the \<^verbatim>\<open>i\<close> flag: below code unit 256 a pattern letter matches
  exactly its upper-case and its lower-case form.
\<close>

definition toLower :: "char \<Rightarrow> char" where
  "toLower c =
     (case map_of (zip ''ABCDEFGHIJKLMNOPQRSTUVWXYZ'' ''abcdefghijklmnopqrstuvwxyz'') c of
        Some d \<Rightarrow> d | None \<Rightarrow> c)"

text \<open>
  The regular expressions of the source, as syntax trees. \<open>Chr\<close> is a literal
  character, \<open>ChrI\<close> a literal under the \<^verbatim>\<open>i\<close> flag, \<open>Cls\<close> a character class
  \<^verbatim>\<open>[...]\<close>, \<open>NotCls\<close> a negated one, \<open>Plus\<close> is \<^verbatim>\<open>+\<close>. \<open>rests r s\<close> lists what
  can remain of \<open>s\<close> after \<open>r\<close> has matched a prefix of it, over all the choices
  of a backtracking matcher; an iteration of \<^verbatim>\<open>+\<close> that consumes nothing is
  dropped, as in the language standard. Both patterns of the source are anchored
  (\<^verbatim>\<open>^...$\<close>), so \<^verbatim>\<open>pattern.test(s)\<close> holds when nothing can remain.
\<close>

datatype rx =
    Eps
  | Chr char
  | ChrI char
  | Cls "char list"
  | NotCls "char list"
  | Seq rx rx
  | Alt rx rx
  | Plus rx

function rests :: "rx \<Rightarrow> string \<Rightarrow> string list" where
  "rests Eps s = [s]"
| "rests (Chr c) s = (case s of [] \<Rightarrow> [] | x # xs \<Rightarrow> if x = c then [xs] else [])"
| "rests (ChrI c) s = (case s of [] \<Rightarrow> [] | x # xs \<Rightarrow> if toLower x = toLower c then [xs] else [])"
| "rests (Cls cs) s = (case s of [] \<Rightarrow> [] | x # xs \<Rightarrow> if x \<in> set cs then [xs] else [])"
| "rests (NotCls cs) s = (case s of [] \<Rightarrow> [] | x # xs \<Rightarrow> if x \<notin> set cs then [xs] else [])"
| "rests (Seq a b) s = concat (map (rests b) (rests a s))"
| "rests (Alt a b) s = rests a s @ rests b s"
| "rests (Plus a) s =
     (let once = filter (\<lambda>t. length t < length s) (rests a s)
      in once @ concat (map (rests (Plus a)) once))"
  by pat_completeness auto
termination
  by (relation "measure size <*lex*> measure length") auto

definition test :: "rx \<Rightarrow> string \<Rightarrow> bool" where
  "test r s \<longleftrightarrow> [] \<in> set (rests r s)"

text \<open>\<^verbatim>\<open>r{n}\<close>, a literal word under the \<^verbatim>\<open>i\<close> flag, and \<^verbatim>\<open>r?\<close>.\<close>

fun rep :: "nat \<Rightarrow> rx \<Rightarrow> rx" where
  "rep 0 r = Eps"
| "rep (Suc n) r = Seq r (rep n r)"

definition word :: "string \<Rightarrow> rx" where
  "word w = foldr (\<lambda>c r. Seq (ChrI c) r) w Eps"

definition Opt :: "rx \<Rightarrow> rx" where
  "Opt r = Alt r Eps"

text \<open>
  \<^verbatim>\<open>
  const HEX_COLOR_REGEX = /^#([0-9a-fA-F]{3}|[0-9a-fA-F]{6}|[0-9a-fA-F]{8})$/;
  const CSS_COLOR_FUNCTION_REGEX = /^(rgba?|hsla?|hwb|lab|lch|color)\(.+\)$/i;

  function isValidColorValue(value) {
    const trimmed = value.trim();
    if (!trimmed) return false;
    if (HEX_COLOR_REGEX.test(trimmed)) return true;
    return CSS_COLOR_FUNCTION_REGEX.test(trimmed);
  }
  \<close>
  The dot matches every character but a line terminator (line feed and carriage
  return, below code unit 256).
\<close>

definition hexDigit :: rx where
  "hexDigit = Cls ''0123456789abcdefABCDEF''"

definition HEX_COLOR_REGEX :: rx where
  "HEX_COLOR_REGEX =
     Seq (Chr CHR ''#'') (Alt (rep 3 hexDigit) (Alt (rep 6 hexDigit) (rep 8 hexDigit)))"

definition anyChar :: rx where
  "anyChar = NotCls [CHR 0x0A, CHR 0x0D]"

definition CSS_COLOR_FUNCTION_REGEX :: rx where
  "CSS_COLOR_FUNCTION_REGEX =
     Seq (Alt (Seq (word ''rgb'') (Opt (ChrI CHR ''a'')))
         (Alt (Seq (word ''hsl'') (Opt (ChrI CHR ''a'')))
         (Alt (word ''hwb'')
         (Alt (word ''lab'')
         (Alt (word ''lch'')
              (word ''color''))))))
         (Seq (ChrI CHR ''('') (Seq (Plus anyChar) (ChrI CHR '')'')))"

definition isValidColorValue :: "string \<Rightarrow> bool" where
  "isValidColorValue v =
     (let trimmed = trim v in
      if trimmed = [] then False
      else if test HEX_COLOR_REGEX trimmed then True
      else test CSS_COLOR_FUNCTION_REGEX trimmed)"

lemma rests_Plus_NotCls_Nil: "rests (Plus (NotCls cs)) [] = []"
  by simp

lemma rests_Plus_NotCls_Cons:
  "rests (Plus (NotCls cs)) (x # xs) = (if x \<notin> set cs then xs # rests (Plus (NotCls cs)) xs else [])"
  by simp

declare rests.simps(8) [simp del]

lemma set_rests_Seq: "set (rests (Seq a b) s) = (\<Union>t\<in>set (rests a s). set (rests b t))"
  by simp

lemma set_rests_rep_Cls:
  "set (rests (rep n (Cls cs)) s) =
     (if n \<le> length s \<and> set (take n s) \<subseteq> set cs then {drop n s} else {})"
proof (induction n arbitrary: s)
  case 0
  then show ?case by simp
next
  case (Suc n)
  then show ?case by (cases s) auto
qed

lemma set_rests_word:
  "set (rests (word w) s) =
     (if length w \<le> length s \<and> map toLower (take (length w) s) = map toLower w
      then {drop (length w) s} else {})"
proof (induction w arbitrary: s)
  case Nil
  then show ?case by (simp add: word_def)
next
  case (Cons c w)
  have "word (c # w) = Seq (ChrI c) (word w)" by (simp add: word_def)
  with Cons show ?case by (cases s) auto
qed

lemma plus_then_last:
  "[c] \<in> set (rests (Plus (NotCls cs)) s) \<longleftrightarrow>
     (\<exists>arg. arg \<noteq> [] \<and> set arg \<inter> set cs = {} \<and> s = arg @ [c])"
proof (induction s)
  case Nil
  then show ?case by (simp add: rests_Plus_NotCls_Nil)
next
  case (Cons x xs)
  show ?case
  proof
    assume "[c] \<in> set (rests (Plus (NotCls cs)) (x # xs))"
    then have x: "x \<notin> set cs" and d: "xs = [c] \<or> [c] \<in> set (rests (Plus (NotCls cs)) xs)"
      by (auto simp: rests_Plus_NotCls_Cons split: if_splits)
    from d show "\<exists>arg. arg \<noteq> [] \<and> set arg \<inter> set cs = {} \<and> x # xs = arg @ [c]"
    proof
      assume "xs = [c]"
      with x have "[x] \<noteq> [] \<and> set [x] \<inter> set cs = {} \<and> x # xs = [x] @ [c]" by simp
      then show ?thesis by blast
    next
      assume "[c] \<in> set (rests (Plus (NotCls cs)) xs)"
      with Cons obtain arg where "arg \<noteq> []" "set arg \<inter> set cs = {}" "xs = arg @ [c]" by blast
      with x have "x # arg \<noteq> [] \<and> set (x # arg) \<inter> set cs = {} \<and> x # xs = (x # arg) @ [c]"
        by simp
      then show ?thesis by blast
    qed
  next
    assume "\<exists>arg. arg \<noteq> [] \<and> set arg \<inter> set cs = {} \<and> x # xs = arg @ [c]"
    then obtain arg where a: "arg \<noteq> []" "set arg \<inter> set cs = {}" "x # xs = arg @ [c]" by blast
    then obtain arg' where arg: "arg = x # arg'" by (cases arg) auto
    with a have x: "x \<notin> set cs" and xs: "xs = arg' @ [c]" and d: "set arg' \<inter> set cs = {}"
      by auto
    show "[c] \<in> set (rests (Plus (NotCls cs)) (x # xs))"
    proof (cases "arg' = []")
      case True
      with x xs show ?thesis by (simp add: rests_Plus_NotCls_Cons)
    next
      case False
      with d xs Cons have "[c] \<in> set (rests (Plus (NotCls cs)) xs)" by blast
      with x show ?thesis by (simp add: rests_Plus_NotCls_Cons)
    qed
  qed
qed

lemma toLower_cases:
  "toLower x = x \<or>
   (x \<in> set ''ABCDEFGHIJKLMNOPQRSTUVWXYZ'' \<and> toLower x \<in> set ''abcdefghijklmnopqrstuvwxyz'')"
proof (cases "map_of (zip ''ABCDEFGHIJKLMNOPQRSTUVWXYZ'' ''abcdefghijklmnopqrstuvwxyz'') x")
  case None
  then show ?thesis by (simp only: toLower_def option.case simp_thms)
next
  case (Some d)
  then have "(x, d) \<in> set (zip ''ABCDEFGHIJKLMNOPQRSTUVWXYZ'' ''abcdefghijklmnopqrstuvwxyz'')"
    by (rule map_of_SomeD)
  then have "x \<in> set ''ABCDEFGHIJKLMNOPQRSTUVWXYZ''" "d \<in> set ''abcdefghijklmnopqrstuvwxyz''"
    by (rule set_zip_leftD, rule set_zip_rightD)
  moreover have "toLower x = d" using Some by (simp only: toLower_def option.case)
  ultimately show ?thesis by blast
qed

lemma toLower_paren_self:
  "toLower CHR ''('' = CHR ''(''" "toLower CHR '')'' = CHR '')''"
  by (simp_all add: toLower_def)

lemma toLower_paren:
  "toLower x = toLower CHR ''('' \<longleftrightarrow> x = CHR ''(''"
  "toLower x = toLower CHR '')'' \<longleftrightarrow> x = CHR '')''"
proof -
  have n: "CHR ''('' \<notin> set ''abcdefghijklmnopqrstuvwxyz''"
          "CHR '')'' \<notin> set ''abcdefghijklmnopqrstuvwxyz''" by simp_all
  show "toLower x = toLower CHR ''('' \<longleftrightarrow> x = CHR ''(''"
    unfolding toLower_paren_self using toLower_cases [of x] n(1) toLower_paren_self(1) by metis
  show "toLower x = toLower CHR '')'' \<longleftrightarrow> x = CHR '')''"
    unfolding toLower_paren_self using toLower_cases [of x] n(2) toLower_paren_self(2) by metis
qed

lemma end_ChrI_close: "[] \<in> set (rests (ChrI CHR '')'') t) \<longleftrightarrow> t = '')''"
  by (cases t) (auto simp: toLower_paren)

lemma start_ChrI_open: "set (rests (ChrI CHR ''('') u) = (case u of [] \<Rightarrow> {} | x # v \<Rightarrow> if x = CHR ''('' then {v} else {})"
  by (cases u) (simp_all add: toLower_paren)

lemma call_tail:
  "[] \<in> set (rests (Seq (ChrI CHR ''('') (Seq (Plus anyChar) (ChrI CHR '')''))) u) \<longleftrightarrow>
     (\<exists>arg. arg \<noteq> [] \<and> (\<forall>c\<in>set arg. c \<noteq> CHR 0x0A \<and> c \<noteq> CHR 0x0D) \<and>
            u = ''('' @ arg @ '')'')"
proof -
  have inner: "\<And>v. [] \<in> set (rests (Seq (Plus anyChar) (ChrI CHR '')'')) v) \<longleftrightarrow>
       (\<exists>arg. arg \<noteq> [] \<and> (\<forall>c\<in>set arg. c \<noteq> CHR 0x0A \<and> c \<noteq> CHR 0x0D) \<and> v = arg @ '')'')"
  proof -
    fix v
    have "[] \<in> set (rests (Seq (Plus anyChar) (ChrI CHR '')'')) v) \<longleftrightarrow> '')'' \<in> set (rests (Plus anyChar) v)"
      unfolding set_rests_Seq by (simp only: UN_iff end_ChrI_close) blast
    also have "\<dots> \<longleftrightarrow> (\<exists>arg. arg \<noteq> [] \<and> set arg \<inter> set [CHR 0x0A, CHR 0x0D] = {} \<and> v = arg @ '')'')"
      unfolding anyChar_def by (rule plus_then_last)
    also have "\<dots> \<longleftrightarrow> (\<exists>arg. arg \<noteq> [] \<and> (\<forall>c\<in>set arg. c \<noteq> CHR 0x0A \<and> c \<noteq> CHR 0x0D) \<and> v = arg @ '')'')"
      by auto
    finally show "[] \<in> set (rests (Seq (Plus anyChar) (ChrI CHR '')'')) v) \<longleftrightarrow>
       (\<exists>arg. arg \<noteq> [] \<and> (\<forall>c\<in>set arg. c \<noteq> CHR 0x0A \<and> c \<noteq> CHR 0x0D) \<and> v = arg @ '')'')" .
  qed
  show ?thesis
  proof (cases u)
    case Nil
    then show ?thesis unfolding set_rests_Seq start_ChrI_open by simp
  next
    case (Cons x v)
    then show ?thesis unfolding set_rests_Seq [of "ChrI CHR ''(''"] start_ChrI_open
      by (simp add: inner del: rests.simps)
  qed
qed

lemma mem_rests_word:
  "u \<in> set (rests (word w) t) \<longleftrightarrow> (\<exists>name. map toLower name = map toLower w \<and> t = name @ u)"
proof
  assume "u \<in> set (rests (word w) t)"
  then have "length w \<le> length t" "map toLower (take (length w) t) = map toLower w"
    "u = drop (length w) t"
    by (simp_all add: set_rests_word split: if_splits)
  then have "map toLower (take (length w) t) = map toLower w \<and> t = take (length w) t @ u"
    by simp
  then show "\<exists>name. map toLower name = map toLower w \<and> t = name @ u" by blast
next
  assume "\<exists>name. map toLower name = map toLower w \<and> t = name @ u"
  then obtain name where n: "map toLower name = map toLower w" "t = name @ u" by blast
  from n(1) have "length name = length w" by (rule map_eq_imp_length_eq)
  with n show "u \<in> set (rests (word w) t)" by (simp add: set_rests_word)
qed

lemma mem_rests_word_opt:
  "u \<in> set (rests (Seq (word w) (Opt (ChrI c))) t) \<longleftrightarrow>
     (\<exists>name. (map toLower name = map toLower w \<or> map toLower name = map toLower (w @ [c])) \<and>
             t = name @ u)"
proof
  assume "u \<in> set (rests (Seq (word w) (Opt (ChrI c))) t)"
  then obtain v where v: "v \<in> set (rests (word w) t)" and u: "u \<in> set (rests (Opt (ChrI c)) v)"
    unfolding set_rests_Seq by blast
  from v obtain name where n: "map toLower name = map toLower w" "t = name @ v"
    unfolding mem_rests_word by blast
  from u have "u = v \<or> (\<exists>x. v = x # u \<and> toLower x = toLower c)"
    by (cases v) (auto simp: Opt_def split: if_splits)
  then show "\<exists>name. (map toLower name = map toLower w \<or> map toLower name = map toLower (w @ [c])) \<and>
             t = name @ u"
  proof
    assume "u = v"
    with n show ?thesis by blast
  next
    assume "\<exists>x. v = x # u \<and> toLower x = toLower c"
    then obtain x where x: "v = x # u" "toLower x = toLower c" by blast
    with n have "map toLower (name @ [x]) = map toLower (w @ [c]) \<and> t = (name @ [x]) @ u"
      by simp
    then show ?thesis by blast
  qed
next
  assume "\<exists>name. (map toLower name = map toLower w \<or> map toLower name = map toLower (w @ [c])) \<and>
             t = name @ u"
  then obtain name where t: "t = name @ u"
    and d: "map toLower name = map toLower w \<or> map toLower name = map toLower (w @ [c])"
    by blast
  from d show "u \<in> set (rests (Seq (word w) (Opt (ChrI c))) t)"
  proof
    assume "map toLower name = map toLower w"
    with t have "u \<in> set (rests (word w) t)" unfolding mem_rests_word by blast
    moreover have "u \<in> set (rests (Opt (ChrI c)) u)" by (simp add: Opt_def)
    ultimately show ?thesis unfolding set_rests_Seq by blast
  next
    assume e: "map toLower name = map toLower (w @ [c])"
    from map_eq_imp_length_eq [OF e] have "length name = Suc (length w)" by simp
    then obtain name' x where nm: "name = name' @ [x]"
      by (cases name rule: rev_cases) auto
    with e have e': "map toLower name' = map toLower w" "toLower x = toLower c" by simp_all
    from nm t have "t = name' @ (x # u)" by simp
    with e'(1) have "x # u \<in> set (rests (word w) t)" unfolding mem_rests_word by blast
    moreover from e'(2) have "u \<in> set (rests (Opt (ChrI c)) (x # u))" by (simp add: Opt_def)
    ultimately show ?thesis unfolding set_rests_Seq by blast
  qed
qed

lemma lower_names:
  "map toLower ''rgb'' = ''rgb''" "map toLower ''rgba'' = ''rgba''"
  "map toLower ''hsl'' = ''hsl''" "map toLower ''hsla'' = ''hsla''"
  "map toLower ''hwb'' = ''hwb''" "map toLower ''lab'' = ''lab''"
  "map toLower ''lch'' = ''lch''" "map toLower ''color'' = ''color''"
  by (simp_all add: toLower_def)

lemma test_HEX:
  "test HEX_COLOR_REGEX t \<longleftrightarrow>
     (\<exists>ds. t = CHR ''#'' # ds \<and> length ds \<in> {3, 6, 8} \<and>
           set ds \<subseteq> set ''0123456789abcdefABCDEF'')"
proof (cases t)
  case Nil
  then show ?thesis by (simp add: test_def HEX_COLOR_REGEX_def)
next
  case (Cons x ds)
  have r: "\<And>n. [] \<in> set (rests (rep n hexDigit) ds) \<longleftrightarrow>
      length ds = n \<and> set ds \<subseteq> set ''0123456789abcdefABCDEF''"
    unfolding hexDigit_def set_rests_rep_Cls by auto
  have "test HEX_COLOR_REGEX t \<longleftrightarrow>
     x = CHR ''#'' \<and> ([] \<in> set (rests (rep 3 hexDigit) ds) \<or> [] \<in> set (rests (rep 6 hexDigit) ds) \<or>
        [] \<in> set (rests (rep 8 hexDigit) ds))"
    unfolding test_def HEX_COLOR_REGEX_def set_rests_Seq using Cons by simp
  then show ?thesis unfolding r using Cons by auto
qed

lemma ex_names:
  "((\<exists>n. (A n \<or> B n) \<and> Q n) \<or> (\<exists>n. (C n \<or> D n) \<and> Q n) \<or> (\<exists>n. E n \<and> Q n) \<or>
    (\<exists>n. F n \<and> Q n) \<or> (\<exists>n. G n \<and> Q n) \<or> (\<exists>n. H n \<and> Q n)) =
   (\<exists>n. (A n \<or> B n \<or> C n \<or> D n \<or> E n \<or> F n \<or> G n \<or> H n) \<and> Q n)"
  by blast

lemma ex_split:
  "(\<exists>u. (\<exists>name. P name \<and> t = name @ u) \<and> (\<exists>arg. R arg \<and> u = p @ arg @ q)) =
   (\<exists>name arg. P name \<and> R arg \<and> t = name @ p @ arg @ q)"
  by blast

lemma mem_names:
  "u \<in> set (rests (Alt (Seq (word ''rgb'') (Opt (ChrI CHR ''a'')))
         (Alt (Seq (word ''hsl'') (Opt (ChrI CHR ''a'')))
         (Alt (word ''hwb'')
         (Alt (word ''lab'')
         (Alt (word ''lch'')
              (word ''color'')))))) t) \<longleftrightarrow>
      (\<exists>name. map toLower name \<in> set [''rgb'', ''rgba'', ''hsl'', ''hsla'', ''hwb'', ''lab'', ''lch'', ''color''] \<and>
              t = name @ u)"
  unfolding rests.simps(7) set_append Un_iff mem_rests_word_opt mem_rests_word append.simps lower_names
  by (simp only: list.set insert_iff empty_iff simp_thms) (rule ex_names)

lemma test_CSS:
  "test CSS_COLOR_FUNCTION_REGEX t \<longleftrightarrow>
     (\<exists>name arg.
        map toLower name \<in> set [''rgb'', ''rgba'', ''hsl'', ''hsla'', ''hwb'', ''lab'', ''lch'', ''color''] \<and>
        (arg \<noteq> [] \<and> (\<forall>c\<in>set arg. c \<noteq> CHR 0x0A \<and> c \<noteq> CHR 0x0D)) \<and>
        t = name @ ''('' @ arg @ '')'')"
  unfolding test_def CSS_COLOR_FUNCTION_REGEX_def set_rests_Seq [of "Alt a b" "Seq (ChrI c) d" for a b c d]
    UN_iff Bex_def mem_names call_tail
  by (simp only: conj_assoc [symmetric] ex_split)

lemma isValidColorValue_tests:
  "isValidColorValue v \<longleftrightarrow>
     test HEX_COLOR_REGEX (trim v) \<or> test CSS_COLOR_FUNCTION_REGEX (trim v)"
proof (cases "trim v = []")
  case True
  then show ?thesis by (simp add: isValidColorValue_def test_HEX test_CSS)
next
  case False
  then show ?thesis by (auto simp: isValidColorValue_def Let_def)
qed

text \<open>
  Claim C6, as stated: a committed color value is accepted if and only if it is a
  3-, 6- or 8-digit hex color or any CSS color function call syntax, matched by
  function-name prefix plus a parenthesized argument.

  The pattern names eight functions. A call of another CSS color function, here
  \<^verbatim>\<open>oklch(0.7 0.1 200)\<close>, has the shape of a function name followed by a
  parenthesized argument and is rejected; so is \<^verbatim>\<open>color-mix(in srgb, red, blue)\<close>.
\<close>

theorem C6_other_function_counterexample:
  "\<not> isValidColorValue ''oklch(0.7 0.1 200)'' \<and>
   \<not> isValidColorValue ''color-mix(in srgb, red, blue)'' \<and>
   ''oklch(0.7 0.1 200)'' = ''oklch'' @ ''('' @ ''0.7 0.1 200'' @ '')''"
  by code_simp

text \<open>
  Claim C6, amended: a committed color value is accepted if and only if, once
  trimmed, it is \<^verbatim>\<open>#\<close> followed by exactly 3, 6 or 8 hexadecimal digits, or it is
  one of the eight function names \<^verbatim>\<open>rgb\<close>, \<^verbatim>\<open>rgba\<close>, \<^verbatim>\<open>hsl\<close>, \<^verbatim>\<open>hsla\<close>, \<^verbatim>\<open>hwb\<close>,
  \<^verbatim>\<open>lab\<close>, \<^verbatim>\<open>lch\<close>, \<^verbatim>\<open>color\<close> in any letter case, immediately followed by
  \<^verbatim>\<open>(\<close>, a non-empty argument without line breaks, and a final \<^verbatim>\<open>)\<close>; the
  argument is not validated further.
\<close>

theorem C6_color_accepted_iff:
  "isValidColorValue v \<longleftrightarrow>
     (\<exists>ds. trim v = CHR ''#'' # ds \<and> length ds \<in> {3, 6, 8} \<and>
           set ds \<subseteq> set ''0123456789abcdefABCDEF'') \<or>
     (\<exists>name arg.
        map toLower name \<in> set [''rgb'', ''rgba'', ''hsl'', ''hsla'', ''hwb'', ''lab'', ''lch'', ''color''] \<and>
        (arg \<noteq> [] \<and> (\<forall>c\<in>set arg. c \<noteq> CHR 0x0A \<and> c \<noteq> CHR 0x0D)) \<and>
        trim v = name @ ''('' @ arg @ '')'')"
  unfolding isValidColorValue_tests test_HEX test_CSS ..

theorem C6_color_accepted_iff_witness:
  "isValidColorValue '' RGBA(1, 2, 3, 0.5) '' \<and> \<not> isValidColorValue ''rgb()''"
proof -
  have t: "trim '' RGBA(1, 2, 3, 0.5) '' = ''RGBA(1, 2, 3, 0.5)''"
    by (simp add: trim_def isWhiteSpace_def)
  have "map toLower ''RGBA'' \<in> set [''rgb'', ''rgba'', ''hsl'', ''hsla'', ''hwb'', ''lab'', ''lch'', ''color''] \<and>
        (''1, 2, 3, 0.5'' \<noteq> [] \<and> (\<forall>c\<in>set ''1, 2, 3, 0.5''. c \<noteq> CHR 0x0A \<and> c \<noteq> CHR 0x0D)) \<and>
        trim '' RGBA(1, 2, 3, 0.5) '' = ''RGBA'' @ ''('' @ ''1, 2, 3, 0.5'' @ '')''"
    unfolding t by (simp add: toLower_def)
  then have a: "isValidColorValue '' RGBA(1, 2, 3, 0.5) ''"
    unfolding C6_color_accepted_iff [of "'' RGBA(1, 2, 3, 0.5) ''"] by (intro disjI2 exI)
  have b: "\<not> isValidColorValue ''rgb()''" by code_simp
  from a b show ?thesis ..
qed

section \<open>The configuration files (\<^verbatim>\<open>lib/config.ts\<close>)\<close>

text \<open>
  The four files \<^verbatim>\<open>lib/config.ts\<close> reads and writes, by their path constants.
  A file is absent, or present but not parseable to a mapping (the parser throws
  or yields \<^verbatim>\<open>null\<close>), or present with the mapping it parses to. The YAML and
  JSON text itself is outside the model: a file written with a mapping reads back
  as that mapping. Files that parse to a scalar or a sequence are not represented.
\<close>

datatype file_state = Absent | Unreadable | Content "(string \<times> jv) list"

datatype path =
    CONFIG_YAML_PATH
  | DEFAULT_CONFIG_YAML_PATH
  | LEGACY_PLUGINS_JSON_PATH
  | LEGACY_DEFAULT_PLUGINS_JSON_PATH

type_synonym fs = "path \<Rightarrow> file_state"

definition existsSync :: "fs \<Rightarrow> path \<Rightarrow> bool" where
  "existsSync disk p \<longleftrightarrow> disk p \<noteq> Absent"

definition resolveConfigPath :: "fs \<Rightarrow> path" where
  "resolveConfigPath disk =
     (if existsSync disk CONFIG_YAML_PATH then CONFIG_YAML_PATH
      else if existsSync disk LEGACY_PLUGINS_JSON_PATH then LEGACY_PLUGINS_JSON_PATH
      else CONFIG_YAML_PATH)"

definition resolveDefaultConfigPath :: "fs \<Rightarrow> path" where
  "resolveDefaultConfigPath disk =
     (if existsSync disk DEFAULT_CONFIG_YAML_PATH then DEFAULT_CONFIG_YAML_PATH
      else if existsSync disk LEGACY_DEFAULT_PLUGINS_JSON_PATH then LEGACY_DEFAULT_PLUGINS_JSON_PATH
      else DEFAULT_CONFIG_YAML_PATH)"

text \<open>
  \<^verbatim>\<open>
  function readFileAsData(filePath) {
    if (!fs.existsSync(filePath)) return null;
    try { ... return YAML.parse(raw) / JSON.parse(raw) } catch { return null; }
  }
  \<close>
\<close>

definition readFileAsData :: "fs \<Rightarrow> path \<Rightarrow> (string \<times> jv) list option" where
  "readFileAsData disk filePath =
     (if \<not> existsSync disk filePath then None
      else case disk filePath of Content d \<Rightarrow> Some d | _ \<Rightarrow> None)"

definition writeDataToFile :: "fs \<Rightarrow> path \<Rightarrow> (string \<times> jv) list \<Rightarrow> fs" where
  "writeDataToFile disk filePath d = disk(filePath := Content d)"

definition readPluginsJson :: "fs \<Rightarrow> (string \<times> jv) list option" where
  "readPluginsJson disk = readFileAsData disk (resolveConfigPath disk)"

text \<open>
  \<^verbatim>\<open>
  export function writePluginsJson(data) {
    const { $schema, ...rest } = data;
    writeDataToFile(CONFIG_YAML_PATH, rest);
  }
  \<close>
  The rest pattern copies every own property but \<^verbatim>\<open>$schema\<close>, in order.
\<close>

definition writePluginsJson :: "fs \<Rightarrow> (string \<times> jv) list \<Rightarrow> fs" where
  "writePluginsJson disk d =
     (let rest = AList.delete ''$schema'' d in writeDataToFile disk CONFIG_YAML_PATH rest)"

definition readDefaultPluginsJson :: "fs \<Rightarrow> (string \<times> jv) list option" where
  "readDefaultPluginsJson disk = readFileAsData disk (resolveDefaultConfigPath disk)"

definition configExists :: "fs \<Rightarrow> bool" where
  "configExists disk \<longleftrightarrow>
     existsSync disk CONFIG_YAML_PATH \<or> existsSync disk LEGACY_PLUGINS_JSON_PATH"

text \<open>The minimal document of \<^verbatim>\<open>createConfigFromDefault\<close>, from its literal.\<close>

definition lightMode :: jv where
  "lightMode = JObj
     [(''light'', JStr ''#faf8f8''),
      (''lightgray'', JStr ''#e5e5e5''),
      (''gray'', JStr ''#b8b8b8''),
      (''darkgray'', JStr ''#4e4e4e''),
      (''dark'', JStr ''#2b2b2b''),
      (''secondary'', JStr ''#284b63''),
      (''tertiary'', JStr ''#84a59d''),
      (''highlight'', JStr ''rgba(143, 159, 169, 0.15)''),
      (''textHighlight'', JStr ''#fff23688'')]"

definition darkMode :: jv where
  "darkMode = JObj
     [(''light'', JStr ''#161618''),
      (''lightgray'', JStr ''#393639''),
      (''gray'', JStr ''#646464''),
      (''darkgray'', JStr ''#d4d4d4''),
      (''dark'', JStr ''#ebebec''),
      (''secondary'', JStr ''#7b97aa''),
      (''tertiary'', JStr ''#84a59d''),
      (''highlight'', JStr ''rgba(143, 159, 169, 0.15)''),
      (''textHighlight'', JStr ''#fff23688'')]"

definition baseline_configuration :: jv where
  "baseline_configuration = JObj
     [(''pageTitle'', JStr ''Quartz''),
      (''enableSPA'', JBool True),
      (''enablePopovers'', JBool True),
      (''analytics'', JObj [(''provider'', JStr ''plausible'')]),
      (''locale'', JStr ''en-US''),
      (''baseUrl'', JStr ''quartz.jzhao.xyz''),
      (''ignorePatterns'', JArr [JStr ''private'', JStr ''templates'', JStr ''.obsidian'']),
      (''defaultDateType'', JStr ''created''),
      (''theme'', JObj
         [(''cdnCaching'', JBool True),
          (''typography'', JObj
             [(''header'', JStr ''Schibsted Grotesk''),
              (''body'', JStr ''Source Sans Pro''),
              (''code'', JStr ''IBM Plex Mono'')]),
          (''colors'', JObj [(''lightMode'', lightMode), (''darkMode'', darkMode)])])]"

definition minimal :: "(string \<times> jv) list" where
  "minimal =
     [(''configuration'', baseline_configuration),
      (''plugins'', JArr []),
      (''layout'', JObj [(''groups'', JObj []), (''byPageType'', JObj [])])]"

definition createConfigFromDefault :: "fs \<Rightarrow> fs \<times> (string \<times> jv) list" where
  "createConfigFromDefault disk =
     (case readDefaultPluginsJson disk of
        None \<Rightarrow> (writePluginsJson disk minimal, minimal)
      | Some defaultData \<Rightarrow>
          (let rest = AList.delete ''$schema'' defaultData
           in (writePluginsJson disk rest, rest)))"

subsection \<open>The setup wizard (\<^verbatim>\<open>SetupWizard.tsx\<close>)\<close>

text \<open>
  \<^verbatim>\<open>
  const hasDefault = readDefaultPluginsJson() !== null;
  const choices = [
    ...(hasDefault ? [{ key: "default", label: ..., description: ... }] : []),
    { key: "empty", label: ..., description: ... },
  ];
  \<close>
  \<open>wizard_empty_document\<close> is the literal the wizard writes for \<^verbatim>\<open>"empty"\<close>; its
  configuration is the same literal as in \<open>minimal\<close>.
\<close>

datatype Choice = ChDefault | ChEmpty

record choice =
  key :: Choice
  label :: string
  description :: string

definition choices :: "fs \<Rightarrow> choice list" where
  "choices disk =
     (let hasDefault = (readDefaultPluginsJson disk \<noteq> None) in
      (if hasDefault
       then [\<lparr>key = ChDefault, label = ''Use default configuration'',
              description = ''Copy quartz.config.default.yaml as your starting config''\<rparr>]
       else []) @
      [\<lparr>key = ChEmpty, label = ''Start with empty configuration'',
        description = ''Create a minimal config with no plugins''\<rparr>])"

definition wizard_empty_document :: "(string \<times> jv) list" where
  "wizard_empty_document =
     [(''$schema'', JStr ''./quartz/plugins/quartz-plugins.schema.json''),
      (''configuration'', baseline_configuration),
      (''plugins'', JArr []),
      (''layout'', JObj [(''groups'', JObj []), (''byPageType'', JObj [])])]"

definition onSelect :: "choice option \<Rightarrow> fs \<Rightarrow> fs" where
  "onSelect option disk =
     (case option of
        None \<Rightarrow> disk
      | Some opt \<Rightarrow>
          if key opt = ChDefault then fst (createConfigFromDefault disk)
          else writePluginsJson disk wizard_empty_document)"

lemma readPluginsJson_written:
  "readPluginsJson (writePluginsJson disk d) = Some (AList.delete ''$schema'' d)"
  by (simp add: readPluginsJson_def writePluginsJson_def writeDataToFile_def readFileAsData_def
        resolveConfigPath_def existsSync_def)

lemma keys_delete: "map fst (AList.delete x d) = filter (\<lambda>k. k \<noteq> x) (map fst d)"
  by (induction d) auto

lemma getProp_delete: "k \<noteq> x \<Longrightarrow> getProp (JObj (AList.delete x d)) k = getProp (JObj d) k"
  by (simp add: delete_conv')

lemma written_file:
  "writePluginsJson disk d CONFIG_YAML_PATH = Content (AList.delete ''$schema'' d)"
  "p \<noteq> CONFIG_YAML_PATH \<Longrightarrow> writePluginsJson disk d p = disk p"
  by (simp_all add: writePluginsJson_def writeDataToFile_def)

text \<open>
  Claim C10: every document write through \<open>writePluginsJson\<close> removes the
  top-level \<^verbatim>\<open>$schema\<close> key from the data before serialization and writes all
  other top-level keys unchanged. The write goes to the YAML configuration file
  and leaves the other files alone.
\<close>

theorem C10_writePluginsJson_drops_schema:
  "\<exists>written.
     writePluginsJson disk d CONFIG_YAML_PATH = Content written \<and>
     ''$schema'' \<notin> set (keys (JObj written)) \<and>
     keys (JObj written) = filter (\<lambda>k. k \<noteq> ''$schema'') (keys (JObj d)) \<and>
     (\<forall>k. k \<noteq> ''$schema'' \<longrightarrow> getProp (JObj written) k = getProp (JObj d) k) \<and>
     (\<forall>p. p \<noteq> CONFIG_YAML_PATH \<longrightarrow> writePluginsJson disk d p = disk p)"
proof (intro exI conjI allI impI)
  show "writePluginsJson disk d CONFIG_YAML_PATH = Content (AList.delete ''$schema'' d)"
    by (rule written_file)
  show "''$schema'' \<notin> set (keys (JObj (AList.delete ''$schema'' d)))"
    unfolding keys.simps keys_delete by (simp only: set_filter mem_Collect_eq simp_thms)
  show "keys (JObj (AList.delete ''$schema'' d)) = filter (\<lambda>k. k \<noteq> ''$schema'') (keys (JObj d))"
    unfolding keys.simps by (rule keys_delete)
  show "getProp (JObj (AList.delete ''$schema'' d)) k = getProp (JObj d) k" if "k \<noteq> ''$schema''" for k
    using that by (rule getProp_delete)
  show "writePluginsJson disk d p = disk p" if "p \<noteq> CONFIG_YAML_PATH" for p
    using that by (rule written_file)
qed

theorem C10_writePluginsJson_drops_schema_witness:
  "writePluginsJson (\<lambda>_. Absent)
     [(''$schema'', JStr ''s''), (''plugins'', JArr []), (''layout'', JNull)] CONFIG_YAML_PATH
   = Content [(''plugins'', JArr []), (''layout'', JNull)]"
proof -
  from C10_writePluginsJson_drops_schema
      [of "\<lambda>_. Absent" "[(''$schema'', JStr ''s''), (''plugins'', JArr []), (''layout'', JNull)]"]
  obtain written where
    w: "writePluginsJson (\<lambda>_. Absent)
          [(''$schema'', JStr ''s''), (''plugins'', JArr []), (''layout'', JNull)] CONFIG_YAML_PATH
        = Content written"
    by (elim exE conjE)
  then have "written = [(''plugins'', JArr []), (''layout'', JNull)]"
    by (simp add: writePluginsJson_def writeDataToFile_def)
  with w show ?thesis by simp
qed

text \<open>
  Claim C8, as stated: whenever loading finds no configuration document, the
  first-run state offers exactly two choices.

  With no shipped default document either, the wizard offers one choice only.
\<close>

theorem C8_single_choice_counterexample:
  "\<not> configExists (\<lambda>_. Absent) \<and> map key (choices (\<lambda>_. Absent)) = [ChEmpty]"
  by (simp add: configExists_def existsSync_def choices_def readDefaultPluginsJson_def
        readFileAsData_def)

lemma wizard_empty_written: "AList.delete ''$schema'' wizard_empty_document = minimal"
  by (simp add: wizard_empty_document_def minimal_def)

text \<open>
  Claim C8, amended: whenever no configuration file exists, the first-run wizard
  offers the choice to initialize an empty configuration, preceded by the choice
  to adopt the shipped default document only when that document can be read: two
  choices then, one otherwise. Choosing the empty configuration writes the fixed
  minimal document: the baseline global settings, an empty plugin list and a
  layout whose groups and page-type overrides are empty. Choosing the default
  writes the shipped default document without its \<^verbatim>\<open>$schema\<close> key.
\<close>

theorem C8_first_run_choices:
  "\<not> configExists disk \<Longrightarrow>
     map key (choices disk) =
       (if readDefaultPluginsJson disk = None then [ChEmpty] else [ChDefault, ChEmpty]) \<and>
     (\<forall>c\<in>set (choices disk). key c = ChEmpty \<longrightarrow>
        readPluginsJson (onSelect (Some c) disk) = Some minimal) \<and>
     (\<forall>c\<in>set (choices disk). \<forall>d. key c = ChDefault \<and> readDefaultPluginsJson disk = Some d \<longrightarrow>
        readPluginsJson (onSelect (Some c) disk) = Some (AList.delete ''$schema'' d)) \<and>
     getProp (JObj minimal) ''configuration'' = baseline_configuration \<and>
     getProp (JObj minimal) ''plugins'' = JArr [] \<and>
     getProp (JObj minimal) ''layout'' = JObj [(''groups'', JObj []), (''byPageType'', JObj [])]"
proof (intro conjI)
  show "map key (choices disk) =
           (if readDefaultPluginsJson disk = None then [ChEmpty] else [ChDefault, ChEmpty])"
    by (simp add: choices_def)
  show "\<forall>c\<in>set (choices disk). key c = ChEmpty \<longrightarrow>
           readPluginsJson (onSelect (Some c) disk) = Some minimal"
    by (simp add: onSelect_def readPluginsJson_written wizard_empty_written)
  show "\<forall>c\<in>set (choices disk). \<forall>d. key c = ChDefault \<and> readDefaultPluginsJson disk = Some d \<longrightarrow>
           readPluginsJson (onSelect (Some c) disk) = Some (AList.delete ''$schema'' d)"
    by (simp add: onSelect_def createConfigFromDefault_def readPluginsJson_written Let_def
          delete_idem)
  show "getProp (JObj minimal) ''configuration'' = baseline_configuration"
    by (simp add: minimal_def)
  show "getProp (JObj minimal) ''plugins'' = JArr []"
    by (simp add: minimal_def)
  show "getProp (JObj minimal) ''layout'' = JObj [(''groups'', JObj []), (''byPageType'', JObj [])]"
    by (simp add: minimal_def)
qed

text \<open>A first run with a shipped default document on disk.\<close>

definition shipped_disk :: fs where
  "shipped_disk = (\<lambda>_. Absent)
     (DEFAULT_CONFIG_YAML_PATH := Content [(''$schema'', JStr ''s''), (''plugins'', JArr [])])"

theorem C8_first_run_choices_witness:
  "\<not> configExists shipped_disk \<and>
   map key (choices shipped_disk) = [ChDefault, ChEmpty] \<and>
   readPluginsJson (onSelect (Some (choices shipped_disk ! 1)) shipped_disk) = Some minimal \<and>
   readPluginsJson (onSelect (Some (choices shipped_disk ! 0)) shipped_disk) =
     Some [(''plugins'', JArr [])]"
proof -
  have n: "\<not> configExists shipped_disk"
    by (simp add: configExists_def existsSync_def shipped_disk_def)
  have d: "readDefaultPluginsJson shipped_disk = Some [(''$schema'', JStr ''s''), (''plugins'', JArr [])]"
    by (simp add: readDefaultPluginsJson_def readFileAsData_def resolveDefaultConfigPath_def
          existsSync_def shipped_disk_def)
  have c: "choices shipped_disk ! 1 \<in> set (choices shipped_disk)"
          "choices shipped_disk ! 0 \<in> set (choices shipped_disk)"
          "key (choices shipped_disk ! 1) = ChEmpty" "key (choices shipped_disk ! 0) = ChDefault"
    by (simp_all add: choices_def d)
  from C8_first_run_choices [OF n] d c n show ?thesis
    by auto
qed

section \<open>The zone grid (Layout panel)\<close>

text \<open>
  \<^verbatim>\<open>const ZONES = ["header", "left", "beforeBody", "afterBody", "right", "footer"]\<close>.
  A zone is one of these six names; \<open>zone_of\<close> reads a name back.
\<close>

datatype Zone = ZHeader | ZLeft | ZBeforeBody | ZAfterBody | ZRight | ZFooter

definition ZONES :: "Zone list" where
  "ZONES = [ZHeader, ZLeft, ZBeforeBody, ZAfterBody, ZRight, ZFooter]"

fun zone_name :: "Zone \<Rightarrow> string" where
  "zone_name ZHeader = ''header''"
| "zone_name ZLeft = ''left''"
| "zone_name ZBeforeBody = ''beforeBody''"
| "zone_name ZAfterBody = ''afterBody''"
| "zone_name ZRight = ''right''"
| "zone_name ZFooter = ''footer''"

definition zone_of :: "string \<Rightarrow> Zone option" where
  "zone_of s = List.find (\<lambda>z. zone_name z = s) ZONES"

text \<open>
  The plugin list as the panel holds it (\<^verbatim>\<open>EnrichedPlugin\<close>, from
  \<^verbatim>\<open>getEnrichedPlugins\<close>), with the fields the panel reads, typed as the source
  declares them; \<open>display\<close> is optional because the source reads it with
  \<^verbatim>\<open>?? "all"\<close>. Of the manifest the panel reads the default position and
  priority of the declared components, typed as its casts assert. \<open>ZoneComponent\<close> has the fields of the source's interface of
  that name, prefixed with \<open>c_\<close> where the name is a field of the plugin too.
\<close>

record layout_entry =
  position :: string
  priority :: int
  display :: "string option"
  condition :: "string option"
  group :: "string option"
  groupOptions :: "(string \<times> jv) list option"

record component_defaults =
  defaultPosition :: "string option"
  defaultPriority :: "int option"

record plugin_manifest =
  components :: "(string \<times> component_defaults) list option"

record EnrichedPlugin =
  index :: nat
  name :: string
  displayName :: string
  enabled :: bool
  options :: "(string \<times> jv) list"
  layout :: "layout_entry option"
  manifest :: "plugin_manifest option"

record ZoneComponent =
  pluginIndex :: nat
  c_name :: string
  c_displayName :: string
  c_position :: string
  c_priority :: int
  c_display :: string
  c_condition :: "string option"
  c_group :: "string option"
  c_groupOptions :: "(string \<times> jv) list option"

text \<open>
  \<^verbatim>\<open>
  function getZoneComponents(plugins) {
    const zones = { header: [], left: [], beforeBody: [], right: [], afterBody: [], footer: [] };
    for (const plugin of plugins) {
      if (!plugin.layout || !plugin.enabled) continue;
      const position = plugin.layout.position;
      if (!(position in zones)) continue;
      zones[position].push({ pluginIndex: plugin.index, name: plugin.name, ... });
    }
    for (const zone of ZONES) zones[zone].sort((a, b) => a.priority - b.priority);
    return zones;
  }
  \<close>
  \<open>zones\<close> is an object literal, so \<^verbatim>\<open>position in zones\<close> holds for its six own
  keys and for every property name it inherits from \<^verbatim>\<open>Object.prototype\<close>
  (\<open>object_prototype_keys\<close>, above). For an
  inherited name \<^verbatim>\<open>zones[position]\<close> is not an array, it has no \<^verbatim>\<open>push\<close>, and the
  call throws a \<^verbatim>\<open>TypeError\<close>. \<^verbatim>\<open>Array.prototype.sort\<close> is stable, as \<open>sort_key\<close>.
\<close>

definition in_zones :: "string \<Rightarrow> bool" where
  "in_zones p \<longleftrightarrow> zone_of p \<noteq> None \<or> p \<in> set object_prototype_keys"

definition component :: "EnrichedPlugin \<Rightarrow> layout_entry \<Rightarrow> ZoneComponent" where
  "component plugin l =
     \<lparr>pluginIndex = index plugin,
      c_name = name plugin,
      c_displayName = displayName plugin,
      c_position = position l,
      c_priority = priority l,
      c_display = (case display l of Some d \<Rightarrow> d | None \<Rightarrow> ''all''),
      c_condition = condition l,
      c_group = group l,
      c_groupOptions = groupOptions l\<rparr>"

fun collect ::
  "EnrichedPlugin list \<Rightarrow> (Zone \<Rightarrow> ZoneComponent list) \<Rightarrow> error + (Zone \<Rightarrow> ZoneComponent list)" where
  "collect [] zones = Inr zones"
| "collect (plugin # rest) zones =
     (case layout plugin of
        None \<Rightarrow> collect rest zones
      | Some l \<Rightarrow>
          if \<not> enabled plugin then collect rest zones
          else if \<not> in_zones (position l) then collect rest zones
          else (case zone_of (position l) of
                  Some z \<Rightarrow> collect rest (zones(z := zones z @ [component plugin l]))
                | None \<Rightarrow> Inl TypeError))"

definition getZoneComponents ::
  "EnrichedPlugin list \<Rightarrow> error + (Zone \<Rightarrow> ZoneComponent list)" where
  "getZoneComponents plugins =
     (case collect plugins (\<lambda>_. []) of
        Inl e \<Rightarrow> Inl e
      | Inr zones \<Rightarrow> Inr (\<lambda>zone. sort_key c_priority (zones zone)))"

text \<open>
  The zone views of the panel (\<^verbatim>\<open>zoneComponents\<close>), under the active page type:
  \<^verbatim>\<open>
  const base = getZoneComponents(plugins);
  if (activePageType === "default") return base;
  const override = layoutConfig.byPageType?.[activePageType];
  if (!override) return base;
  for (const zone of ZONES) {
    filtered[zone] = base[zone].filter((comp) => !override.exclude?.includes(comp.name));
    if (override.positions) {
      for (const [pluginName, newPosition] of Object.entries(override.positions)) {
        if (typeof newPosition === "string" && newPosition === zone) {
          for (const srcZone of ZONES) {
            const comp = base[srcZone].find((c) => c.name === pluginName);
            if (comp && !filtered[zone].find((c) => c.name === pluginName))
              filtered[zone].push({ ...comp, position: zone });
          }
        }
        if (typeof newPosition === "string" && newPosition !== zone)
          filtered[zone] = filtered[zone].filter((c) => c.name !== pluginName);
      }
    }
    filtered[zone].sort((a, b) => a.priority - b.priority);
  }
  return filtered;
  \<close>
  \<open>pull\<close> is the body of the loop over \<open>srcZone\<close>, \<open>applyPosition\<close> the body
  of the loop over the entries of \<open>positions\<close>, \<open>overrideZone\<close> the body of the
  loop over \<open>zone\<close>.
\<close>

record PageTypeOverride =
  exclude :: "string list option"
  positions :: "(string \<times> jv) list option"

record LayoutConfig =
  groups :: "(string \<times> jv) list option"
  byPageType :: "(string \<times> PageTypeOverride) list option"

definition pull :: "(Zone \<Rightarrow> ZoneComponent list) \<Rightarrow> Zone \<Rightarrow> string \<Rightarrow>
    ZoneComponent list \<Rightarrow> Zone \<Rightarrow> ZoneComponent list" where
  "pull base zone pluginName acc srcZone =
     (case List.find (\<lambda>c. c_name c = pluginName) (base srcZone) of
        Some cmp \<Rightarrow>
          if List.find (\<lambda>c. c_name c = pluginName) acc = None
          then acc @ [cmp\<lparr>c_position := zone_name zone\<rparr>]
          else acc
      | None \<Rightarrow> acc)"

definition applyPosition :: "(Zone \<Rightarrow> ZoneComponent list) \<Rightarrow> Zone \<Rightarrow>
    ZoneComponent list \<Rightarrow> string \<times> jv \<Rightarrow> ZoneComponent list" where
  "applyPosition base zone acc entry =
     (let pluginName = fst entry; newPosition = snd entry;
          acc1 = (if typeof newPosition = TString \<and> newPosition = JStr (zone_name zone)
                  then foldl (pull base zone pluginName) acc ZONES else acc)
      in if typeof newPosition = TString \<and> newPosition \<noteq> JStr (zone_name zone)
         then filter (\<lambda>c. c_name c \<noteq> pluginName) acc1 else acc1)"

definition overrideZone :: "(Zone \<Rightarrow> ZoneComponent list) \<Rightarrow> PageTypeOverride \<Rightarrow> Zone \<Rightarrow>
    ZoneComponent list" where
  "overrideZone base override zone =
     (let f0 = filter (\<lambda>cmp. \<not> (case exclude override of
                                    Some ex \<Rightarrow> c_name cmp \<in> set ex | None \<Rightarrow> False))
                 (base zone);
          f1 = (case positions override of
                  Some ps \<Rightarrow> foldl (applyPosition base zone) f0 ps
                | None \<Rightarrow> f0)
      in sort_key c_priority f1)"

definition zoneComponents :: "EnrichedPlugin list \<Rightarrow> LayoutConfig \<Rightarrow> string \<Rightarrow>
    error + (Zone \<Rightarrow> ZoneComponent list)" where
  "zoneComponents plugins layoutConfig activePageType =
     (case getZoneComponents plugins of
        Inl e \<Rightarrow> Inl e
      | Inr base \<Rightarrow>
          if activePageType = ''default'' then Inr base
          else (case (case byPageType layoutConfig of
                        Some bpt \<Rightarrow> map_of bpt activePageType | None \<Rightarrow> None) of
                  None \<Rightarrow> Inr base
                | Some override \<Rightarrow> Inr (overrideZone base override)))"

lemma zone_in_ZONES: "z \<in> set ZONES"
  by (cases z) (simp_all add: ZONES_def)

lemma zone_of_name: "zone_of (zone_name z) = Some z"
  by (cases z) (simp_all add: zone_of_def ZONES_def)

lemma zone_of_SomeD: "zone_of s = Some z \<Longrightarrow> s = zone_name z"
  by (auto simp: zone_of_def find_Some_iff)

lemma collect_Cons_cases:
  assumes "collect (p # ps) zones = Inr zs"
  obtains (skip) "collect ps zones = Inr zs"
      "layout p = None \<or> \<not> enabled p \<or> (\<exists>l. layout p = Some l \<and> zone_of (position l) = None)"
    | (push) l z' where "layout p = Some l" "enabled p" "zone_of (position l) = Some z'"
      "collect ps (zones(z' := zones z' @ [component p l])) = Inr zs"
  using assms by (auto simp: in_zones_def split: option.splits if_splits)

lemma collect_keeps:
  "collect plugins zones = Inr zs \<Longrightarrow> set (zones z) \<subseteq> set (zs z)"
proof (induction plugins arbitrary: zones)
  case Nil
  then show ?case by simp
next
  case (Cons p ps)
  from Cons.prems show ?case
  proof (cases rule: collect_Cons_cases)
    case skip
    from Cons.IH [OF skip(1)] show ?thesis .
  next
    case (push l z')
    from Cons.IH [OF push(4)] show ?thesis by (auto split: if_splits)
  qed
qed

lemma collect_adds:
  "collect plugins zones = Inr zs \<Longrightarrow> p \<in> set plugins \<Longrightarrow> enabled p \<Longrightarrow>
   layout p = Some l \<Longrightarrow> zone_of (position l) = Some z \<Longrightarrow> component p l \<in> set (zs z)"
proof (induction plugins arbitrary: zones)
  case Nil
  then show ?case by simp
next
  case (Cons q qs)
  from Cons.prems(1) show ?case
  proof (cases rule: collect_Cons_cases)
    case skip
    with Cons.prems have "p \<in> set qs" by auto
    from Cons.IH [OF skip(1) this Cons.prems(3,4,5)] show ?thesis .
  next
    case (push l' z')
    show ?thesis
    proof (cases "p = q")
      case True
      with push Cons.prems have "component p l \<in> set ((zones(z' := zones z' @ [component q l'])) z)"
        by simp
      with collect_keeps [OF push(4), of z] show ?thesis by blast
    next
      case False
      with Cons.prems have "p \<in> set qs" by simp
      from Cons.IH [OF push(4) this Cons.prems(3,4,5)] show ?thesis .
    qed
  qed
qed

lemma collect_sound:
  "collect plugins zones = Inr zs \<Longrightarrow> c \<in> set (zs z) \<Longrightarrow>
   c \<in> set (zones z) \<or>
   (\<exists>p\<in>set plugins. \<exists>l. enabled p \<and> layout p = Some l \<and> position l = zone_name z \<and>
       c = component p l)"
proof (induction plugins arbitrary: zones)
  case Nil
  then show ?case by simp
next
  case (Cons q qs)
  from Cons.prems(1) show ?case
  proof (cases rule: collect_Cons_cases)
    case skip
    from Cons.IH [OF skip(1) Cons.prems(2)] show ?thesis by auto
  next
    case (push l z')
    from Cons.IH [OF push(4) Cons.prems(2)] push(1,2) zone_of_SomeD [OF push(3)]
    show ?thesis by (auto split: if_splits)
  qed
qed

lemma pull_names:
  "c_name ` set (pull base zone n acc src) \<subseteq> insert n (c_name ` set acc)"
  "set acc \<subseteq> set (pull base zone n acc src)"
  by (auto simp: pull_def find_Some_iff split: option.splits)

lemma pull_finds:
  "c \<in> set (base src) \<Longrightarrow> c_name c = n \<Longrightarrow> n \<in> c_name ` set (pull base zone n acc src)"
proof -
  assume c: "c \<in> set (base src)" "c_name c = n"
  then obtain f where f: "List.find (\<lambda>c. c_name c = n) (base src) = Some f"
    by (cases "List.find (\<lambda>c. c_name c = n) (base src)") (auto simp: find_None_iff)
  then have fn: "c_name f = n" by (auto simp: find_Some_iff)
  show ?thesis
  proof (cases "List.find (\<lambda>c. c_name c = n) acc")
    case None
    with f fn show ?thesis by (simp add: pull_def)
  next
    case (Some g)
    then have "g \<in> set acc" "c_name g = n" by (auto simp: find_Some_iff)
    with f Some show ?thesis by (auto simp: pull_def)
  qed
qed

lemma foldl_pull_names:
  "c_name ` set (foldl (pull base zone n) acc zs) \<subseteq> insert n (c_name ` set acc)"
proof (induction zs arbitrary: acc)
  case Nil
  then show ?case by auto
next
  case (Cons z zs)
  from Cons [of "pull base zone n acc z"] pull_names(1) [of base zone n acc z]
  show ?case by auto
qed

lemma foldl_pull_keeps: "set acc \<subseteq> set (foldl (pull base zone n) acc zs)"
proof (induction zs arbitrary: acc)
  case Nil
  then show ?case by simp
next
  case (Cons z zs)
  from Cons [of "pull base zone n acc z"] pull_names(2) [of acc base zone n z]
  show ?case by auto
qed

lemma foldl_pull_finds:
  "src \<in> set zs \<Longrightarrow> c \<in> set (base src) \<Longrightarrow> c_name c = n \<Longrightarrow>
   n \<in> c_name ` set (foldl (pull base zone n) acc zs)"
proof (induction zs arbitrary: acc)
  case Nil
  then show ?case by simp
next
  case (Cons z zs)
  show ?case
  proof (cases "src = z")
    case True
    from pull_finds [of c base src n zone acc, OF Cons.prems(2,3)] True
    have "n \<in> c_name ` set (pull base zone n acc z)" by simp
    with foldl_pull_keeps [of "pull base zone n acc z" base zone n zs]
    show ?thesis by auto
  next
    case False
    with Cons.prems have "src \<in> set zs" by simp
    from Cons.IH [OF this Cons.prems(2,3)] show ?thesis by simp
  qed
qed

lemma applyPosition_names:
  "c_name ` set (applyPosition base z acc (k, v)) \<subseteq> insert k (c_name ` set acc)"
  using foldl_pull_names [of base z k acc ZONES]
  by (auto simp: applyPosition_def Let_def)

lemma applyPosition_other:
  "n \<noteq> k \<Longrightarrow> n \<in> c_name ` set acc \<Longrightarrow> n \<in> c_name ` set (applyPosition base z acc (k, v))"
  using foldl_pull_keeps [of acc base z k ZONES]
  by (auto simp: applyPosition_def Let_def)

lemma applyPosition_elsewhere:
  "other \<noteq> zone_name z \<Longrightarrow> k \<notin> c_name ` set (applyPosition base z acc (k, JStr other))"
  by (auto simp: applyPosition_def Let_def)

lemma applyPosition_here:
  "c \<in> set (base src) \<Longrightarrow> c_name c = k \<Longrightarrow>
   k \<in> c_name ` set (applyPosition base z acc (k, JStr (zone_name z)))"
  using foldl_pull_finds [OF zone_in_ZONES, of c base src k z acc]
  by (simp add: applyPosition_def Let_def)

lemma positions_absent:
  "n \<notin> fst ` set ps \<Longrightarrow> n \<notin> c_name ` set acc \<Longrightarrow>
   n \<notin> c_name ` set (foldl (applyPosition base z) acc ps)"
proof (induction ps arbitrary: acc)
  case Nil
  then show ?case by simp
next
  case (Cons e ps)
  obtain k v where e: "e = (k, v)" by (cases e)
  with Cons.prems have "n \<noteq> k" "n \<notin> fst ` set ps" by auto
  moreover with Cons.prems applyPosition_names [of base z acc k v]
  have "n \<notin> c_name ` set (applyPosition base z acc (k, v))" by auto
  ultimately show ?case using Cons.IH e by simp
qed

lemma positions_present:
  "n \<notin> fst ` set ps \<Longrightarrow> n \<in> c_name ` set acc \<Longrightarrow>
   n \<in> c_name ` set (foldl (applyPosition base z) acc ps)"
proof (induction ps arbitrary: acc)
  case Nil
  then show ?case by simp
next
  case (Cons e ps)
  obtain k v where e: "e = (k, v)" by (cases e)
  with Cons.prems have nk: "n \<noteq> k" "n \<notin> fst ` set ps" by auto
  from applyPosition_other [OF nk(1) Cons.prems(2)]
  have "n \<in> c_name ` set (applyPosition base z acc (k, v))" .
  with nk show ?case using Cons.IH e by simp
qed

lemma positions_moved_away:
  "distinct (map fst ps) \<Longrightarrow> map_of ps n = Some (JStr other) \<Longrightarrow> other \<noteq> zone_name z \<Longrightarrow>
   n \<notin> c_name ` set (foldl (applyPosition base z) acc ps)"
proof (induction ps arbitrary: acc)
  case Nil
  then show ?case by simp
next
  case (Cons e ps)
  obtain k v where e: "e = (k, v)" by (cases e)
  show ?case
  proof (cases "k = n")
    case True
    with Cons.prems e have v: "v = JStr other" and nin: "n \<notin> fst ` set ps" by auto
    from applyPosition_elsewhere [OF Cons.prems(3), of n base acc] True v
    have "n \<notin> c_name ` set (applyPosition base z acc (k, v))" by simp
    from positions_absent [OF nin this] e show ?thesis by simp
  next
    case False
    with Cons.prems e have "distinct (map fst ps)" "map_of ps n = Some (JStr other)" by auto
    from Cons.IH [OF this Cons.prems(3)] e show ?thesis by simp
  qed
qed

lemma positions_moved_here:
  "distinct (map fst ps) \<Longrightarrow> map_of ps n = Some (JStr (zone_name z)) \<Longrightarrow>
   c \<in> set (base src) \<Longrightarrow> c_name c = n \<Longrightarrow>
   n \<in> c_name ` set (foldl (applyPosition base z) acc ps)"
proof (induction ps arbitrary: acc)
  case Nil
  then show ?case by simp
next
  case (Cons e ps)
  obtain k v where e: "e = (k, v)" by (cases e)
  show ?case
  proof (cases "k = n")
    case True
    with Cons.prems e have v: "v = JStr (zone_name z)" and nin: "n \<notin> fst ` set ps" by auto
    from applyPosition_here [of c base src n z acc, OF Cons.prems(3,4)] True v
    have "n \<in> c_name ` set (applyPosition base z acc (k, v))" by simp
    from positions_present [OF nin this] e show ?thesis by simp
  next
    case False
    with Cons.prems e have "distinct (map fst ps)" "map_of ps n = Some (JStr (zone_name z))"
      by auto
    from Cons.IH [OF this Cons.prems(3,4)] e show ?thesis by simp
  qed
qed

lemma getZoneComponents_present:
  assumes "getZoneComponents plugins = Inr base" "p \<in> set plugins" "enabled p"
    "layout p = Some l" "position l = zone_name z"
  shows "component p l \<in> set (base z)"
proof -
  from assms(1) obtain zs where zs: "collect plugins (\<lambda>_. []) = Inr zs"
    and b: "base = (\<lambda>zone. sort_key c_priority (zs zone))"
    by (auto simp: getZoneComponents_def split: sum.splits)
  from assms(5) have "zone_of (position l) = Some z" by (simp add: zone_of_name)
  from collect_adds [OF zs assms(2,3,4) this] b show ?thesis by simp
qed

lemma getZoneComponents_sound:
  assumes "getZoneComponents plugins = Inr base" "c \<in> set (base z)"
  shows "\<exists>p\<in>set plugins. \<exists>l. enabled p \<and> layout p = Some l \<and> position l = zone_name z \<and>
           c = component p l"
proof -
  from assms(1) obtain zs where zs: "collect plugins (\<lambda>_. []) = Inr zs"
    and b: "base = (\<lambda>zone. sort_key c_priority (zs zone))"
    by (auto simp: getZoneComponents_def split: sum.splits)
  with assms(2) have "c \<in> set (zs z)" by simp
  from collect_sound [OF zs this] show ?thesis by simp
qed

text \<open>
  Claim C7: for every plugin whose default layout position is header, and every
  page type whose override sets \<open>positions\<close> mapping that plugin's name to
  footer: under that page type the zone views exclude the plugin from header and
  include it in footer, while under the \<^verbatim>\<open>"default"\<close> page type the plugin remains
  in header. The plugin is enabled (a disabled plugin is in no zone), the page
  type is not the one called \<^verbatim>\<open>"default"\<close>, and the views exist, that is
  \<open>getZoneComponents\<close> does not throw.
\<close>

theorem C7_page_type_override_moves_plugin:
  assumes p: "p \<in> set plugins" "enabled p" "layout p = Some l" "position l = ''header''"
    and pt: "pageType \<noteq> ''default''"
    and ov: "byPageType layoutConfig = Some bpt" "map_of bpt pageType = Some override"
    and ps: "positions override = Some ps" "distinct (map fst ps)"
            "map_of ps (name p) = Some (JStr ''footer'')"
    and dv: "zoneComponents plugins layoutConfig ''default'' = Inr defaultView"
    and tv: "zoneComponents plugins layoutConfig pageType = Inr typeView"
  shows "name p \<notin> c_name ` set (typeView ZHeader) \<and>
         name p \<in> c_name ` set (typeView ZFooter) \<and>
         name p \<in> c_name ` set (defaultView ZHeader)"
proof -
  from dv have base: "getZoneComponents plugins = Inr defaultView"
    by (auto simp: zoneComponents_def split: sum.splits)
  from p(4) have "position l = zone_name ZHeader" by simp
  from getZoneComponents_present [OF base p(1,2,3) this]
  have c: "component p l \<in> set (defaultView ZHeader)" .
  have cn: "c_name (component p l) = name p" by (simp add: component_def)
  from tv base pt ov have tvd: "typeView = overrideZone defaultView override"
    by (simp add: zoneComponents_def)
  have h: "name p \<notin> c_name ` set (typeView ZHeader)"
    using positions_moved_away [OF ps(2), of "name p" "''footer''" ZHeader defaultView] ps(1,3)
    by (simp add: tvd overrideZone_def Let_def)
  have f: "name p \<in> c_name ` set (typeView ZFooter)"
    using positions_moved_here [OF ps(2), of "name p" ZFooter "component p l" defaultView ZHeader]
      ps(1,3) c cn
    by (simp add: tvd overrideZone_def Let_def)
  from c cn have d: "name p \<in> c_name ` set (defaultView ZHeader)" by force
  from h f d show ?thesis by simp
qed

text \<open>The scenario of the specification: \<^verbatim>\<open>pluginX\<close> in header, moved to footer for the
  page type \<^verbatim>\<open>list\<close>.\<close>

definition pluginX :: EnrichedPlugin where
  "pluginX =
     \<lparr>index = 0, name = ''pluginX'', displayName = ''Plugin X'', enabled = True, options = [],
      layout = Some \<lparr>position = ''header'', priority = 10, display = None, condition = None,
                     group = None, groupOptions = None\<rparr>,
      manifest = None\<rparr>"

definition listOverride :: PageTypeOverride where
  "listOverride = \<lparr>exclude = None, positions = Some [(''pluginX'', JStr ''footer'')]\<rparr>"

definition listLayout :: LayoutConfig where
  "listLayout = \<lparr>groups = None, byPageType = Some [(''list'', listOverride)]\<rparr>"

theorem C7_page_type_override_moves_plugin_witness:
  "\<exists>defaultView typeView.
     zoneComponents [pluginX] listLayout ''default'' = Inr defaultView \<and>
     zoneComponents [pluginX] listLayout ''list'' = Inr typeView \<and>
     ''pluginX'' \<notin> c_name ` set (typeView ZHeader) \<and>
     ''pluginX'' \<in> c_name ` set (typeView ZFooter) \<and>
     ''pluginX'' \<in> c_name ` set (defaultView ZHeader)"
proof -
  have g: "\<exists>base. getZoneComponents [pluginX] = Inr base"
    by (simp add: getZoneComponents_def pluginX_def in_zones_def zone_of_def ZONES_def)
  then obtain dv where dv: "zoneComponents [pluginX] listLayout ''default'' = Inr dv"
    by (auto simp: zoneComponents_def)
  from g obtain tv where tv: "zoneComponents [pluginX] listLayout ''list'' = Inr tv"
    by (auto simp: zoneComponents_def listLayout_def)
  have l: "layout pluginX = Some \<lparr>position = ''header'', priority = 10, display = None,
             condition = None, group = None, groupOptions = None\<rparr>"
    by (simp add: pluginX_def)
  have "name pluginX \<notin> c_name ` set (tv ZHeader) \<and>
        name pluginX \<in> c_name ` set (tv ZFooter) \<and>
        name pluginX \<in> c_name ` set (dv ZHeader)"
    by (rule C7_page_type_override_moves_plugin
          [of pluginX "[pluginX]" _ "''list''" listLayout "[(''list'', listOverride)]" listOverride
              "[(''pluginX'', JStr ''footer'')]" dv tv, OF _ _ l _ _ _ _ _ _ _ dv tv])
       (simp_all add: pluginX_def listLayout_def listOverride_def)
  then have "''pluginX'' \<notin> c_name ` set (tv ZHeader) \<and>
        ''pluginX'' \<in> c_name ` set (tv ZFooter) \<and>
        ''pluginX'' \<in> c_name ` set (dv ZHeader)"
    by (simp add: pluginX_def)
  with dv tv show ?thesis by blast
qed

text \<open>An enabled plugin whose layout position is a name every object inherits.\<close>

definition inheritedPosition :: EnrichedPlugin where
  "inheritedPosition =
     \<lparr>index = 0, name = ''explorer'', displayName = ''Explorer'', enabled = True, options = [],
      layout = Some \<lparr>position = ''toString'', priority = 50, display = None, condition = None,
                     group = None, groupOptions = None\<rparr>,
      manifest = None\<rparr>"

text \<open>
  Claim C9: every component in any zone of the zone grid comes from a plugin that
  is enabled and has a layout entry whose position is one of the six zones, and a
  layout entry whose position names anything outside that set is silently omitted
  from every zone.

  The first half is \<open>getZoneComponents_sound\<close>. For the second, evaluated on an
  enabled plugin whose layout position is \<^verbatim>\<open>"toString"\<close>: the test
  \<^verbatim>\<open>position in zones\<close> holds, since every object inherits a property of that
  name, and \<^verbatim>\<open>zones["toString"].push(...)\<close> throws instead of omitting the entry.
\<close>

theorem C9_inherited_position_throws:
  "getZoneComponents [inheritedPosition] = Inl TypeError"
  by (simp add: getZoneComponents_def inheritedPosition_def in_zones_def zone_of_def ZONES_def
        object_prototype_keys_def)

section \<open>The Settings panel (\<^verbatim>\<open>SettingsPanel.tsx\<close>)\<close>

subsection \<open>The flattened configuration tree\<close>

text \<open>
  \<^verbatim>\<open>interface FlatEntry { keyPath; displayKey; value; depth; isObject }\<close>; the
  field \<^verbatim>\<open>value\<close> is \<open>entryValue\<close> here. \<open>props\<close> is \<^verbatim>\<open>Object.entries\<close> on the
  value the source casts to a record.
\<close>

record FlatEntry =
  keyPath :: "string list"
  displayKey :: string
  entryValue :: jv
  depth :: nat
  isObject :: bool

fun props :: "jv \<Rightarrow> (string \<times> jv) list" where
  "props (JObj kvs) = kvs"
| "props _ = []"

lemma size_props: "size_list (size_prod (\<lambda>_. 0) size) (props v) \<le> size v"
  by (cases v) auto

text \<open>
  \<^verbatim>\<open>
  function flattenConfig(obj, prefix = [], depth = 0) {
    for (const [key, value] of Object.entries(obj)) {
      const keyPath = [...prefix, key];
      if (value !== null && typeof value === "object" && !Array.isArray(value)) {
        entries.push({ keyPath, displayKey: key, value, depth, isObject: true });
        entries.push(...flattenConfig(value, keyPath, depth + 1));
      } else {
        entries.push({ keyPath, displayKey: key, value, depth, isObject: false });
      }
    }
    return entries;
  }
  \<close>
\<close>

function flattenConfig :: "(string \<times> jv) list \<Rightarrow> string list \<Rightarrow> nat \<Rightarrow> FlatEntry list" where
  "flattenConfig [] pre d = []"
| "flattenConfig ((k, v) # rest) pre d =
     (let kp = pre @ [k] in
      (if v \<noteq> JNull \<and> typeof v = TObject \<and> \<not> isArray v
       then \<lparr>keyPath = kp, displayKey = k, entryValue = v, depth = d, isObject = True\<rparr>
            # flattenConfig (props v) kp (d + 1)
       else [\<lparr>keyPath = kp, displayKey = k, entryValue = v, depth = d, isObject = False\<rparr>])
      @ flattenConfig rest pre d)"
  by pat_completeness auto
termination
proof (relation "measure (\<lambda>(obj, _, _). size_list (size_prod (\<lambda>_. 0) size) obj)")
  fix k :: string and v :: jv and rest :: "(string \<times> jv) list" and pre :: "string list"
    and d :: nat and kp :: "string list"
  show "((props v, kp, d + 1), (k, v) # rest, pre, d)
        \<in> measure (\<lambda>(obj, _, _). size_list (size_prod (\<lambda>_. 0) size) obj)"
    using size_props [of v] by simp
qed simp_all

text \<open>
  \<^verbatim>\<open>Array.prototype.join\<close> on strings, \<^verbatim>\<open>String(v)\<close>, \<^verbatim>\<open>Boolean(v)\<close>,
  \<^verbatim>\<open>Array.prototype.indexOf\<close> and the read \<^verbatim>\<open>xs[i]\<close>, which is \<^verbatim>\<open>undefined\<close>
  (\<open>None\<close>) outside the array.
\<close>

fun joinWith :: "string \<Rightarrow> string list \<Rightarrow> string" where
  "joinWith sep [] = []"
| "joinWith sep [x] = x"
| "joinWith sep (x # y # zs) = x @ sep @ joinWith sep (y # zs)"

definition intString :: "int \<Rightarrow> string" where
  "intString n = (if n < 0 then ''-'' @ index_string (nat (- n)) else index_string (nat n))"

fun toStr :: "jv \<Rightarrow> string" where
  "toStr JUndefined = ''undefined''"
| "toStr JNull = ''null''"
| "toStr (JBool b) = (if b then ''true'' else ''false'')"
| "toStr (JNum n) = intString n"
| "toStr (JStr s) = s"
| "toStr (JArr xs) =
     joinWith '','' (map (\<lambda>x. if x = JNull \<or> x = JUndefined then [] else toStr x) xs)"
| "toStr (JObj kvs) = ''[object Object]''"

fun toBoolean :: "jv \<Rightarrow> bool" where
  "toBoolean JUndefined = False"
| "toBoolean JNull = False"
| "toBoolean (JBool b) = b"
| "toBoolean (JNum n) = (n \<noteq> 0)"
| "toBoolean (JStr s) = (s \<noteq> [])"
| "toBoolean (JArr xs) = True"
| "toBoolean (JObj kvs) = True"

definition indexOf :: "'a list \<Rightarrow> 'a \<Rightarrow> int" where
  "indexOf xs x = (case List.find (\<lambda>i. xs ! i = x) [0..<length xs] of
                     Some i \<Rightarrow> int i | None \<Rightarrow> - 1)"

definition at :: "'a list \<Rightarrow> int \<Rightarrow> 'a option" where
  "at xs i = (if 0 \<le> i \<and> i < int (length xs) then Some (xs ! nat i) else None)"

text \<open>
  \<^verbatim>\<open>
  function getFieldSchema(keyPath) {
    const path = keyPath.join(".");
    if (["enableSPA", "enablePopovers", "theme.cdnCaching"].includes(path))
      return { type: "boolean" };
    if (path === "theme.fontOrigin")
      return { type: "enum", enumValues: ["googleFonts", "local"] };
    if (path === "defaultDateType")
      return { type: "enum", enumValues: ["created", "modified", "published"] };
    if (path === "ignorePatterns") return { type: "array" };
    if (path.match(/^theme\.colors\.(lightMode|darkMode)\./)) return { type: "color" };
    return { type: "string" };
  }
  \<close>
  The pattern is anchored at the start only, so it matches when the matcher
  leaves any rest at all. No path is given the type \<^verbatim>\<open>"number"\<close>: a field
  holding a number is edited as free text.
\<close>

datatype ftype = FBoolean | FString | FEnum | FArray | FNumber | FObject | FColor

record FieldSchema =
  ftype :: ftype
  enumValues :: "string list option"

definition lit :: "string \<Rightarrow> rx" where
  "lit w = foldr (\<lambda>c r. Seq (Chr c) r) w Eps"

definition COLOR_PATH_REGEX :: rx where
  "COLOR_PATH_REGEX =
     Seq (lit ''theme.colors.'') (Seq (Alt (lit ''lightMode'') (lit ''darkMode'')) (Chr CHR ''.''))"

definition getFieldSchema :: "string list \<Rightarrow> FieldSchema" where
  "getFieldSchema kp =
     (let path = joinWith ''.'' kp in
      if path \<in> set [''enableSPA'', ''enablePopovers'', ''theme.cdnCaching'']
      then \<lparr>ftype = FBoolean, enumValues = None\<rparr>
      else if path = ''theme.fontOrigin''
      then \<lparr>ftype = FEnum, enumValues = Some [''googleFonts'', ''local'']\<rparr>
      else if path = ''defaultDateType''
      then \<lparr>ftype = FEnum, enumValues = Some [''created'', ''modified'', ''published'']\<rparr>
      else if path = ''ignorePatterns''
      then \<lparr>ftype = FArray, enumValues = None\<rparr>
      else if rests COLOR_PATH_REGEX path \<noteq> []
      then \<lparr>ftype = FColor, enumValues = None\<rparr>
      else \<lparr>ftype = FString, enumValues = None\<rparr>)"

text \<open>
  \<^verbatim>\<open>
  function parseJsonOrString(value) {
    try { return JSON.parse(value); } catch { return value; }
  }
  \<close>
  \<^verbatim>\<open>JSON.parse\<close> is a parameter of the model: \<open>None\<close> where it throws.
\<close>

definition parseJsonOrString :: "(string \<Rightarrow> jv option) \<Rightarrow> string \<Rightarrow> jv" where
  "parseJsonOrString JSON_parse v = (case JSON_parse v of Some parsed \<Rightarrow> parsed | None \<Rightarrow> JStr v)"

text \<open>
  From \<^verbatim>\<open>lib/config.ts\<close>, as the hook \<^verbatim>\<open>useSettings\<close> calls them:
  \<^verbatim>\<open>
  export function getGlobalConfig() {
    const pluginsJson = readPluginsJson();
    return (pluginsJson?.configuration as Record<string, unknown>) ?? null;
  }
  export function updateGlobalConfig(updates) {
    const json = readPluginsJson();
    if (!json) return false;
    json.configuration = { ...json.configuration, ...updates };
    writePluginsJson(json);
    return true;
  }
  \<close>
  The configuration is read as the record its cast asserts: a document whose
  \<^verbatim>\<open>configuration\<close> is not an object is read as having none. The spread
  \<^verbatim>\<open>{ ...v }\<close> copies the own enumerable properties of \<open>v\<close>: those of an object,
  the elements of an array under their indices, the characters of a string
  under theirs, and nothing of any other value.
\<close>

fun spread :: "jv \<Rightarrow> (string \<times> jv) list" where
  "spread (JObj kvs) = kvs"
| "spread (JArr xs) = zip (map index_string [0..<length xs]) xs"
| "spread (JStr cs) = zip (map index_string [0..<length cs]) (map (\<lambda>c. JStr [c]) cs)"
| "spread _ = []"

definition getGlobalConfig :: "fs \<Rightarrow> (string \<times> jv) list option" where
  "getGlobalConfig disk =
     (case readPluginsJson disk of
        None \<Rightarrow> None
      | Some pluginsJson \<Rightarrow>
          (case getProp (JObj pluginsJson) ''configuration'' of
             JObj c \<Rightarrow> Some c
           | _ \<Rightarrow> None))"

definition updateGlobalConfig :: "fs \<Rightarrow> (string \<times> jv) list \<Rightarrow> fs \<times> bool" where
  "updateGlobalConfig disk updates =
     (case readPluginsJson disk of
        None \<Rightarrow> (disk, False)
      | Some json \<Rightarrow>
          (let merged = foldl (\<lambda>c kv. AList.update (fst kv) (snd kv) c)
                          (spread (getProp (JObj json) ''configuration'')) updates;
               json' = AList.update ''configuration'' (JObj merged) json
           in (writePluginsJson disk json', True)))"

subsection \<open>The state of the panel\<close>

text \<open>
  The application hands every panel \<^verbatim>\<open>notify(message, type)\<close> and
  \<^verbatim>\<open>onFocusChange(focused)\<close>; their effect is kept as the list of notices and the
  focus flag. The Settings panel holds the \<^verbatim>\<open>useState\<close> cells of the source,
  \<^verbatim>\<open>config\<close> of the hook \<^verbatim>\<open>useSettings\<close>, the default configuration memoized on
  mount, and the files it reads and writes.
  \<^verbatim>\<open>
  const defaultConfig = useMemo(() => {
    const data = readDefaultPluginsJson();
    return (data?.configuration as Record<string, unknown>) ?? null;
  }, []);
  \<close>
  Like \<^verbatim>\<open>config\<close>, the default configuration is read as the record its cast
  asserts.
\<close>

datatype ntype = Success | Error | Info

record app =
  notifications :: "(string \<times> ntype) list"
  panelFocused :: bool

datatype sview = SList | SEditString | SEditBoolean | SEditEnum | SEditArray | SEditColor

record settings_state = app +
  disk :: fs
  defaultConfig :: "(string \<times> jv) list option"
  config :: "(string \<times> jv) list option"
  view :: sview
  editingEntry :: "FlatEntry option"
  highlightedIndex :: int
  highlightedBoolIndex :: int
  highlightedEnumIndex :: int
  highlightedArrayIndex :: int
  arrayItems :: "string list"
  addingArrayItem :: bool
  editingArrayItemIndex :: "int option"
  colorError :: "string option"
  collapsed :: "string set"

definition notify :: "string \<Rightarrow> ntype \<Rightarrow> 'a app_scheme \<Rightarrow> 'a app_scheme" where
  "notify msg ty s = s\<lparr>notifications := notifications s @ [(msg, ty)]\<rparr>"

definition onFocusChange :: "bool \<Rightarrow> 'a app_scheme \<Rightarrow> 'a app_scheme" where
  "onFocusChange b s = s\<lparr>panelFocused := b\<rparr>"

text \<open>
  \<^verbatim>\<open>
  const allEntries = useMemo(() => (!config ? [] : flattenConfig(config)), [config]);
  const visibleEntries = useMemo(() =>
    allEntries.filter((entry) => {
      for (let i = entry.keyPath.length - 1; i > 0; i--) {
        const parentPath = entry.keyPath.slice(0, i).join(".");
        if (collapsed.has(parentPath)) return false;
      }
      return true;
    }), [allEntries, collapsed]);
  \<close>
\<close>

definition allEntries :: "settings_state \<Rightarrow> FlatEntry list" where
  "allEntries s = (case config s of None \<Rightarrow> [] | Some c \<Rightarrow> flattenConfig c [] 0)"

definition isVisible :: "string set \<Rightarrow> FlatEntry \<Rightarrow> bool" where
  "isVisible coll entry \<longleftrightarrow>
     list_all (\<lambda>i. joinWith ''.'' (take i (keyPath entry)) \<notin> coll)
       (rev [1..<length (keyPath entry)])"

definition visibleEntries :: "settings_state \<Rightarrow> FlatEntry list" where
  "visibleEntries s = filter (isVisible (collapsed s)) (allEntries s)"

text \<open>
  \<^verbatim>\<open>
  const exitEdit = () => {
    setView("list"); setEditingEntry(null); setAddingArrayItem(false);
    setEditingArrayItemIndex(null); setColorError(null); onFocusChange(false);
  };
  const updateField = (key, value) => { updateGlobalConfig({ [key]: value }); refresh(); };
  const applyValue = (keyPath, value, exitAfterSave = true) => {
    if (!config) return;
    if (keyPath.length === 1) {
      updateField(keyPath[0], value);
    } else {
      const fullConfig = { ...config };
      setNestedValue(fullConfig, keyPath, value);
      updateField(keyPath[0], fullConfig[keyPath[0]]);
    }
    notify(`Set ${keyPath.join(".")}`, "success");
    if (exitAfterSave) exitEdit();
  };
  \<close>
  A handler that throws leaves the state as it was and returns the error.
\<close>

definition exitEdit :: "settings_state \<Rightarrow> settings_state" where
  "exitEdit s =
     onFocusChange False
       (s\<lparr>view := SList, editingEntry := None, addingArrayItem := False,
          editingArrayItemIndex := None, colorError := None\<rparr>)"

definition updateField :: "string \<Rightarrow> jv \<Rightarrow> settings_state \<Rightarrow> settings_state" where
  "updateField k v s =
     (let disk' = fst (updateGlobalConfig (disk s) [(k, v)])
      in s\<lparr>disk := disk', config := getGlobalConfig disk'\<rparr>)"

definition applyValue ::
  "string list \<Rightarrow> jv \<Rightarrow> bool \<Rightarrow> settings_state \<Rightarrow> settings_state \<times> error option" where
  "applyValue kp v exitAfterSave s =
     (case config s of
        None \<Rightarrow> (s, None)
      | Some c \<Rightarrow>
          (case (if length kp = 1 then Inr (updateField (kp ! 0) v s)
                 else (case setNestedValue c kp v of
                         Inl e \<Rightarrow> Inl e
                       | Inr fullConfig \<Rightarrow>
                           (let k0 = (case kp of [] \<Rightarrow> ''undefined'' | k # _ \<Rightarrow> k)
                            in Inr (updateField k0 (getProp (JObj fullConfig) k0) s)))) of
             Inl e \<Rightarrow> (s, Some e)
           | Inr s1 \<Rightarrow>
               (let s2 = notify (''Set '' @ joinWith ''.'' kp) Success s1
                in (if exitAfterSave then exitEdit s2 else s2, None))))"

text \<open>
  \<^verbatim>\<open>enterEdit(entry)\<close> opens the editor the schema of the key path names; every
  path without a schema, whatever its value, opens the free-text editor
  \<^verbatim>\<open>"edit-string"\<close>.
\<close>

definition enterEdit :: "FlatEntry \<Rightarrow> settings_state \<Rightarrow> settings_state" where
  "enterEdit entry s =
     (let schema = getFieldSchema (keyPath entry);
          s1 = s\<lparr>editingEntry := Some entry, addingArrayItem := False,
                 editingArrayItemIndex := None\<rparr>;
          s2 = (if ftype schema = FBoolean
                then s1\<lparr>highlightedBoolIndex := (if toBoolean (entryValue entry) then 0 else 1),
                        view := SEditBoolean\<rparr>
                else if ftype schema = FEnum
                then (case enumValues schema of
                        Some vs \<Rightarrow>
                          (let idx = indexOf vs (toStr (entryValue entry))
                           in s1\<lparr>highlightedEnumIndex := (if idx \<ge> 0 then idx else 0)\<rparr>)
                      | None \<Rightarrow> s1)\<lparr>view := SEditEnum\<rparr>
                else if ftype schema = FArray
                then s1\<lparr>arrayItems := (if isArray (entryValue entry)
                                         then map toStr (elems (entryValue entry)) else []),
                        highlightedArrayIndex := 0, view := SEditArray\<rparr>
                else if ftype schema = FColor
                then s1\<lparr>colorError := None, view := SEditColor\<rparr>
                else s1\<lparr>view := SEditString\<rparr>)
      in onFocusChange True s2)"

text \<open>
  The keyboard handler of the list view:
  \<^verbatim>\<open>
  useKeyboard((event) => {
    if (view !== "list") return;
    const count = visibleEntries.length;
    if (count === 0) return;
    if (event.name === "up") setHighlightedIndex((prev) => (prev > 0 ? prev - 1 : count - 1));
    if (event.name === "down") setHighlightedIndex((prev) => (prev < count - 1 ? prev + 1 : 0));
    if (event.name === "return") {
      const entry = visibleEntries[highlightedIndex];
      if (!entry) return;
      if (entry.isObject) { /* toggle entry.keyPath.join(".") in collapsed */ }
      else enterEdit(entry);
    }
    if (event.name === "d" && event.shift) {
      const entry = visibleEntries[highlightedIndex];
      if (!entry) return;
      const defaultValue = getDefaultSettingValue(defaultConfig, entry.keyPath);
      if (defaultValue === undefined) {
        notify("No default available for " + entry.keyPath.join("."), "error");
        return;
      }
      if (deepEqual(entry.value, defaultValue)) {
        notify(entry.keyPath.join(".") + " is already default", "info");
        return;
      }
      applyValue(entry.keyPath, defaultValue);
      notify("Restored " + entry.keyPath.join(".") + " to default", "success");
    }
  });
  \<close>
  When the default found is a built-in object, \<^verbatim>\<open>applyValue\<close> is called with it;
  what the serializer does with such a value is not part of the model
  (\<open>Unsupported\<close>).
\<close>

record key_event =
  key_name :: string
  shift :: bool

definition listKeyboard :: "key_event \<Rightarrow> settings_state \<Rightarrow> settings_state \<times> error option" where
  "listKeyboard event s =
     (let count = int (length (visibleEntries s)) in
      if count = 0 then (s, None)
      else if key_name event = ''up''
      then (s\<lparr>highlightedIndex :=
                (if highlightedIndex s > 0 then highlightedIndex s - 1 else count - 1)\<rparr>, None)
      else if key_name event = ''down''
      then (s\<lparr>highlightedIndex :=
                (if highlightedIndex s < count - 1 then highlightedIndex s + 1 else 0)\<rparr>, None)
      else if key_name event = ''return''
      then (case at (visibleEntries s) (highlightedIndex s) of
              None \<Rightarrow> (s, None)
            | Some entry \<Rightarrow>
                if isObject entry
                then (let path = joinWith ''.'' (keyPath entry)
                      in (s\<lparr>collapsed := (if path \<in> collapsed s then collapsed s - {path}
                                           else insert path (collapsed s))\<rparr>, None))
                else (enterEdit entry s, None))
      else if key_name event = ''d'' \<and> shift event
      then (case at (visibleEntries s) (highlightedIndex s) of
              None \<Rightarrow> (s, None)
            | Some entry \<Rightarrow>
                (let defaultValue = getDefaultSettingValue (defaultConfig s) (keyPath entry);
                     path = joinWith ''.'' (keyPath entry)
                 in if defaultValue = Data JUndefined
                    then (notify (''No default available for '' @ path) Error s, None)
                    else if deepEqual (Data (entryValue entry)) defaultValue
                    then (notify (path @ '' is already default'') Info s, None)
                    else (case defaultValue of
                            Data v \<Rightarrow>
                              (case applyValue (keyPath entry) v True s of
                                 (s1, Some e) \<Rightarrow> (s1, Some e)
                               | (s1, None) \<Rightarrow>
                                   (notify (''Restored '' @ path @ '' to default'') Success s1,
                                    None))
                          | _ \<Rightarrow> (s, Some Unsupported))))
      else (s, None))"

subsection \<open>The editors\<close>

text \<open>
  The keyboard handlers of the boolean, enum and array editors, each guarded by
  \<^verbatim>\<open>if (view !== "edit-..." || !editingEntry) return;\<close>. In the array editor the
  moves with Shift exchange two neighbours of the item list; exchanging with an
  index outside the list would write a hole into the array, which is not a
  value of this model (\<open>Unsupported\<close>).
\<close>

definition booleanKeyboard :: "key_event \<Rightarrow> settings_state \<Rightarrow> settings_state \<times> error option" where
  "booleanKeyboard event s =
     (case editingEntry s of
        None \<Rightarrow> (s, None)
      | Some entry \<Rightarrow>
          if key_name event = ''escape'' then (exitEdit s, None)
          else if key_name event = ''up'' \<or> key_name event = ''down''
          then (s\<lparr>highlightedBoolIndex := (if highlightedBoolIndex s = 0 then 1 else 0)\<rparr>, None)
          else if key_name event = ''return''
          then applyValue (keyPath entry) (JBool (highlightedBoolIndex s = 0)) True s
          else (s, None))"

definition enumKeyboard :: "key_event \<Rightarrow> settings_state \<Rightarrow> settings_state \<times> error option" where
  "enumKeyboard event s =
     (case editingEntry s of
        None \<Rightarrow> (s, None)
      | Some entry \<Rightarrow>
          (let schema = getFieldSchema (keyPath entry);
               vs = (if ftype schema = FEnum
                     then (case enumValues schema of Some xs \<Rightarrow> xs | None \<Rightarrow> []) else []);
               len = int (length vs)
           in if key_name event = ''escape'' then (exitEdit s, None)
              else if key_name event = ''up'' \<or> key_name event = ''down''
              then (if len = 0 then (s, None)
                    else (s\<lparr>highlightedEnumIndex :=
                            (if key_name event = ''up''
                             then (if highlightedEnumIndex s > 0 then highlightedEnumIndex s - 1
                                   else len - 1)
                             else (if highlightedEnumIndex s < len - 1
                                   then highlightedEnumIndex s + 1 else 0))\<rparr>, None))
              else if key_name event = ''return''
              then (case at vs (highlightedEnumIndex s) of
                      Some selected \<Rightarrow> applyValue (keyPath entry) (JStr selected) True s
                    | None \<Rightarrow> (s, None))
              else (s, None)))"

definition removeAt :: "int \<Rightarrow> 'a list \<Rightarrow> 'a list" where
  "removeAt idx xs = map snd (filter (\<lambda>ix. int (fst ix) \<noteq> idx) (enumerate 0 xs))"

definition swapAt :: "nat \<Rightarrow> nat \<Rightarrow> 'a list \<Rightarrow> 'a list" where
  "swapAt i j xs = xs[i := xs ! j, j := xs ! i]"

definition arrayKeyboard :: "key_event \<Rightarrow> settings_state \<Rightarrow> settings_state \<times> error option" where
  "arrayKeyboard event s =
     (case editingEntry s of
        None \<Rightarrow> (s, None)
      | Some entry \<Rightarrow>
          if addingArrayItem s \<or> editingArrayItemIndex s \<noteq> None
          then (if key_name event = ''escape''
                then (s\<lparr>addingArrayItem := False, editingArrayItemIndex := None\<rparr>, None)
                else (s, None))
          else if key_name event = ''escape'' then (exitEdit s, None)
          else
            (let count = int (length (arrayItems s)); idx = highlightedArrayIndex s in
             if key_name event = ''up'' \<and> count > 0 \<and> \<not> shift event
             then (s\<lparr>highlightedArrayIndex := (if idx > 0 then idx - 1 else count - 1)\<rparr>, None)
             else if key_name event = ''down'' \<and> count > 0 \<and> \<not> shift event
             then (s\<lparr>highlightedArrayIndex := (if idx < count - 1 then idx + 1 else 0)\<rparr>, None)
             else if key_name event = ''n''
             then (s\<lparr>addingArrayItem := True\<rparr>, None)
             else if key_name event = ''return'' \<and> count > 0
             then (s\<lparr>editingArrayItemIndex := Some idx\<rparr>, None)
             else if key_name event = ''x'' \<and> count > 0
             then (let nextItems = removeAt idx (arrayItems s)
                   in applyValue (keyPath entry) (JArr (map JStr nextItems)) False
                        (s\<lparr>arrayItems := nextItems,
                           highlightedArrayIndex :=
                             max 0 (min idx (int (length nextItems) - 1))\<rparr>))
             else if key_name event = ''up'' \<and> shift event \<and> idx > 0
             then (if idx < count
                   then (let nextItems = swapAt (nat idx - 1) (nat idx) (arrayItems s)
                         in applyValue (keyPath entry) (JArr (map JStr nextItems)) False
                              (s\<lparr>arrayItems := nextItems, highlightedArrayIndex := idx - 1\<rparr>))
                   else (s, Some Unsupported))
             else if key_name event = ''down'' \<and> shift event \<and> idx < count - 1
             then (if 0 \<le> idx
                   then (let nextItems = swapAt (nat idx) (nat idx + 1) (arrayItems s)
                         in applyValue (keyPath entry) (JArr (map JStr nextItems)) False
                              (s\<lparr>arrayItems := nextItems, highlightedArrayIndex := idx + 1\<rparr>))
                   else (s, Some Unsupported))
             else (s, None)))"

definition textKeyboard :: "key_event \<Rightarrow> settings_state \<Rightarrow> settings_state \<times> error option" where
  "textKeyboard event s = (if key_name event = ''escape'' then (exitEdit s, None) else (s, None))"

text \<open>
  The \<^verbatim>\<open>onSubmit\<close> handlers of the three text inputs. The color editor rejects in
  place: it sets \<^verbatim>\<open>colorError\<close> and returns without leaving the editor. The
  free-text editor applies whatever the text parses to:
  \<^verbatim>\<open>
  onSubmit={(value: string) => {
    const parsed = parseJsonOrString(value);
    applyValue(editingEntry.keyPath, parsed);
  }}
  \<close>
\<close>

definition thenDo ::
  "settings_state \<times> error option \<Rightarrow> (settings_state \<Rightarrow> settings_state) \<Rightarrow>
   settings_state \<times> error option" where
  "thenDo r f = (case r of (s, None) \<Rightarrow> (f s, None) | (s, Some e) \<Rightarrow> (s, Some e))"

definition arraySubmit :: "string \<Rightarrow> settings_state \<Rightarrow> settings_state \<times> error option" where
  "arraySubmit v s =
     (case editingEntry s of
        None \<Rightarrow> (s, None)
      | Some entry \<Rightarrow>
          (let trimmed = trim v in
           if trimmed = []
           then (s\<lparr>addingArrayItem := False, editingArrayItemIndex := None\<rparr>, None)
           else (case editingArrayItemIndex s of
                   Some idx \<Rightarrow>
                     if 0 \<le> idx \<and> idx < int (length (arrayItems s))
                     then (let nextItems = (arrayItems s)[nat idx := trimmed]
                           in thenDo (applyValue (keyPath entry) (JArr (map JStr nextItems)) False
                                        (s\<lparr>arrayItems := nextItems\<rparr>))
                                (\<lambda>s1. s1\<lparr>editingArrayItemIndex := None\<rparr>))
                     else (s, Some Unsupported)
                 | None \<Rightarrow>
                     (let nextItems = arrayItems s @ [trimmed]
                      in thenDo (applyValue (keyPath entry) (JArr (map JStr nextItems)) False
                                   (s\<lparr>arrayItems := nextItems,
                                      highlightedArrayIndex :=
                                        max 0 (int (length nextItems) - 1)\<rparr>))
                           (\<lambda>s1. s1\<lparr>addingArrayItem := False\<rparr>)))))"

definition colorSubmit :: "string \<Rightarrow> settings_state \<Rightarrow> settings_state \<times> error option" where
  "colorSubmit v s =
     (case editingEntry s of
        None \<Rightarrow> (s, None)
      | Some entry \<Rightarrow>
          (let trimmed = trim v in
           if \<not> isValidColorValue trimmed
           then (s\<lparr>colorError := Some
                   ''Invalid color. Use #RGB, #RRGGBB, #RRGGBBAA, or a CSS color function like rgba(...)''\<rparr>,
                 None)
           else applyValue (keyPath entry) (JStr trimmed) True (s\<lparr>colorError := None\<rparr>)))"

definition stringSubmit ::
  "(string \<Rightarrow> jv option) \<Rightarrow> string \<Rightarrow> settings_state \<Rightarrow> settings_state \<times> error option" where
  "stringSubmit JSON_parse v s =
     (case editingEntry s of
        None \<Rightarrow> (s, None)
      | Some entry \<Rightarrow> applyValue (keyPath entry) (parseJsonOrString JSON_parse v) True s)"

subsection \<open>Events, effects and the reachable states\<close>

text \<open>
  An event is a key press or the submission of a text input; the view decides
  which handler sees it. After the handler the effect
  \<^verbatim>\<open>
  useEffect(() => {
    if (highlightedIndex >= visibleEntries.length) {
      setHighlightedIndex(Math.max(0, visibleEntries.length - 1));
    }
  }, [highlightedIndex, visibleEntries.length]);
  \<close>
  runs when one of its two dependencies differs from the previous render. The
  other effect of the panel writes only the cursors of the boolean, enum and
  array editors, with the values \<open>enterEdit\<close> has set already. A step is a
  handler followed by the effect; the reachable states are those that steps
  lead to from the mounted panel.
\<close>

datatype s_event = Key key_event | Submit string

definition settingsEvent ::
  "(string \<Rightarrow> jv option) \<Rightarrow> s_event \<Rightarrow> settings_state \<Rightarrow> settings_state \<times> error option" where
  "settingsEvent JSON_parse ev s =
     (case ev of
        Key event \<Rightarrow>
          (case view s of
             SList \<Rightarrow> listKeyboard event s
           | SEditBoolean \<Rightarrow> booleanKeyboard event s
           | SEditEnum \<Rightarrow> enumKeyboard event s
           | SEditArray \<Rightarrow> arrayKeyboard event s
           | SEditString \<Rightarrow> textKeyboard event s
           | SEditColor \<Rightarrow> textKeyboard event s)
      | Submit v \<Rightarrow>
          (case view s of
             SEditArray \<Rightarrow> arraySubmit v s
           | SEditColor \<Rightarrow> colorSubmit v s
           | SEditString \<Rightarrow> stringSubmit JSON_parse v s
           | _ \<Rightarrow> (s, None)))"

definition clampHighlighted :: "settings_state \<Rightarrow> settings_state \<Rightarrow> settings_state" where
  "clampHighlighted prev s =
     (if highlightedIndex prev \<noteq> highlightedIndex s \<or>
         length (visibleEntries prev) \<noteq> length (visibleEntries s)
      then (if highlightedIndex s \<ge> int (length (visibleEntries s))
            then s\<lparr>highlightedIndex := max 0 (int (length (visibleEntries s)) - 1)\<rparr>
            else s)
      else s)"

definition settingsStep ::
  "(string \<Rightarrow> jv option) \<Rightarrow> s_event \<Rightarrow> settings_state \<Rightarrow> settings_state \<times> error option" where
  "settingsStep JSON_parse ev s =
     (case settingsEvent JSON_parse ev s of
        (s', None) \<Rightarrow> (clampHighlighted s s', None)
      | (s', Some e) \<Rightarrow> (s', Some e))"

definition settingsMount :: "fs \<Rightarrow> settings_state" where
  "settingsMount d =
     \<lparr>notifications = [], panelFocused = False, disk = d,
      defaultConfig = (case readDefaultPluginsJson d of
                         None \<Rightarrow> None
                       | Some data \<Rightarrow> (case getProp (JObj data) ''configuration'' of
                                         JObj c \<Rightarrow> Some c | _ \<Rightarrow> None)),
      config = getGlobalConfig d, view = SList, editingEntry = None,
      highlightedIndex = 0, highlightedBoolIndex = 0, highlightedEnumIndex = 0,
      highlightedArrayIndex = 0, arrayItems = [], addingArrayItem = False,
      editingArrayItemIndex = None, colorError = None, collapsed = {}\<rparr>"

inductive settingsReachable :: "(string \<Rightarrow> jv option) \<Rightarrow> fs \<Rightarrow> settings_state \<Rightarrow> bool"
  for JSON_parse :: "string \<Rightarrow> jv option" and d :: fs where
  mounted: "settingsReachable JSON_parse d (settingsMount d)"
| stepped: "settingsReachable JSON_parse d s \<Longrightarrow> settingsStep JSON_parse ev s = (s', None) \<Longrightarrow>
            settingsReachable JSON_parse d s'"

subsection \<open>The cursor of the Settings list\<close>

text \<open>
  A cursor \<open>i\<close> is within a list of \<open>n\<close> entries when \<open>0 \<le> i < n\<close>, or when the
  list is empty and \<open>i = 0\<close>. \<open>clamped i newLength\<close> is the clamp of the
  specification: an index at or beyond the new length becomes
  \<open>max 0 (newLength - 1)\<close>, any other index stays.
\<close>

definition cursorOk :: "int \<Rightarrow> nat \<Rightarrow> bool" where
  "cursorOk i n \<longleftrightarrow> 0 \<le> i \<and> (i < int n \<or> (n = 0 \<and> i = 0))"

definition clamped :: "int \<Rightarrow> nat \<Rightarrow> int" where
  "clamped i newLength = (if i \<ge> int newLength then max 0 (int newLength - 1) else i)"

text \<open>No handler but the one of the list view moves the cursor of the list.\<close>

lemma hi_exitEdit [simp]: "highlightedIndex (exitEdit s) = highlightedIndex s"
  by (simp add: exitEdit_def onFocusChange_def)

lemma hi_updateField [simp]: "highlightedIndex (updateField k v s) = highlightedIndex s"
  by (simp add: updateField_def Let_def)

lemma hi_applyValue [simp]:
  "highlightedIndex (fst (applyValue kp v b s)) = highlightedIndex s"
  by (simp add: applyValue_def notify_def Let_def split: option.splits sum.splits)

lemma hi_enterEdit [simp]: "highlightedIndex (enterEdit entry s) = highlightedIndex s"
  by (simp add: enterEdit_def onFocusChange_def Let_def split: option.splits)

lemma hi_thenDo:
  "(\<And>x. highlightedIndex (f x) = highlightedIndex x) \<Longrightarrow>
   highlightedIndex (fst (thenDo r f)) = highlightedIndex (fst r)"
  by (cases r) (auto simp: thenDo_def split: option.splits)

lemma hi_booleanKeyboard [simp]:
  "highlightedIndex (fst (booleanKeyboard e s)) = highlightedIndex s"
  by (simp add: booleanKeyboard_def split: option.splits)

lemma hi_enumKeyboard [simp]:
  "highlightedIndex (fst (enumKeyboard e s)) = highlightedIndex s"
  by (simp add: enumKeyboard_def Let_def split: option.splits)

lemma hi_arrayKeyboard [simp]:
  "highlightedIndex (fst (arrayKeyboard e s)) = highlightedIndex s"
  by (simp add: arrayKeyboard_def Let_def split: option.splits)

lemma hi_textKeyboard [simp]:
  "highlightedIndex (fst (textKeyboard e s)) = highlightedIndex s"
  by (simp add: textKeyboard_def)

lemma hi_arraySubmit [simp]:
  "highlightedIndex (fst (arraySubmit v s)) = highlightedIndex s"
  by (simp add: arraySubmit_def Let_def hi_thenDo split: option.splits)

lemma hi_colorSubmit [simp]:
  "highlightedIndex (fst (colorSubmit v s)) = highlightedIndex s"
  by (simp add: colorSubmit_def Let_def split: option.splits)

lemma hi_stringSubmit [simp]:
  "highlightedIndex (fst (stringSubmit jp v s)) = highlightedIndex s"
  by (simp add: stringSubmit_def split: option.splits)

lemma hi_applyValueD:
  "applyValue kp v b s = (s1, r) \<Longrightarrow> highlightedIndex s1 = highlightedIndex s"
  using hi_applyValue [of kp v b s] by simp

lemma hi_listKeyboard:
  "0 \<le> highlightedIndex s \<Longrightarrow> 0 \<le> highlightedIndex (fst (listKeyboard e s))"
  by (auto simp: listKeyboard_def Let_def notify_def
           split: option.splits prod.splits unknown.splits dest: hi_applyValueD)

lemma hi_settingsEvent:
  "0 \<le> highlightedIndex s \<Longrightarrow> 0 \<le> highlightedIndex (fst (settingsEvent jp ev s))"
  by (cases ev; cases "view s") (simp_all add: settingsEvent_def hi_listKeyboard)

text \<open>
  The effect, run after a handler that left the cursor non-negative, from a
  state whose cursor was within the list.
\<close>

lemma clampHighlighted_cursor:
  assumes "cursorOk (highlightedIndex s) (length (visibleEntries s))"
    and "0 \<le> highlightedIndex s'"
  shows "highlightedIndex (clampHighlighted s s') =
           (if highlightedIndex s' \<ge> int (length (visibleEntries s'))
            then max 0 (int (length (visibleEntries s')) - 1) else highlightedIndex s')"
    and "visibleEntries (clampHighlighted s s') = visibleEntries s'"
  using assms
  by (auto simp: clampHighlighted_def cursorOk_def visibleEntries_def allEntries_def)

lemma clampHighlighted_ok:
  assumes "cursorOk (highlightedIndex s) (length (visibleEntries s))"
    and "0 \<le> highlightedIndex s'"
  shows "cursorOk (highlightedIndex (clampHighlighted s s'))
           (length (visibleEntries (clampHighlighted s s')))"
  unfolding clampHighlighted_cursor [OF assms] using assms(2)
  by (auto simp: cursorOk_def)

lemma settingsStep_ok:
  assumes "cursorOk (highlightedIndex s) (length (visibleEntries s))"
    and "settingsStep jp ev s = (s', None)"
  shows "cursorOk (highlightedIndex s') (length (visibleEntries s'))"
proof -
  from assms(2) obtain s1 where e: "settingsEvent jp ev s = (s1, None)"
    and s': "s' = clampHighlighted s s1"
    by (auto simp: settingsStep_def split: prod.splits option.splits)
  from assms(1) have "0 \<le> highlightedIndex s" by (simp add: cursorOk_def)
  from hi_settingsEvent [OF this, of jp ev] e have "0 \<le> highlightedIndex s1" by simp
  from clampHighlighted_ok [OF assms(1) this] s' show ?thesis by simp
qed

lemma settingsMount_ok:
  "cursorOk (highlightedIndex (settingsMount d)) (length (visibleEntries (settingsMount d)))"
  by (simp add: settingsMount_def cursorOk_def)

lemma settingsReachable_ok:
  "settingsReachable jp d s \<Longrightarrow> cursorOk (highlightedIndex s) (length (visibleEntries s))"
  by (induction rule: settingsReachable.induct) (auto intro: settingsMount_ok settingsStep_ok)

lemma clampHighlighted_same:
  "highlightedIndex s' = highlightedIndex s \<Longrightarrow> config s' = config s \<Longrightarrow>
   collapsed s' = collapsed s \<Longrightarrow> clampHighlighted s s' = s'"
  by (simp add: clampHighlighted_def visibleEntries_def allEntries_def)

lemma settingsStep_cursor:
  assumes "cursorOk (highlightedIndex s) (length (visibleEntries s))"
    and "settingsStep jp ev s = (s', None)"
  shows "highlightedIndex s' =
           clamped (highlightedIndex (fst (settingsEvent jp ev s))) (length (visibleEntries s'))"
proof -
  from assms(2) obtain s1 where e: "settingsEvent jp ev s = (s1, None)"
    and s': "s' = clampHighlighted s s1"
    by (auto simp: settingsStep_def split: prod.splits option.splits)
  from assms(1) have "0 \<le> highlightedIndex s" by (simp add: cursorOk_def)
  from hi_settingsEvent [OF this, of jp ev] e have "0 \<le> highlightedIndex s1" by simp
  from clampHighlighted_cursor [OF assms(1) this] e s' show ?thesis by (simp add: clamped_def)
qed

lemma clampHighlighted_fields:
  "view (clampHighlighted p s) = view s"
  "config (clampHighlighted p s) = config s"
  "notifications (clampHighlighted p s) = notifications s"
  "disk (clampHighlighted p s) = disk s"
  by (simp_all add: clampHighlighted_def)

subsection \<open>Restore to default\<close>

text \<open>
  When the lookup of the default yields \<^verbatim>\<open>undefined\<close>, Shift+D in the list view
  raises the error notice \<^verbatim>\<open>No default available for <path>\<close>; when it yields a
  value that \<open>deepEqual\<close> finds equal to the current one, it raises the info
  notice \<^verbatim>\<open><path> is already default\<close>. In both cases the step returns with the
  files and the loaded configuration as they were and the panel still in the
  list view.
\<close>

lemma restore_without_write:
  assumes "view s = SList" and "at (visibleEntries s) (highlightedIndex s) = Some entry"
  shows
    "(getDefaultSettingValue (defaultConfig s) (keyPath entry) \<noteq> Data JUndefined \<and>
      deepEqual (Data (entryValue entry))
        (getDefaultSettingValue (defaultConfig s) (keyPath entry)) \<longrightarrow>
        (\<exists>s'. settingsStep JSON_parse (Key \<lparr>key_name = ''d'', shift = True\<rparr>) s = (s', None) \<and>
              disk s' = disk s \<and> config s' = config s \<and> view s' = SList \<and>
              notifications s' = notifications s @
                [(joinWith ''.'' (keyPath entry) @ '' is already default'', Info)])) \<and>
     (getDefaultSettingValue (defaultConfig s) (keyPath entry) = Data JUndefined \<longrightarrow>
        (\<exists>s'. settingsStep JSON_parse (Key \<lparr>key_name = ''d'', shift = True\<rparr>) s = (s', None) \<and>
              disk s' = disk s \<and> config s' = config s \<and> view s' = SList \<and>
              notifications s' = notifications s @
                [(''No default available for '' @ joinWith ''.'' (keyPath entry), Error)]))"
proof -
  from assms(2) have ne: "visibleEntries s \<noteq> []" by (auto simp: at_def split: if_splits)
  have c: "\<And>m t. clampHighlighted s (notify m t s) = notify m t s"
    by (rule clampHighlighted_same) (simp_all add: notify_def)
  have f: "\<And>m t. disk (notify m t s) = disk s \<and> config (notify m t s) = config s \<and>
      view (notify m t s) = view s \<and> notifications (notify m t s) = notifications s @ [(m, t)]"
    by (simp add: notify_def)
  show ?thesis
    using assms ne f
    by (simp add: settingsStep_def settingsEvent_def listKeyboard_def Let_def c)
qed

text \<open>
  In particular a field whose current value is the value the shipped default
  holds at its path, be it an array or an object, is left as it is.
\<close>

lemma restore_at_default:
  assumes "view s = SList" and "at (visibleEntries s) (highlightedIndex s) = Some entry"
    and "getDefaultSettingValue (defaultConfig s) (keyPath entry) = Data (entryValue entry)"
    and "entryValue entry \<noteq> JUndefined"
  shows "\<exists>s'. settingsStep JSON_parse (Key \<lparr>key_name = ''d'', shift = True\<rparr>) s = (s', None) \<and>
              disk s' = disk s \<and> config s' = config s \<and> view s' = SList \<and>
              notifications s' = notifications s @
                [(joinWith ''.'' (keyPath entry) @ '' is already default'', Info)]"
  using restore_without_write [OF assms(1,2), of JSON_parse] assms(3,4)
  by (simp add: deepEqual_same)

text \<open>
  \<open>noParse\<close> stands for \<^verbatim>\<open>JSON.parse\<close> on texts that are not JSON. A
  configuration with the settings \<^verbatim>\<open>enableSPA\<close> and \<^verbatim>\<open>theme.cdnCaching\<close>, beside a
  shipped default that has only the first.
\<close>

definition noParse :: "string \<Rightarrow> jv option" where
  "noParse v = None"

definition settingsDisk :: fs where
  "settingsDisk = (\<lambda>_. Absent)
     (CONFIG_YAML_PATH := Content
        [(''configuration'', JObj [(''enableSPA'', JBool True),
                                   (''theme'', JObj [(''cdnCaching'', JBool True)])])],
      DEFAULT_CONFIG_YAML_PATH := Content
        [(''configuration'', JObj [(''enableSPA'', JBool True)])])"

text \<open>
  Two configurations beside a shipped default that defines \<^verbatim>\<open>pageTitle\<close> only: one
  has a setting named \<^verbatim>\<open>constructor\<close>, the other a setting named \<^verbatim>\<open>__proto__\<close>
  that holds an empty object. The shipped default defines neither.
\<close>

definition constructorDisk :: fs where
  "constructorDisk = (\<lambda>_. Absent)
     (CONFIG_YAML_PATH := Content [(''configuration'', JObj [(''constructor'', JStr ''mine'')])],
      DEFAULT_CONFIG_YAML_PATH := Content
        [(''configuration'', JObj [(''pageTitle'', JStr ''Quartz'')])])"

definition protoDisk :: fs where
  "protoDisk = (\<lambda>_. Absent)
     (CONFIG_YAML_PATH := Content [(''configuration'', JObj [(''__proto__'', JObj [])])],
      DEFAULT_CONFIG_YAML_PATH := Content
        [(''configuration'', JObj [(''pageTitle'', JStr ''Quartz'')])])"

text \<open>
  Claim C4: requesting restore on a field whose current value is already deeply
  equal to its default leaves the document unchanged and produces an "already
  default" notice rather than a "restored" notice; a restore request for a key
  path with no defined default is reported and performs no write.

  Evaluated with the cursor on the setting \<^verbatim>\<open>constructor\<close>, for which the shipped
  default defines nothing: \<^verbatim>\<open>defaultConfig["constructor"]\<close> is the function every
  object inherits, not \<^verbatim>\<open>undefined\<close>, and it is not equal to the current value,
  so the handler does not raise \<^verbatim>\<open>No default available for constructor\<close> and
  goes on to \<^verbatim>\<open>applyValue\<close>. With the cursor on the setting \<^verbatim>\<open>__proto__\<close> the
  lookup yields \<^verbatim>\<open>Object.prototype\<close>, which \<open>deepEqual\<close> finds equal to the empty
  object, and the request is answered with \<^verbatim>\<open>__proto__ is already default\<close>.
\<close>

theorem C4_inherited_default_not_reported:
  "map keyPath (visibleEntries (settingsMount constructorDisk)) = [[''constructor'']] \<and>
   defaultConfig (settingsMount constructorDisk) = Some [(''pageTitle'', JStr ''Quartz'')] \<and>
   getDefaultSettingValue (defaultConfig (settingsMount constructorDisk)) [''constructor''] =
     BuiltinFunction ''Object.prototype.constructor'' \<and>
   \<not> deepEqual (Data (JStr ''mine'')) (BuiltinFunction ''Object.prototype.constructor'') \<and>
   settingsStep noParse (Key \<lparr>key_name = ''d'', shift = True\<rparr>) (settingsMount constructorDisk)
     \<noteq> (notify ''No default available for constructor'' Error (settingsMount constructorDisk),
         None) \<and>
   map keyPath (visibleEntries (settingsMount protoDisk)) = [[''__proto__'']] \<and>
   getDefaultSettingValue (defaultConfig (settingsMount protoDisk)) [''__proto__''] =
     ObjectPrototype \<and>
   notifications (fst (settingsStep noParse (Key \<lparr>key_name = ''d'', shift = True\<rparr>)
     (settingsMount protoDisk))) = [(''__proto__ is already default'', Info)]"
proof -
  have e: "snd (settingsStep noParse (Key \<lparr>key_name = ''d'', shift = True\<rparr>)
             (settingsMount constructorDisk)) = Some Unsupported"
    by code_simp
  have n: "settingsStep noParse (Key \<lparr>key_name = ''d'', shift = True\<rparr>)
       (settingsMount constructorDisk)
     \<noteq> (notify ''No default available for constructor'' Error (settingsMount constructorDisk),
         None)"
    using e by (auto simp: prod_eq_iff)
  have r: "map keyPath (visibleEntries (settingsMount constructorDisk)) = [[''constructor'']]"
    "defaultConfig (settingsMount constructorDisk) = Some [(''pageTitle'', JStr ''Quartz'')]"
    "getDefaultSettingValue (defaultConfig (settingsMount constructorDisk)) [''constructor''] =
       BuiltinFunction ''Object.prototype.constructor''"
    "\<not> deepEqual (Data (JStr ''mine'')) (BuiltinFunction ''Object.prototype.constructor'')"
    "map keyPath (visibleEntries (settingsMount protoDisk)) = [[''__proto__'']]"
    "getDefaultSettingValue (defaultConfig (settingsMount protoDisk)) [''__proto__''] =
       ObjectPrototype"
    "notifications (fst (settingsStep noParse (Key \<lparr>key_name = ''d'', shift = True\<rparr>)
       (settingsMount protoDisk))) = [(''__proto__ is already default'', Info)]"
    by code_simp+
  from r n show ?thesis by (intro conjI)
qed

section \<open>The Layout panel (\<^verbatim>\<open>LayoutPanel.tsx\<close>)\<close>

text \<open>
  \<^verbatim>\<open>parseInt(value, 10)\<close>: leading white space is skipped, then an optional sign
  and the longest run of decimal digits are read; without a digit the result is
  \<^verbatim>\<open>NaN\<close> (\<open>None\<close>). The result here is the integer the digits denote; the
  source's number is the double nearest to it, the same value up to \<open>2\<^sup>5\<^sup>3\<close>.
\<close>

definition isDigit :: "char \<Rightarrow> bool" where
  "isDigit c \<longleftrightarrow> c \<in> set ''0123456789''"

definition digitValue :: "char \<Rightarrow> int" where
  "digitValue c = indexOf ''0123456789'' c"

definition parseInt :: "string \<Rightarrow> int option" where
  "parseInt v =
     (let t = dropWhile isWhiteSpace v;
          sgn = (case t of c # _ \<Rightarrow> if c = CHR ''-'' then - 1 else 1 | [] \<Rightarrow> (1::int));
          r = (case t of c # cs \<Rightarrow> if c = CHR ''-'' \<or> c = CHR ''+'' then cs else t | [] \<Rightarrow> t);
          ds = takeWhile isDigit r
      in if ds = [] then None
         else Some (sgn * foldl (\<lambda>n c. 10 * n + digitValue c) 0 ds))"

subsection \<open>The state of the panel\<close>

text \<open>
  The \<^verbatim>\<open>useState\<close> cells of the panel (\<^verbatim>\<open>view\<close> is \<open>lview\<close>), the plugin list of the
  hook \<^verbatim>\<open>usePlugins\<close> and the layout document of the hook \<^verbatim>\<open>useLayout\<close>. The
  hook writes through \<^verbatim>\<open>updatePluginEntry(plugin.index, { layout })\<close> and reads
  the list again; here the written document is the plugin list itself, each
  plugin carrying its position in the document as \<open>index\<close>. A handler that
  calls \<^verbatim>\<open>updateLayout\<close> twice looks both plugins up in the list of its render
  (\<open>shown\<close>) and writes into what is stored by then.
  \<^verbatim>\<open>
  const updateLayout = (index, layout) => {
    const plugin = plugins[index];
    if (!plugin) return;
    updatePluginEntry(plugin.index, { layout });
    refresh();
  };
  const findPluginArrayIndex = (pluginIndex) =>
    plugins.findIndex((p) => p.index === pluginIndex);
  \<close>
\<close>

datatype lview =
    LZones | LMoveZone | LEditPriority | LEditDisplay | LEditCondition
  | LConfirmRemoveLayout | LGroups | LPageTypes

record layout_state = app +
  plugins :: "EnrichedPlugin list"
  layoutConfig :: LayoutConfig
  focusColumn :: int
  focusCenterRow :: int
  drillMode :: bool
  selectedComponent :: int
  lview :: lview
  listKey :: nat
  activePageType :: string

definition reindex :: "EnrichedPlugin list \<Rightarrow> EnrichedPlugin list" where
  "reindex ps = map (\<lambda>ip. (snd ip)\<lparr>index := fst ip\<rparr>) (enumerate 0 ps)"

definition updateLayout ::
  "EnrichedPlugin list \<Rightarrow> int \<Rightarrow> layout_entry option \<Rightarrow> EnrichedPlugin list \<Rightarrow> EnrichedPlugin list" where
  "updateLayout shown i l stored =
     (case at shown i of
        None \<Rightarrow> stored
      | Some plugin \<Rightarrow>
          reindex (if index plugin < length stored
                   then stored[index plugin := (stored ! index plugin)\<lparr>layout := l\<rparr>]
                   else stored))"

definition findPluginArrayIndex :: "EnrichedPlugin list \<Rightarrow> nat \<Rightarrow> int" where
  "findPluginArrayIndex ps pluginIdx =
     (case List.find (\<lambda>i. index (ps ! i) = pluginIdx) [0..<length ps] of
        Some i \<Rightarrow> int i | None \<Rightarrow> - 1)"

text \<open>
  \<^verbatim>\<open>
  const pageTypes = useMemo(() => {
    const types = ["default"];
    if (layoutConfig.byPageType)
      for (const key of Object.keys(layoutConfig.byPageType))
        if (!types.includes(key)) types.push(key);
    return types;
  }, [layoutConfig.byPageType]);
  const getActiveZone = (): Zone => {
    if (focusColumn === 0) return "left";
    if (focusColumn === 2) return "right";
    return ["header", "beforeBody", "afterBody", "footer"][focusCenterRow];
  };
  const currentZone = getActiveZone();
  const currentComponents = zoneComponents[currentZone];
  const selectedComp = currentComponents[selectedComponent] ?? null;
  \<close>
  Reading the components of no zone throws.
\<close>

definition pageTypes :: "LayoutConfig \<Rightarrow> string list" where
  "pageTypes lc =
     foldl (\<lambda>types k. if k \<in> set types then types else types @ [k]) [''default'']
       (case byPageType lc of Some bpt \<Rightarrow> map fst bpt | None \<Rightarrow> [])"

definition getActiveZone :: "layout_state \<Rightarrow> Zone option" where
  "getActiveZone s =
     (if focusColumn s = 0 then Some ZLeft
      else if focusColumn s = 2 then Some ZRight
      else at [ZHeader, ZBeforeBody, ZAfterBody, ZFooter] (focusCenterRow s))"

definition currentComponents :: "layout_state \<Rightarrow> error + ZoneComponent list" where
  "currentComponents s =
     (case zoneComponents (plugins s) (layoutConfig s) (activePageType s) of
        Inl e \<Rightarrow> Inl e
      | Inr zc \<Rightarrow> (case getActiveZone s of None \<Rightarrow> Inl TypeError | Some zone \<Rightarrow> Inr (zc zone)))"

text \<open>
  \<^verbatim>\<open>
  const enterView = (next) => { setView(next); onFocusChange(true); };
  const exitView = () => {
    setView("zones"); setDrillMode(false); setListKey((k) => k + 1); onFocusChange(false);
  };
  \<close>
\<close>

definition enterView :: "lview \<Rightarrow> layout_state \<Rightarrow> layout_state" where
  "enterView next s = onFocusChange True (s\<lparr>lview := next\<rparr>)"

definition exitView :: "layout_state \<Rightarrow> layout_state" where
  "exitView s = onFocusChange False (s\<lparr>lview := LZones, drillMode := False, listKey := listKey s + 1\<rparr>)"

subsection \<open>The keyboard handler of the zone grid\<close>

text \<open>
  Outside drill mode the arrow keys move between the zones, Return drills into
  the active zone, \<^verbatim>\<open>g\<close> and \<^verbatim>\<open>t\<close> open the group and page-type views, and the
  brackets cycle the page type. In drill mode Escape leaves it and puts the
  cursor at 0; the other keys act on the selected component, if there is one:
  they open its editors, restore its defaults (Shift+D), or exchange its
  priority with a neighbour's (Shift+Up, Shift+Down).
  \<^verbatim>\<open>x || d\<close> on a manifest default is \<open>orElse\<close>.
\<close>

definition orElse :: "'a option \<Rightarrow> ('a \<Rightarrow> bool) \<Rightarrow> 'a \<Rightarrow> 'a" where
  "orElse x truthy d = (case x of Some v \<Rightarrow> if truthy v then v else d | None \<Rightarrow> d)"

definition restoreDefaults :: "ZoneComponent \<Rightarrow> layout_state \<Rightarrow> layout_state" where
  "restoreDefaults selectedComp s =
     (let arrIdx = findPluginArrayIndex (plugins s) (pluginIndex selectedComp) in
      case at (plugins s) arrIdx of
        None \<Rightarrow> s
      | Some plugin \<Rightarrow>
          (case (case manifest plugin of Some mf \<Rightarrow> components mf | None \<Rightarrow> None) of
             Some comps \<Rightarrow>
               (case comps of
                  (_, compEntry) # _ \<Rightarrow>
                    notify (''Restored '' @ c_displayName selectedComp @ '' to defaults'') Success
                      (s\<lparr>plugins := updateLayout (plugins s) arrIdx
                           (Some \<lparr>position = orElse (defaultPosition compEntry) (\<lambda>p. p \<noteq> []) ''left'',
                                  priority = orElse (defaultPriority compEntry) (\<lambda>n. n \<noteq> 0) 50,
                                  display = Some ''all'', condition = None, group = None,
                                  groupOptions = None\<rparr>) (plugins s)\<rparr>)
                | [] \<Rightarrow> notify ''No component defaults found in manifest'' Error s)
           | None \<Rightarrow>
               notify (''Reset '' @ c_displayName selectedComp @ '' display settings'') Success
                 (s\<lparr>plugins := updateLayout (plugins s) arrIdx
                      (Some \<lparr>position = c_position selectedComp, priority = 50,
                             display = Some ''all'', condition = None, group = None,
                             groupOptions = None\<rparr>) (plugins s)\<rparr>)))"

definition swapPriority ::
  "ZoneComponent \<Rightarrow> ZoneComponent \<Rightarrow> int \<Rightarrow> string \<Rightarrow> layout_state \<Rightarrow> layout_state" where
  "swapPriority selectedComp other newSel msg s =
     (let arrIdx = findPluginArrayIndex (plugins s) (pluginIndex selectedComp);
          otherArrIdx = findPluginArrayIndex (plugins s) (pluginIndex other) in
      case (at (plugins s) arrIdx, at (plugins s) otherArrIdx) of
        (Some myPlugin, Some otherPlugin) \<Rightarrow>
          (case (layout myPlugin, layout otherPlugin) of
             (Some myLayout, Some otherLayout) \<Rightarrow>
               (let stored1 = updateLayout (plugins s) arrIdx
                                (Some (myLayout\<lparr>priority := c_priority other\<rparr>)) (plugins s);
                    stored2 = updateLayout (plugins s) otherArrIdx
                                (Some (otherLayout\<lparr>priority := c_priority selectedComp\<rparr>)) stored1
                in notify msg Success (s\<lparr>plugins := stored2, selectedComponent := newSel\<rparr>))
           | _ \<Rightarrow> s)
      | _ \<Rightarrow> s)"

definition zonesKeyboard ::
  "key_event \<Rightarrow> ZoneComponent list \<Rightarrow> layout_state \<Rightarrow> layout_state \<times> error option" where
  "zonesKeyboard event comps s =
     (if \<not> drillMode s then
        (if key_name event = ''left'' then (s\<lparr>focusColumn := max 0 (focusColumn s - 1)\<rparr>, None)
         else if key_name event = ''right'' then (s\<lparr>focusColumn := min 2 (focusColumn s + 1)\<rparr>, None)
         else if key_name event = ''up'' \<and> focusColumn s = 1
         then (s\<lparr>focusCenterRow := max 0 (focusCenterRow s - 1)\<rparr>, None)
         else if key_name event = ''down'' \<and> focusColumn s = 1
         then (s\<lparr>focusCenterRow := min 3 (focusCenterRow s + 1)\<rparr>, None)
         else if key_name event = ''return'' then (s\<lparr>drillMode := True\<rparr>, None)
         else if key_name event = ''g'' then (enterView LGroups s, None)
         else if key_name event = ''t'' then (enterView LPageTypes s, None)
         else
           (let types = pageTypes (layoutConfig s); len = int (length types);
                idx = indexOf types (activePageType s) in
            if key_name event = ''['' \<and> len > 1
            then (s\<lparr>activePageType := types ! nat ((idx - 1 + len) mod len)\<rparr>, None)
            else if key_name event = '']'' \<and> len > 1
            then (s\<lparr>activePageType := types ! nat ((idx + 1) mod len)\<rparr>, None)
            else (s, None)))
      else if key_name event = ''escape''
      then (s\<lparr>drillMode := False, selectedComponent := 0\<rparr>, None)
      else
        (case at comps (selectedComponent s) of
           None \<Rightarrow> (s, None)
         | Some selectedComp \<Rightarrow>
             if key_name event = ''m'' then (enterView LMoveZone s, None)
             else if key_name event = ''p'' then (enterView LEditPriority s, None)
             else if key_name event = ''v'' then (enterView LEditDisplay s, None)
             else if key_name event = ''c'' then (enterView LEditCondition s, None)
             else if key_name event = ''x'' then (enterView LConfirmRemoveLayout s, None)
             else if key_name event = ''d'' \<and> shift event then (restoreDefaults selectedComp s, None)
             else if key_name event = ''up'' \<and> shift event \<and> selectedComponent s > 0
             then (case at comps (selectedComponent s - 1) of
                     Some aboveComp \<Rightarrow>
                       (swapPriority selectedComp aboveComp (selectedComponent s - 1) ''Moved up'' s, None)
                   | None \<Rightarrow> (s, Some TypeError))
             else if key_name event = ''down'' \<and> shift event \<and>
                     selectedComponent s < int (length comps) - 1
             then (case at comps (selectedComponent s + 1) of
                     Some belowComp \<Rightarrow>
                       (swapPriority selectedComp belowComp (selectedComponent s + 1) ''Moved down'' s, None)
                   | None \<Rightarrow> (s, Some TypeError))
             else (s, None)))"

subsection \<open>The editors of a component\<close>

text \<open>
  The handlers of the sub-views. Each one ends with \<^verbatim>\<open>exitView()\<close>. They write
  only when the selected component's plugin is found and has a layout entry
  (\<open>withLayout\<close>). The priority editor:
  \<^verbatim>\<open>
  onSubmit={(value: string) => {
    const num = parseInt(value, 10);
    if (!isNaN(num)) {
      const arrIdx = findPluginArrayIndex(selectedComp.pluginIndex);
      if (arrIdx >= 0) {
        const plugin = plugins[arrIdx];
        if (plugin.layout) {
          updateLayout(arrIdx, { ...plugin.layout, priority: num });
          notify(`Priority set to ${num}`, "success");
        }
      }
    }
    exitView();
  }}
  \<close>
  and the confirmation of a removal:
  \<^verbatim>\<open>
  onConfirm={() => {
    const arrIdx = findPluginArrayIndex(selectedComp.pluginIndex);
    if (arrIdx >= 0) {
      updateLayout(arrIdx, null);
      setSelectedComponent(Math.max(0, selectedComponent - 1));
      notify(`Removed ${selectedComp.displayName} from layout`, "success");
    }
    exitView();
  }}
  \<close>
\<close>

definition withLayout ::
  "ZoneComponent \<Rightarrow> (int \<Rightarrow> layout_entry \<Rightarrow> layout_state \<Rightarrow> layout_state) \<Rightarrow>
   layout_state \<Rightarrow> layout_state" where
  "withLayout selectedComp f s =
     (let arrIdx = findPluginArrayIndex (plugins s) (pluginIndex selectedComp) in
      case at (plugins s) arrIdx of
        None \<Rightarrow> s
      | Some plugin \<Rightarrow> (case layout plugin of None \<Rightarrow> s | Some l \<Rightarrow> f arrIdx l s))"

definition moveZoneSelect :: "Zone \<Rightarrow> ZoneComponent \<Rightarrow> layout_state \<Rightarrow> layout_state" where
  "moveZoneSelect newZone selectedComp s =
     exitView
       (withLayout selectedComp
          (\<lambda>arrIdx l s.
             (notify (''Moved '' @ c_displayName selectedComp @ '' to '' @ zone_name newZone) Success
                (s\<lparr>plugins := updateLayout (plugins s) arrIdx
                     (Some (l\<lparr>position := zone_name newZone\<rparr>)) (plugins s)\<rparr>))
             \<lparr>selectedComponent := 0\<rparr>) s)"

definition prioritySubmit :: "string \<Rightarrow> ZoneComponent \<Rightarrow> layout_state \<Rightarrow> layout_state" where
  "prioritySubmit v selectedComp s =
     exitView
       (case parseInt v of
          None \<Rightarrow> s
        | Some num \<Rightarrow>
            withLayout selectedComp
              (\<lambda>arrIdx l s.
                 notify (''Priority set to '' @ intString num) Success
                   (s\<lparr>plugins := updateLayout (plugins s) arrIdx
                        (Some (l\<lparr>priority := num\<rparr>)) (plugins s)\<rparr>)) s)"

definition displaySelect :: "string \<Rightarrow> ZoneComponent \<Rightarrow> layout_state \<Rightarrow> layout_state" where
  "displaySelect mode selectedComp s =
     exitView
       (withLayout selectedComp
          (\<lambda>arrIdx l s.
             notify (''Display set to '' @ mode) Success
               (s\<lparr>plugins := updateLayout (plugins s) arrIdx
                    (Some (l\<lparr>display := Some mode\<rparr>)) (plugins s)\<rparr>)) s)"

definition conditionSubmit :: "string \<Rightarrow> ZoneComponent \<Rightarrow> layout_state \<Rightarrow> layout_state" where
  "conditionSubmit v selectedComp s =
     exitView
       (withLayout selectedComp
          (\<lambda>arrIdx l s.
             notify (if trim v \<noteq> [] then ''Condition set to '' @ trim v else ''Condition removed'')
               Success
               (s\<lparr>plugins := updateLayout (plugins s) arrIdx
                    (Some (l\<lparr>condition := (if trim v \<noteq> [] then Some (trim v) else None)\<rparr>))
                    (plugins s)\<rparr>)) s)"

definition confirmRemove :: "ZoneComponent \<Rightarrow> layout_state \<Rightarrow> layout_state" where
  "confirmRemove selectedComp s =
     exitView
       (let arrIdx = findPluginArrayIndex (plugins s) (pluginIndex selectedComp) in
        if arrIdx \<ge> 0
        then notify (''Removed '' @ c_displayName selectedComp @ '' from layout'') Success
               (s\<lparr>plugins := updateLayout (plugins s) arrIdx None (plugins s),
                  selectedComponent := max 0 (selectedComponent s - 1)\<rparr>)
        else s)"

definition DISPLAY_MODES :: "string list" where
  "DISPLAY_MODES = [''all'', ''desktop-only'', ''mobile-only'']"

subsection \<open>Events, effects and the reachable states\<close>

text \<open>
  The events of the panel: a key press, a change of the highlighted option in
  the component list of the drilled-in zone (\<^verbatim>\<open>onChange={(index) =>
  setSelectedComponent(index)}\<close>), and what the sub-views report back: the
  chosen zone (one of the zones other than the active one), a submitted text, a
  chosen display mode, a saved layout document, a cancellation. The view
  decides which handler sees the event; the sub-views of a component are shown
  only while there is a selected component.
\<close>

datatype l_event =
    LKey key_event
  | LSelectChange int
  | LMoveTo Zone
  | LSubmit string
  | LDisplayMode string
  | LSaveLayout LayoutConfig
  | LCancel

definition layoutEvent ::
  "l_event \<Rightarrow> ZoneComponent list \<Rightarrow> layout_state \<Rightarrow> layout_state \<times> error option" where
  "layoutEvent ev comps s =
     (let selectedComp = at comps (selectedComponent s) in
      case lview s of
        LZones \<Rightarrow>
          (case ev of
             LKey event \<Rightarrow> zonesKeyboard event comps s
           | LSelectChange i \<Rightarrow>
               (if drillMode s \<and> comps \<noteq> [] then (s\<lparr>selectedComponent := i\<rparr>, None)
                else (s, None))
           | _ \<Rightarrow> (s, None))
      | LMoveZone \<Rightarrow>
          (case selectedComp of
             None \<Rightarrow> (s, None)
           | Some c \<Rightarrow>
               (case ev of
                  LMoveTo z \<Rightarrow>
                    (if Some z \<noteq> getActiveZone s then (moveZoneSelect z c s, None) else (s, None))
                | LKey event \<Rightarrow>
                    (if key_name event = ''escape'' then (exitView s, None) else (s, None))
                | LCancel \<Rightarrow> (exitView s, None)
                | _ \<Rightarrow> (s, None)))
      | LEditPriority \<Rightarrow>
          (case ev of
             LKey event \<Rightarrow> (if key_name event = ''escape'' then (exitView s, None) else (s, None))
           | LSubmit v \<Rightarrow>
               (case selectedComp of Some c \<Rightarrow> (prioritySubmit v c s, None) | None \<Rightarrow> (s, None))
           | _ \<Rightarrow> (s, None))
      | LEditCondition \<Rightarrow>
          (case ev of
             LKey event \<Rightarrow> (if key_name event = ''escape'' then (exitView s, None) else (s, None))
           | LSubmit v \<Rightarrow>
               (case selectedComp of Some c \<Rightarrow> (conditionSubmit v c s, None) | None \<Rightarrow> (s, None))
           | _ \<Rightarrow> (s, None))
      | LEditDisplay \<Rightarrow>
          (case selectedComp of
             None \<Rightarrow> (s, None)
           | Some c \<Rightarrow>
               (case ev of
                  LDisplayMode mode \<Rightarrow>
                    (if mode \<in> set DISPLAY_MODES then (displaySelect mode c s, None)
                     else (s, None))
                | LKey event \<Rightarrow>
                    (if key_name event = ''escape'' then (exitView s, None) else (s, None))
                | LCancel \<Rightarrow> (exitView s, None)
                | _ \<Rightarrow> (s, None)))
      | LConfirmRemoveLayout \<Rightarrow>
          (case selectedComp of
             None \<Rightarrow> (s, None)
           | Some c \<Rightarrow>
               (case ev of
                  LKey event \<Rightarrow>
                    (if key_name event = ''y'' then (confirmRemove c s, None)
                     else if key_name event = ''n'' \<or> key_name event = ''escape''
                     then (exitView s, None)
                     else (s, None))
                | _ \<Rightarrow> (s, None)))
      | LGroups \<Rightarrow>
          (case ev of
             LSaveLayout newLayout \<Rightarrow>
               (exitView (notify ''Groups updated'' Success
                  (s\<lparr>layoutConfig := newLayout, plugins := reindex (plugins s)\<rparr>)), None)
           | LCancel \<Rightarrow> (exitView s, None)
           | _ \<Rightarrow> (s, None))
      | LPageTypes \<Rightarrow>
          (case ev of
             LSaveLayout newLayout \<Rightarrow> (s\<lparr>layoutConfig := newLayout\<rparr>, None)
           | LCancel \<Rightarrow> (exitView s, None)
           | _ \<Rightarrow> (s, None)))"

text \<open>
  The two effects that write the cursor, run after the handler. Each runs when
  one of its dependencies differs from the previous render; both read the
  cursor of the render they follow, and the second write wins.
  \<^verbatim>\<open>
  useEffect(() => {
    if (selectedComponent > Math.max(0, currentComponents.length - 1)) {
      setSelectedComponent(Math.max(0, currentComponents.length - 1));
    }
  }, [currentComponents.length, selectedComponent]);

  useEffect(() => {
    if (!drillMode && currentZone) {
      setSelectedComponent(0);
    }
  }, [drillMode, currentZone]);
  \<close>
  A step is a handler followed by the effects. The component list sends the
  index of one of its options, which is not negative (\<open>acceptable\<close>). The
  reachable states are those that steps lead to from the mounted panel.
\<close>

definition layoutEffects ::
  "layout_state \<Rightarrow> ZoneComponent list \<Rightarrow> layout_state \<Rightarrow> ZoneComponent list \<Rightarrow> layout_state" where
  "layoutEffects prev prevComps s comps =
     (let clampRuns = (length prevComps \<noteq> length comps \<or>
                       selectedComponent prev \<noteq> selectedComponent s);
          resetRuns = (drillMode prev \<noteq> drillMode s \<or> getActiveZone prev \<noteq> getActiveZone s);
          s1 = (if clampRuns \<and> selectedComponent s > max 0 (int (length comps) - 1)
                then s\<lparr>selectedComponent := max 0 (int (length comps) - 1)\<rparr> else s)
      in if resetRuns \<and> \<not> drillMode s \<and> getActiveZone s \<noteq> None
         then s1\<lparr>selectedComponent := 0\<rparr> else s1)"

definition layoutStep :: "l_event \<Rightarrow> layout_state \<Rightarrow> layout_state \<times> error option" where
  "layoutStep ev s =
     (case currentComponents s of
        Inl e \<Rightarrow> (s, Some e)
      | Inr comps \<Rightarrow>
          (case layoutEvent ev comps s of
             (s', Some e) \<Rightarrow> (s', Some e)
           | (s', None) \<Rightarrow>
               (case currentComponents s' of
                  Inl e \<Rightarrow> (s', Some e)
                | Inr comps' \<Rightarrow> (layoutEffects s comps s' comps', None))))"

definition layoutMount :: "EnrichedPlugin list \<Rightarrow> LayoutConfig \<Rightarrow> layout_state" where
  "layoutMount ps lc =
     \<lparr>notifications = [], panelFocused = False, plugins = reindex ps, layoutConfig = lc,
      focusColumn = 1, focusCenterRow = 0, drillMode = False, selectedComponent = 0,
      lview = LZones, listKey = 0, activePageType = ''default''\<rparr>"

fun acceptable :: "l_event \<Rightarrow> bool" where
  "acceptable (LSelectChange i) = (0 \<le> i)"
| "acceptable _ = True"

inductive layoutReachable :: "EnrichedPlugin list \<Rightarrow> LayoutConfig \<Rightarrow> layout_state \<Rightarrow> bool"
  for ps :: "EnrichedPlugin list" and lc :: LayoutConfig where
  mounted: "currentComponents (layoutMount ps lc) = Inr comps \<Longrightarrow>
            layoutReachable ps lc (layoutMount ps lc)"
| stepped: "layoutReachable ps lc s \<Longrightarrow> acceptable ev \<Longrightarrow> layoutStep ev s = (s', None) \<Longrightarrow>
            layoutReachable ps lc s'"

subsection \<open>The cursor of the component list\<close>

text \<open>No handler makes the cursor negative.\<close>

lemma sel_exitView [simp]: "selectedComponent (exitView s) = selectedComponent s"
  by (simp add: exitView_def onFocusChange_def)

lemma sel_enterView [simp]: "selectedComponent (enterView v s) = selectedComponent s"
  by (simp add: enterView_def onFocusChange_def)

lemma sel_notify [simp]: "selectedComponent (notify m t s) = selectedComponent s"
  by (simp add: notify_def)

lemma sel_withLayout:
  "(\<And>i l x. 0 \<le> selectedComponent x \<Longrightarrow> 0 \<le> selectedComponent (f i l x)) \<Longrightarrow>
   0 \<le> selectedComponent s \<Longrightarrow> 0 \<le> selectedComponent (withLayout c f s)"
  by (simp add: withLayout_def Let_def split: option.splits)

lemma sel_restoreDefaults [simp]:
  "selectedComponent (restoreDefaults c s) = selectedComponent s"
  by (simp add: restoreDefaults_def Let_def split: option.splits list.splits prod.splits)

lemma sel_swapPriority:
  "0 \<le> n \<Longrightarrow> 0 \<le> selectedComponent s \<Longrightarrow> 0 \<le> selectedComponent (swapPriority c d n msg s)"
  by (simp add: swapPriority_def Let_def split: option.splits prod.splits)

lemma sel_zonesKeyboard:
  "0 \<le> selectedComponent s \<Longrightarrow> 0 \<le> selectedComponent (fst (zonesKeyboard e comps s))"
  by (auto simp: zonesKeyboard_def Let_def split: option.splits intro!: sel_swapPriority)

lemma sel_moveZoneSelect:
  "0 \<le> selectedComponent s \<Longrightarrow> 0 \<le> selectedComponent (moveZoneSelect z c s)"
  by (auto simp: moveZoneSelect_def withLayout_def Let_def split: option.splits)

lemma sel_prioritySubmit [simp]:
  "selectedComponent (prioritySubmit v c s) = selectedComponent s"
  by (simp add: prioritySubmit_def withLayout_def Let_def split: option.splits)

lemma sel_displaySelect [simp]:
  "selectedComponent (displaySelect v c s) = selectedComponent s"
  by (simp add: displaySelect_def withLayout_def Let_def split: option.splits)

lemma sel_conditionSubmit [simp]:
  "selectedComponent (conditionSubmit v c s) = selectedComponent s"
  by (simp add: conditionSubmit_def withLayout_def Let_def split: option.splits)

lemma sel_confirmRemove: "0 \<le> selectedComponent s \<Longrightarrow> 0 \<le> selectedComponent (confirmRemove c s)"
  by (simp add: confirmRemove_def Let_def)

lemma sel_layoutEvent:
  "acceptable ev \<Longrightarrow> 0 \<le> selectedComponent s \<Longrightarrow>
   0 \<le> selectedComponent (fst (layoutEvent ev comps s))"
  by (cases "lview s"; cases ev)
     (auto simp: layoutEvent_def Let_def sel_zonesKeyboard sel_confirmRemove sel_moveZoneSelect
           split: option.splits)

text \<open>
  The effects leave the component list as it is, and put the cursor within it.
\<close>

lemma currentComponents_cong:
  "plugins s' = plugins s \<Longrightarrow> layoutConfig s' = layoutConfig s \<Longrightarrow>
   activePageType s' = activePageType s \<Longrightarrow> focusColumn s' = focusColumn s \<Longrightarrow>
   focusCenterRow s' = focusCenterRow s \<Longrightarrow> currentComponents s' = currentComponents s"
proof -
  assume a: "plugins s' = plugins s" "layoutConfig s' = layoutConfig s"
    "activePageType s' = activePageType s" "focusColumn s' = focusColumn s"
    "focusCenterRow s' = focusCenterRow s"
  then have "getActiveZone s' = getActiveZone s" by (simp add: getActiveZone_def)
  with a show ?thesis by (simp add: currentComponents_def split: sum.splits)
qed

lemma layoutEffects_components:
  "currentComponents (layoutEffects prev prevComps s comps) = currentComponents s"
  by (rule currentComponents_cong) (simp_all add: layoutEffects_def Let_def)

lemma layoutEffects_ok:
  assumes "cursorOk (selectedComponent prev) (length prevComps)" and "0 \<le> selectedComponent s"
  shows "cursorOk (selectedComponent (layoutEffects prev prevComps s comps)) (length comps)"
  using assms by (auto simp: layoutEffects_def Let_def cursorOk_def)

lemma layoutEffects_clamps:
  assumes "cursorOk (selectedComponent prev) (length prevComps)" and "0 \<le> selectedComponent s"
    and "drillMode s"
  shows "selectedComponent (layoutEffects prev prevComps s comps) =
           (if selectedComponent s \<ge> int (length comps) then max 0 (int (length comps) - 1)
            else selectedComponent s)"
  using assms by (auto simp: layoutEffects_def Let_def cursorOk_def)

lemma layoutStep_cases:
  assumes "layoutStep ev s = (s', None)"
  obtains comps s1 comps1 where "currentComponents s = Inr comps"
    "layoutEvent ev comps s = (s1, None)" "currentComponents s1 = Inr comps1"
    "s' = layoutEffects s comps s1 comps1"
  using assms by (auto simp: layoutStep_def split: sum.splits prod.splits option.splits)

lemma layoutStep_ok:
  assumes "currentComponents s = Inr comps" "cursorOk (selectedComponent s) (length comps)"
    "acceptable ev" "layoutStep ev s = (s', None)"
  shows "\<exists>comps'. currentComponents s' = Inr comps' \<and>
           cursorOk (selectedComponent s') (length comps')"
proof -
  from assms(4) obtain cs s1 comps1 where st: "currentComponents s = Inr cs"
    "layoutEvent ev cs s = (s1, None)" "currentComponents s1 = Inr comps1"
    "s' = layoutEffects s cs s1 comps1"
    by (rule layoutStep_cases)
  with assms(1) have cs: "cs = comps" by simp
  from assms(2) have "0 \<le> selectedComponent s" by (simp add: cursorOk_def)
  from sel_layoutEvent [OF assms(3) this, of cs] st(2) have n: "0 \<le> selectedComponent s1" by simp
  from layoutEffects_ok [OF _ n, of s cs comps1] assms(2) cs st(4)
  have "cursorOk (selectedComponent s') (length comps1)" by simp
  moreover from st(3,4) have "currentComponents s' = Inr comps1"
    by (simp add: layoutEffects_components)
  ultimately show ?thesis by blast
qed

lemma layoutMount_ok:
  "currentComponents (layoutMount ps lc) = Inr comps \<Longrightarrow>
   cursorOk (selectedComponent (layoutMount ps lc)) (length comps)"
  by (simp add: layoutMount_def cursorOk_def)

lemma layoutReachable_ok:
  "layoutReachable ps lc s \<Longrightarrow>
   \<exists>comps. currentComponents s = Inr comps \<and> cursorOk (selectedComponent s) (length comps)"
proof (induction rule: layoutReachable.induct)
  case (mounted comps)
  with layoutMount_ok show ?case by blast
next
  case (stepped s ev s')
  then obtain comps where "currentComponents s = Inr comps"
    "cursorOk (selectedComponent s) (length comps)" by blast
  from layoutStep_ok [OF this stepped(2,3)] show ?case .
qed

lemma currentComponents_zone:
  "currentComponents s = Inr comps \<Longrightarrow> getActiveZone s \<noteq> None"
  by (auto simp: currentComponents_def split: sum.splits option.splits)

lemma layoutEffects_cursor:
  assumes "cursorOk (selectedComponent prev) (length prevComps)" and "0 \<le> selectedComponent s"
    and "getActiveZone s \<noteq> None"
  shows "selectedComponent (layoutEffects prev prevComps s comps) =
           (if \<not> drillMode s \<and> (drillMode prev \<or> getActiveZone prev \<noteq> getActiveZone s) then 0
            else clamped (selectedComponent s) (length comps))"
  using assms by (auto simp: layoutEffects_def Let_def cursorOk_def clamped_def)

lemma layoutStep_cursor:
  assumes "currentComponents s = Inr comps" "cursorOk (selectedComponent s) (length comps)"
    "acceptable ev" "layoutStep ev s = (s', None)"
  shows "\<exists>comps'. currentComponents s' = Inr comps' \<and>
           selectedComponent s' =
             (if \<not> drillMode s' \<and> (drillMode s \<or> getActiveZone s \<noteq> getActiveZone s') then 0
              else clamped (selectedComponent (fst (layoutEvent ev comps s))) (length comps'))"
proof -
  from assms(4) obtain cs s1 comps1 where st: "currentComponents s = Inr cs"
    "layoutEvent ev cs s = (s1, None)" "currentComponents s1 = Inr comps1"
    "s' = layoutEffects s cs s1 comps1"
    by (rule layoutStep_cases)
  with assms(1) have cs: "cs = comps" by simp
  from assms(2) have "0 \<le> selectedComponent s" by (simp add: cursorOk_def)
  from sel_layoutEvent [OF assms(3) this, of cs] st(2) have n: "0 \<le> selectedComponent s1" by simp
  have z: "getActiveZone s1 \<noteq> None" using st(3) by (rule currentComponents_zone)
  have f: "drillMode s' = drillMode s1" "getActiveZone s' = getActiveZone s1"
    unfolding st(4) by (simp_all add: layoutEffects_def Let_def getActiveZone_def)
  from st(3,4) have c: "currentComponents s' = Inr comps1"
    by (simp add: layoutEffects_components)
  from layoutEffects_cursor [OF _ n z, of s comps comps1] assms(2) st(2,4) cs f
  have "selectedComponent s' =
             (if \<not> drillMode s' \<and> (drillMode s \<or> getActiveZone s \<noteq> getActiveZone s') then 0
              else clamped (selectedComponent (fst (layoutEvent ev comps s))) (length comps1))"
    by simp
  with c show ?thesis by blast
qed

lemma exitView_components: "currentComponents (exitView s) = currentComponents s"
  by (rule currentComponents_cong) (simp_all add: exitView_def onFocusChange_def)

lemma layoutEffects_fields:
  "plugins (layoutEffects p pc s c) = plugins s"
  "layoutConfig (layoutEffects p pc s c) = layoutConfig s"
  "notifications (layoutEffects p pc s c) = notifications s"
  "lview (layoutEffects p pc s c) = lview s"
  "drillMode (layoutEffects p pc s c) = drillMode s"
  "panelFocused (layoutEffects p pc s c) = panelFocused s"
  by (simp_all add: layoutEffects_def Let_def)

section \<open>Committing a text into a numeric field\<close>

subsection \<open>The option editor of the Plugins panel (\<^verbatim>\<open>PluginsPanel.tsx\<close>)\<close>

text \<open>
  Of the Plugins panel, the plugin list of the hook \<^verbatim>\<open>usePlugins\<close> and the key
  of the option being edited. The free-text editor of an option, shown while
  \<^verbatim>\<open>editingKey\<close> is set, with
  \<^verbatim>\<open>const currentValue = selectedPlugin.options[editingKey]\<close>:
  \<^verbatim>\<open>
  onSubmit={(value: string) => {
    const origIdx = plugins.findIndex((p) => p.index === selectedPlugin.index);
    if (origIdx >= 0) {
      const parsed = parseJsonOrString(value);
      if (typeof currentValue === "number" && typeof parsed !== "number") {
        notify("Invalid: expected a number", "error");
        return;
      }
      setPluginOptions(origIdx, editingKey, parsed);
      notify(`Set ${editingKey}`, "success");
    }
    setEditingKey(null);
  }}
  \<close>
  and, in the hook,
  \<^verbatim>\<open>
  const setPluginOptions = (index, key, value) => {
    const plugin = plugins[index];
    if (!plugin) return;
    const newOptions = { ...plugin.options, [key]: value };
    updatePluginEntry(plugin.index, { options: newOptions });
    refresh();
  };
  \<close>
\<close>

record plugins_state = app +
  pluginList :: "EnrichedPlugin list"
  editingKey :: "string option"

definition setPluginOptions ::
  "int \<Rightarrow> string \<Rightarrow> jv \<Rightarrow> EnrichedPlugin list \<Rightarrow> EnrichedPlugin list" where
  "setPluginOptions i k v ps =
     (case at ps i of
        None \<Rightarrow> ps
      | Some plugin \<Rightarrow>
          (let newOptions = AList.update k v (options plugin)
           in reindex (if index plugin < length ps
                       then ps[index plugin := (ps ! index plugin)\<lparr>options := newOptions\<rparr>]
                       else ps)))"

definition optionSubmit ::
  "(string \<Rightarrow> jv option) \<Rightarrow> EnrichedPlugin \<Rightarrow> string \<Rightarrow> plugins_state \<Rightarrow> plugins_state" where
  "optionSubmit JSON_parse selectedPlugin v s =
     (case editingKey s of
        None \<Rightarrow> s
      | Some k \<Rightarrow>
          (let currentValue = getMember (Data (JObj (options selectedPlugin))) k;
               origIdx = findPluginArrayIndex (pluginList s) (index selectedPlugin)
           in if origIdx \<ge> 0
              then (let parsed = parseJsonOrString JSON_parse v in
                    if typeOf currentValue = TNumber \<and> typeof parsed \<noteq> TNumber
                    then notify ''Invalid: expected a number'' Error s
                    else (notify (''Set '' @ k) Success
                            (s\<lparr>pluginList := setPluginOptions origIdx k parsed (pluginList s)\<rparr>))
                         \<lparr>editingKey := None\<rparr>)
              else s\<lparr>editingKey := None\<rparr>))"

text \<open>An option that holds a number is an own property, and is read as that number.\<close>

lemma getMember_number:
  "typeof (getProp (JObj kvs) k) = TNumber \<Longrightarrow> typeOf (getMember (Data (JObj kvs)) k) = TNumber"
  by (simp split: option.splits)

subsection \<open>The free-text editor of the Settings panel\<close>

text \<open>
  What \<^verbatim>\<open>updateGlobalConfig\<close> has written under a key is what
  \<^verbatim>\<open>getGlobalConfig\<close> reads there afterwards; so a text that is not JSON,
  submitted for a top-level key, is stored as that string, whatever the key
  held before.
\<close>

lemma updateGlobalConfig_reads:
  assumes "readPluginsJson d = Some json"
  shows "\<exists>c'. getGlobalConfig (fst (updateGlobalConfig d [(k, v)])) = Some c' \<and>
              getProp (JObj c') k = v"
proof -
  define merged where "merged = AList.update k v (spread (getProp (JObj json) ''configuration''))"
  define json' where "json' = AList.update ''configuration'' (JObj merged) json"
  have u: "fst (updateGlobalConfig d [(k, v)]) = writePluginsJson d json'"
    using assms by (simp add: updateGlobalConfig_def Let_def merged_def json'_def)
  have ne: "''configuration'' \<noteq> ''$schema''" by simp
  have "getProp (JObj (AList.delete ''$schema'' json')) ''configuration'' = JObj merged"
    unfolding getProp_delete [OF ne] json'_def by (rule getProp_update)
  then have "getGlobalConfig (writePluginsJson d json') = Some merged"
    by (simp only: getGlobalConfig_def readPluginsJson_written option.case jv.case)
  moreover have "getProp (JObj merged) k = v"
    unfolding merged_def by (rule getProp_update)
  ultimately show ?thesis unfolding u by blast
qed

lemma stringSubmit_top_level:
  assumes "view s = SEditString" "editingEntry s = Some entry" "keyPath entry = [k]"
    "config s = Some c" "readPluginsJson (disk s) = Some json" "JSON_parse v = None"
  shows "\<exists>s' c'. settingsStep JSON_parse (Submit v) s = (s', None) \<and>
           config s' = Some c' \<and> getProp (JObj c') k = JStr v \<and> view s' = SList \<and>
           notifications s' = notifications s @ [(''Set '' @ k, Success)]"
proof -
  from updateGlobalConfig_reads [OF assms(5), of k "JStr v"]
  obtain c' where c': "getGlobalConfig (fst (updateGlobalConfig (disk s) [(k, JStr v)])) = Some c'"
    "getProp (JObj c') k = JStr v" by blast
  define s1 where "s1 = exitEdit (notify (''Set '' @ k) Success (updateField k (JStr v) s))"
  have e: "settingsEvent JSON_parse (Submit v) s = (s1, None)"
    using assms
    by (simp add: settingsEvent_def stringSubmit_def applyValue_def parseJsonOrString_def
          Let_def s1_def)
  have f: "config s1 = Some c'" "view s1 = SList"
    "notifications s1 = notifications s @ [(''Set '' @ k, Success)]"
    using c' by (simp_all add: s1_def exitEdit_def notify_def updateField_def onFocusChange_def Let_def)
  have "settingsStep JSON_parse (Submit v) s = (clampHighlighted s s1, None)"
    using e by (simp add: settingsStep_def)
  with f c'(2) show ?thesis by (simp add: clampHighlighted_fields)
qed

subsection \<open>A text that is not a number\<close>

text \<open>
  The Layout panel with the priority editor open on \<^verbatim>\<open>pluginX\<close> (Return drills
  into the header zone, \<^verbatim>\<open>p\<close> opens the editor), and the Settings panel with the
  free-text editor open on a key that holds the number 10.
\<close>

definition editingPriority :: layout_state where
  "editingPriority =
     fst (layoutStep (LKey \<lparr>key_name = ''p'', shift = False\<rparr>)
       (fst (layoutStep (LKey \<lparr>key_name = ''return'', shift = False\<rparr>)
          (layoutMount [pluginX] listLayout))))"

definition numberDisk :: fs where
  "numberDisk = (\<lambda>_. Absent)
     (CONFIG_YAML_PATH := Content [(''configuration'', JObj [(''pageSize'', JNum 10)])])"

definition editingNumber :: settings_state where
  "editingNumber =
     fst (settingsStep noParse (Key \<lparr>key_name = ''return'', shift = False\<rparr>)
            (settingsMount numberDisk))"

text \<open>
  Claim C1, as stated: for every text value committed into a field whose current
  value is numeric (for example a layout component's priority), if the value
  does not parse as a number the commit is rejected with an in-place error: the
  field's stored value is unchanged and the editor remains open in edit mode.

  Committing \<^verbatim>\<open>not-a-number\<close> as a priority closes the editor and raises no
  notice; committing it into the numeric setting closes the editor and stores
  the text.
\<close>

theorem C1_editor_closes_counterexample:
  "lview editingPriority = LEditPriority \<and>
   lview (fst (layoutStep (LSubmit ''not-a-number'') editingPriority)) = LZones \<and>
   notifications (fst (layoutStep (LSubmit ''not-a-number'') editingPriority)) = [] \<and>
   view editingNumber = SEditString \<and>
   config editingNumber = Some [(''pageSize'', JNum 10)] \<and>
   view (fst (settingsStep noParse (Submit ''not-a-number'') editingNumber)) = SList \<and>
   config (fst (settingsStep noParse (Submit ''not-a-number'') editingNumber)) =
     Some [(''pageSize'', JStr ''not-a-number'')]"
  by code_simp

text \<open>
  Claim C1, amended: a committed text that does not parse as a number is
  rejected in place only by the option editor of the Plugins panel: when the
  option's current value is a number, the error notice
  \<^verbatim>\<open>Invalid: expected a number\<close> is raised, the plugin list is unchanged and the
  editor stays open on the same key. The priority editor of the Layout panel,
  given a text without a leading integer, leaves the plugins and the layout
  unchanged but raises no notice and closes: the panel is back in the zone
  grid, out of drill mode. The free-text editor of the Settings panel, given a
  text that is not JSON for a top-level key, stores the text as a string,
  raises the notice \<^verbatim>\<open>Set <key>\<close> and returns to the list.
\<close>

theorem C1_non_numeric_commit:
  "(editingKey ps = Some k \<and> typeof (getProp (JObj (options selectedPlugin)) k) = TNumber \<and>
    typeof (parseJsonOrString JSON_parse v) \<noteq> TNumber \<and>
    findPluginArrayIndex (pluginList ps) (index selectedPlugin) \<ge> 0 \<longrightarrow>
      optionSubmit JSON_parse selectedPlugin v ps = notify ''Invalid: expected a number'' Error ps \<and>
      pluginList (optionSubmit JSON_parse selectedPlugin v ps) = pluginList ps \<and>
      editingKey (optionSubmit JSON_parse selectedPlugin v ps) = editingKey ps) \<and>
   (lview s = LEditPriority \<and> currentComponents s = Inr comps \<and>
    at comps (selectedComponent s) = Some c \<and> parseInt v = None \<longrightarrow>
      (\<exists>s'. layoutStep (LSubmit v) s = (s', None) \<and>
            plugins s' = plugins s \<and> layoutConfig s' = layoutConfig s \<and>
            notifications s' = notifications s \<and>
            lview s' = LZones \<and> \<not> drillMode s' \<and> \<not> panelFocused s')) \<and>
   (view t = SEditString \<and> editingEntry t = Some entry \<and> keyPath entry = [field] \<and>
    config t = Some cfg \<and> readPluginsJson (disk t) = Some json \<and> JSON_parse v = None \<longrightarrow>
      (\<exists>t' cfg'. settingsStep JSON_parse (Submit v) t = (t', None) \<and>
            config t' = Some cfg' \<and> getProp (JObj cfg') field = JStr v \<and> view t' = SList \<and>
            notifications t' = notifications t @ [(''Set '' @ field, Success)]))"
proof (intro conjI impI)
  assume a: "editingKey ps = Some k \<and> typeof (getProp (JObj (options selectedPlugin)) k) = TNumber \<and>
    typeof (parseJsonOrString JSON_parse v) \<noteq> TNumber \<and>
    findPluginArrayIndex (pluginList ps) (index selectedPlugin) \<ge> 0"
  then show r: "optionSubmit JSON_parse selectedPlugin v ps =
      notify ''Invalid: expected a number'' Error ps"
    by (simp add: optionSubmit_def Let_def getMember_number del: getMember.simps)
  show "pluginList (optionSubmit JSON_parse selectedPlugin v ps) = pluginList ps"
    unfolding r by (simp add: notify_def)
  show "editingKey (optionSubmit JSON_parse selectedPlugin v ps) = editingKey ps"
    unfolding r by (simp add: notify_def)
next
  assume a: "lview s = LEditPriority \<and> currentComponents s = Inr comps \<and>
    at comps (selectedComponent s) = Some c \<and> parseInt v = None"
  then have ev: "layoutEvent (LSubmit v) comps s = (exitView s, None)"
    by (simp add: layoutEvent_def prioritySubmit_def Let_def)
  from a have cc: "currentComponents (exitView s) = Inr comps"
    by (simp add: exitView_components)
  from a ev cc have st: "layoutStep (LSubmit v) s = (layoutEffects s comps (exitView s) comps, None)"
    by (simp add: layoutStep_def)
  have "plugins (layoutEffects s comps (exitView s) comps) = plugins s \<and>
        layoutConfig (layoutEffects s comps (exitView s) comps) = layoutConfig s \<and>
        notifications (layoutEffects s comps (exitView s) comps) = notifications s \<and>
        lview (layoutEffects s comps (exitView s) comps) = LZones \<and>
        \<not> drillMode (layoutEffects s comps (exitView s) comps) \<and>
        \<not> panelFocused (layoutEffects s comps (exitView s) comps)"
    by (simp add: layoutEffects_fields exitView_def onFocusChange_def)
  with st show "\<exists>s'. layoutStep (LSubmit v) s = (s', None) \<and>
            plugins s' = plugins s \<and> layoutConfig s' = layoutConfig s \<and>
            notifications s' = notifications s \<and>
            lview s' = LZones \<and> \<not> drillMode s' \<and> \<not> panelFocused s'"
    by blast
next
  assume "view t = SEditString \<and> editingEntry t = Some entry \<and> keyPath entry = [field] \<and>
    config t = Some cfg \<and> readPluginsJson (disk t) = Some json \<and> JSON_parse v = None"
  then show "\<exists>t' cfg'. settingsStep JSON_parse (Submit v) t = (t', None) \<and>
            config t' = Some cfg' \<and> getProp (JObj cfg') field = JStr v \<and> view t' = SList \<and>
            notifications t' = notifications t @ [(''Set '' @ field, Success)]"
    using stringSubmit_top_level [of t entry field cfg json JSON_parse v] by blast
qed

text \<open>The option \<^verbatim>\<open>limit\<close> of a plugin holds the number 3 and is being edited.\<close>

definition pluginN :: EnrichedPlugin where
  "pluginN =
     \<lparr>index = 0, name = ''recentNotes'', displayName = ''Recent Notes'', enabled = True,
      options = [(''limit'', JNum 3)], layout = None, manifest = None\<rparr>"

definition editingLimit :: plugins_state where
  "editingLimit = \<lparr>notifications = [], panelFocused = True, pluginList = [pluginN],
                   editingKey = Some ''limit''\<rparr>"

theorem C1_non_numeric_commit_witness:
  "optionSubmit noParse pluginN ''not-a-number'' editingLimit =
     notify ''Invalid: expected a number'' Error editingLimit \<and>
   pluginList (optionSubmit noParse pluginN ''not-a-number'' editingLimit) = [pluginN] \<and>
   editingKey (optionSubmit noParse pluginN ''not-a-number'' editingLimit) =
     Some ''limit'' \<and>
   plugins (fst (layoutStep (LSubmit ''not-a-number'') editingPriority)) =
     plugins editingPriority \<and>
   lview (fst (layoutStep (LSubmit ''not-a-number'') editingPriority)) = LZones \<and>
   notifications (fst (layoutStep (LSubmit ''not-a-number'') editingPriority)) =
     notifications editingPriority \<and>
   view (fst (settingsStep noParse (Submit ''not-a-number'') editingNumber)) = SList \<and>
   notifications (fst (settingsStep noParse (Submit ''not-a-number'') editingNumber)) =
     notifications editingNumber @ [(''Set pageSize'', Success)]"
proof -
  have p: "typeof (getProp (JObj (options pluginN)) ''limit'') = TNumber"
    "typeof (parseJsonOrString noParse ''not-a-number'') \<noteq> TNumber"
    "findPluginArrayIndex (pluginList editingLimit) (index pluginN) \<ge> 0"
    "pluginList editingLimit = [pluginN]" "editingKey editingLimit = Some ''limit''"
    by code_simp+
  have l: "lview editingPriority = LEditPriority"
    "currentComponents editingPriority = Inr (projr (currentComponents editingPriority))"
    "at (projr (currentComponents editingPriority)) (selectedComponent editingPriority) =
       Some (hd (projr (currentComponents editingPriority)))"
    "parseInt ''not-a-number'' = None"
    by code_simp+
  have e: "view editingNumber = SEditString"
    "editingEntry editingNumber = Some (the (editingEntry editingNumber))"
    "keyPath (the (editingEntry editingNumber)) = [''pageSize'']"
    "config editingNumber = Some [(''pageSize'', JNum 10)]"
    "readPluginsJson (disk editingNumber) =
       Some [(''configuration'', JObj [(''pageSize'', JNum 10)])]"
    "noParse ''not-a-number'' = None"
    by code_simp+
  from C1_non_numeric_commit [of editingLimit "''limit''" pluginN noParse "''not-a-number''"
      editingPriority "projr (currentComponents editingPriority)"
      "hd (projr (currentComponents editingPriority))"
      editingNumber "the (editingEntry editingNumber)" "''pageSize''"
      "[(''pageSize'', JNum 10)]" "[(''configuration'', JObj [(''pageSize'', JNum 10)])]"]
    p l e
  show ?thesis by auto
qed

section \<open>The cursors stay within their lists\<close>

text \<open>
  Outside drill mode the cursor of the Layout panel rests at 0: no handler moves
  it from there, and leaving drill mode puts it there.
\<close>

lemma rest_zonesKeyboard:
  "\<not> drillMode s \<Longrightarrow> selectedComponent (fst (zonesKeyboard e comps s)) = selectedComponent s"
  by (simp add: zonesKeyboard_def Let_def)

lemma rest_moveZoneSelect:
  "selectedComponent s = 0 \<Longrightarrow> selectedComponent (moveZoneSelect z c s) = 0"
  by (simp add: moveZoneSelect_def withLayout_def Let_def split: option.splits)

lemma rest_confirmRemove:
  "selectedComponent s = 0 \<Longrightarrow> selectedComponent (confirmRemove c s) = 0"
  by (simp add: confirmRemove_def Let_def)

lemma rest_layoutEvent:
  "\<not> drillMode s \<Longrightarrow> selectedComponent s = 0 \<Longrightarrow>
   selectedComponent (fst (layoutEvent ev comps s)) = 0"
  by (cases "lview s"; cases ev)
     (auto simp: layoutEvent_def Let_def rest_zonesKeyboard rest_confirmRemove rest_moveZoneSelect
           split: option.splits)

lemma clamped_0: "clamped 0 n = 0"
  by (simp add: clamped_def)

lemma layoutStep_rest:
  assumes "currentComponents s = Inr comps" "cursorOk (selectedComponent s) (length comps)"
    "\<not> drillMode s \<longrightarrow> selectedComponent s = 0"
    "acceptable ev" "layoutStep ev s = (s', None)"
  shows "\<exists>comps'. currentComponents s' = Inr comps' \<and>
           selectedComponent s' =
             (if drillMode s \<and> \<not> drillMode s' then 0
              else clamped (selectedComponent (fst (layoutEvent ev comps s))) (length comps'))"
proof -
  from layoutStep_cursor [OF assms(1,2,4,5)] obtain comps' where
    c: "currentComponents s' = Inr comps'" and
    f: "selectedComponent s' =
          (if \<not> drillMode s' \<and> (drillMode s \<or> getActiveZone s \<noteq> getActiveZone s') then 0
           else clamped (selectedComponent (fst (layoutEvent ev comps s))) (length comps'))"
    by blast
  have "selectedComponent s' =
          (if drillMode s \<and> \<not> drillMode s' then 0
           else clamped (selectedComponent (fst (layoutEvent ev comps s))) (length comps'))"
  proof (cases "drillMode s")
    case True
    with f show ?thesis by simp
  next
    case False
    with assms(3) have "selectedComponent s = 0" by simp
    from rest_layoutEvent [OF False this, of ev comps]
    have "clamped (selectedComponent (fst (layoutEvent ev comps s))) (length comps') = 0"
      by (simp add: clamped_0)
    with f False show ?thesis by simp
  qed
  with c show ?thesis by blast
qed

lemma layoutReachable_rest:
  "layoutReachable ps lc s \<Longrightarrow> \<not> drillMode s \<longrightarrow> selectedComponent s = 0"
proof (induction rule: layoutReachable.induct)
  case (mounted comps)
  show ?case by (simp add: layoutMount_def)
next
  case (stepped s ev s')
  from layoutReachable_ok [OF stepped(1)] obtain comps where
    c: "currentComponents s = Inr comps" "cursorOk (selectedComponent s) (length comps)"
    by blast
  from layoutStep_rest [OF c stepped(4,2,3)] obtain comps' where
    c': "currentComponents s' = Inr comps'" and
    f: "selectedComponent s' =
          (if drillMode s \<and> \<not> drillMode s' then 0
           else clamped (selectedComponent (fst (layoutEvent ev comps s))) (length comps'))"
    by blast
  show ?case
  proof
    assume n: "\<not> drillMode s'"
    show "selectedComponent s' = 0"
    proof (cases "drillMode s")
      case True
      with f n show ?thesis by simp
    next
      case False
      with stepped(4) have "selectedComponent s = 0" by simp
      from rest_layoutEvent [OF False this, of ev comps] f False show ?thesis
        by (simp add: clamped_0)
    qed
  qed
qed

text \<open>
  Three components in the header zone, sorted by priority. The panel is drilled
  into the zone with the cursor on the third; \<^verbatim>\<open>x\<close> asks to remove it and \<^verbatim>\<open>y\<close>
  confirms.
\<close>

definition headerPlugin :: "string \<Rightarrow> int \<Rightarrow> EnrichedPlugin" where
  "headerPlugin n p =
     \<lparr>index = 0, name = n, displayName = n, enabled = True, options = [],
      layout = Some \<lparr>position = ''header'', priority = p, display = None, condition = None,
                     group = None, groupOptions = None\<rparr>,
      manifest = None\<rparr>"

definition noLayout :: LayoutConfig where
  "noLayout = \<lparr>groups = None, byPageType = None\<rparr>"

definition onThird :: layout_state where
  "onThird =
     fst (layoutStep (LSelectChange 2)
       (fst (layoutStep (LKey \<lparr>key_name = ''return'', shift = False\<rparr>)
          (layoutMount [headerPlugin ''search'' 10, headerPlugin ''darkmode'' 20,
                        headerPlugin ''readerMode'' 30] noLayout))))"

definition afterRemoval :: layout_state where
  "afterRemoval =
     fst (layoutStep (LKey \<lparr>key_name = ''y'', shift = False\<rparr>)
       (fst (layoutStep (LKey \<lparr>key_name = ''x'', shift = False\<rparr>) onThird)))"

text \<open>
  Claim C3, as stated: cursor bounds-clamping invariant. After every operation
  that shrinks the visible-entry count (collapsing a subtree, deleting an item,
  switching page type or active zone), any cursor index at or beyond the new
  length is clamped to \<open>max(0, newLength - 1)\<close>; in every reachable state the
  cursor index lies within \<open>[0, newLength - 1]\<close>, or is 0 when the list is empty.

  Removing the third of three components leaves two; the cursor, at index 2, is
  at the new length, and its clamp is 1. The removal ends with \<^verbatim>\<open>exitView()\<close>,
  which leaves drill mode, and the effect on \<^verbatim>\<open>[drillMode, currentZone]\<close> puts the
  cursor at 0.
\<close>

theorem C3_removal_resets_cursor_counterexample:
  "selectedComponent onThird = 2 \<and>
   map c_name (projr (currentComponents onThird)) = [''search'', ''darkmode'', ''readerMode''] \<and>
   map c_name (projr (currentComponents afterRemoval)) = [''search'', ''darkmode''] \<and>
   clamped 2 2 = 1 \<and>
   selectedComponent afterRemoval = 0"
  by code_simp

text \<open>
  Claim C3, amended: in every reachable state of the Settings panel the cursor
  is within the visible entries (it lies in \<open>[0, length - 1]\<close>, or is 0 when the
  list is empty), and every step from it leaves the cursor at the clamp of
  where its handler put it, against the length of the list after the step. In
  every reachable state of the Layout panel the component list of the active
  zone can be read and the cursor is within it; every step from it leaves the
  cursor at the clamp of where its handler put it, against the length of the
  list after the step, except that a step which leaves drill mode leaves the
  cursor at 0; outside drill mode the cursor is 0.
\<close>

theorem C3_cursor_clamped:
  "(settingsReachable JSON_parse d s \<longrightarrow>
      cursorOk (highlightedIndex s) (length (visibleEntries s)) \<and>
      (\<forall>ev s'. settingsStep JSON_parse ev s = (s', None) \<longrightarrow>
         highlightedIndex s' =
           clamped (highlightedIndex (fst (settingsEvent JSON_parse ev s)))
                   (length (visibleEntries s')))) \<and>
   (layoutReachable ps lc t \<longrightarrow>
      (\<exists>comps. currentComponents t = Inr comps \<and>
         cursorOk (selectedComponent t) (length comps) \<and>
         (\<not> drillMode t \<longrightarrow> selectedComponent t = 0) \<and>
         (\<forall>ev t'. acceptable ev \<and> layoutStep ev t = (t', None) \<longrightarrow>
            (\<exists>comps'. currentComponents t' = Inr comps' \<and>
               selectedComponent t' =
                 (if drillMode t \<and> \<not> drillMode t' then 0
                  else clamped (selectedComponent (fst (layoutEvent ev comps t)))
                               (length comps'))))))"
proof (intro conjI impI)
  assume r: "settingsReachable JSON_parse d s"
  then show ok: "cursorOk (highlightedIndex s) (length (visibleEntries s))"
    by (rule settingsReachable_ok)
  show "\<forall>ev s'. settingsStep JSON_parse ev s = (s', None) \<longrightarrow>
         highlightedIndex s' =
           clamped (highlightedIndex (fst (settingsEvent JSON_parse ev s)))
                   (length (visibleEntries s'))"
    using settingsStep_cursor [OF ok] by blast
next
  assume r: "layoutReachable ps lc t"
  then obtain comps where c: "currentComponents t = Inr comps"
    "cursorOk (selectedComponent t) (length comps)"
    using layoutReachable_ok by blast
  from r have rest: "\<not> drillMode t \<longrightarrow> selectedComponent t = 0"
    by (rule layoutReachable_rest)
  have "\<forall>ev t'. acceptable ev \<and> layoutStep ev t = (t', None) \<longrightarrow>
            (\<exists>comps'. currentComponents t' = Inr comps' \<and>
               selectedComponent t' =
                 (if drillMode t \<and> \<not> drillMode t' then 0
                  else clamped (selectedComponent (fst (layoutEvent ev comps t)))
                               (length comps')))"
    using layoutStep_rest [OF c rest] by blast
  with c rest show "\<exists>comps. currentComponents t = Inr comps \<and>
         cursorOk (selectedComponent t) (length comps) \<and>
         (\<not> drillMode t \<longrightarrow> selectedComponent t = 0) \<and>
         (\<forall>ev t'. acceptable ev \<and> layoutStep ev t = (t', None) \<longrightarrow>
            (\<exists>comps'. currentComponents t' = Inr comps' \<and>
               selectedComponent t' =
                 (if drillMode t \<and> \<not> drillMode t' then 0
                  else clamped (selectedComponent (fst (layoutEvent ev comps t)))
                               (length comps'))))"
    by blast
qed

text \<open>
  The Layout panel drilled into the header zone, which holds one component. The
  down key takes the Settings cursor from 0 to 1 of three entries; an index
  beyond the single component of the zone is clamped to 0.
\<close>

definition drilledIn :: layout_state where
  "drilledIn = fst (layoutStep (LKey \<lparr>key_name = ''return'', shift = False\<rparr>)
                 (layoutMount [pluginX] listLayout))"

theorem C3_cursor_clamped_witness:
  "cursorOk (highlightedIndex (settingsMount settingsDisk))
     (length (visibleEntries (settingsMount settingsDisk))) \<and>
   highlightedIndex (fst (settingsStep noParse (Key \<lparr>key_name = ''down'', shift = False\<rparr>)
     (settingsMount settingsDisk))) = 1 \<and>
   cursorOk (selectedComponent drilledIn) 1 \<and>
   selectedComponent (fst (layoutStep (LSelectChange 5) drilledIn)) = 0"
proof -
  let ?m = "settingsMount settingsDisk"
  let ?down = "Key \<lparr>key_name = ''down'', shift = False\<rparr>"
  let ?s' = "fst (settingsStep noParse ?down ?m)"
  let ?lm = "layoutMount [pluginX] listLayout"
  let ?t' = "fst (layoutStep (LSelectChange 5) drilledIn)"
  have r1: "settingsReachable noParse settingsDisk ?m" by (rule settingsReachable.mounted)
  have "snd (settingsStep noParse ?down ?m) = None" by code_simp
  then have st1: "settingsStep noParse ?down ?m = (?s', None)" by (simp add: prod_eq_iff)
  have v1: "clamped (highlightedIndex (fst (settingsEvent noParse ?down ?m)))
              (length (visibleEntries ?s')) = 1"
    by code_simp
  have c0: "currentComponents ?lm = Inr (projr (currentComponents ?lm))" by code_simp
  have "snd (layoutStep (LKey \<lparr>key_name = ''return'', shift = False\<rparr>) ?lm) = None"
    by code_simp
  then have st2: "layoutStep (LKey \<lparr>key_name = ''return'', shift = False\<rparr>) ?lm =
      (drilledIn, None)" by (simp add: prod_eq_iff drilledIn_def)
  have r2: "layoutReachable [pluginX] listLayout drilledIn"
    by (rule layoutReachable.stepped [OF layoutReachable.mounted [OF c0] _ st2]) simp
  have "snd (layoutStep (LSelectChange 5) drilledIn) = None" by code_simp
  then have st3: "layoutStep (LSelectChange 5) drilledIn = (?t', None)" by (simp add: prod_eq_iff)
  have v2: "length (projr (currentComponents drilledIn)) = 1"
    "length (projr (currentComponents ?t')) = 1"
    "drillMode ?t'"
    "selectedComponent (fst (layoutEvent (LSelectChange 5) (projr (currentComponents drilledIn))
        drilledIn)) = 5"
    "clamped 5 1 = 0"
    by code_simp+
  from C3_cursor_clamped [of noParse settingsDisk ?m "[pluginX]" listLayout drilledIn] r1 r2
  obtain comps where k: "cursorOk (highlightedIndex ?m) (length (visibleEntries ?m))"
    "\<And>ev s'. settingsStep noParse ev ?m = (s', None) \<Longrightarrow>
       highlightedIndex s' = clamped (highlightedIndex (fst (settingsEvent noParse ev ?m)))
                               (length (visibleEntries s'))"
    "currentComponents drilledIn = Inr comps" "cursorOk (selectedComponent drilledIn) (length comps)"
    "\<And>ev t'. acceptable ev \<Longrightarrow> layoutStep ev drilledIn = (t', None) \<Longrightarrow>
       \<exists>comps'. currentComponents t' = Inr comps' \<and>
         selectedComponent t' =
           (if drillMode drilledIn \<and> \<not> drillMode t' then 0
            else clamped (selectedComponent (fst (layoutEvent ev comps drilledIn))) (length comps'))"
    by blast
  from k(2) [OF st1] v1 have a: "highlightedIndex ?s' = 1" by simp
  from k(3) have pc: "projr (currentComponents drilledIn) = comps" by simp
  with v2(1) k(4) have b: "cursorOk (selectedComponent drilledIn) 1" by simp
  from k(5) [OF _ st3] obtain comps' where n: "currentComponents ?t' = Inr comps'"
    "selectedComponent ?t' =
       (if drillMode drilledIn \<and> \<not> drillMode ?t' then 0
        else clamped (selectedComponent (fst (layoutEvent (LSelectChange 5) comps drilledIn)))
               (length comps'))"
    by auto
  from n(1) have "projr (currentComponents ?t') = comps'" by simp
  with n(2) v2 pc have c: "selectedComponent ?t' = 0" by simp
  from k(1) a b c show ?thesis by simp
qed

end
